theory Spec2Isabelle
  imports Complex_Main "HOL-Library.Sublist"
begin

section \<open>JavaScript values as the code uses them\<close>

text \<open>
  The sheet rows, the XLF segments and the configuration are plain JavaScript objects
  whose cells are primitive values. A finite number is kept as the rational it equals
  (every binary64 value is one); the conversion of a string to a number rounds to
  binary64, below. A string is a list of code units, of which \<open>char\<close> has those below
  256. An object or a function met as a value (an inherited member of
  \<open>Object.prototype\<close>) is \<open>JObject\<close> with the member's name.
\<close>

datatype jsnum = NaN | Fin rat | PosInf | NegInf

datatype jsval = JUndefined | JNull | JBool bool | JNum jsnum | JStr string | JObject string

datatype error =
    TypeError
  | UnknownTargetLanguage string
  | InvalidXLFFormat
  | InvalidSourceLanguage
  | XmlSyntaxError
  | XmlBuildError
  | NoHeadersFound
  | FailedToExportXLF error
  | FailedToParseXLF error

text \<open>Truthiness: what \<open>!v\<close>, \<open>v && e\<close> and \<open>v || e\<close> test.\<close>

fun truthy :: "jsval \<Rightarrow> bool" where
  "truthy JUndefined = False"
| "truthy JNull = False"
| "truthy (JBool b) = b"
| "truthy (JNum n) = (n \<noteq> NaN \<and> n \<noteq> Fin 0)"
| "truthy (JStr s) = (s \<noteq> [])"
| "truthy (JObject n) = True"

text \<open>\<open>a || b\<close> on values.\<close>

definition js_or :: "jsval \<Rightarrow> jsval \<Rightarrow> jsval" where
  "js_or a b = (if truthy a then a else b)"

fun is_string :: "jsval \<Rightarrow> bool" where
  "is_string (JStr s) = True"
| "is_string v = False"

text \<open>
  \<open>String.prototype.trim\<close> removes white space and line terminators at both ends; the
  code units below 256 among them are TAB, LF, VT, FF, CR, SP and NBSP.
\<close>

definition is_space :: "char \<Rightarrow> bool" where
  "is_space c = (of_char c \<in> {9, 10, 11, 12, 13, 32, 160 :: nat})"

definition trim :: "string \<Rightarrow> string" where
  "trim s = rev (dropWhile is_space (rev (dropWhile is_space s)))"

text \<open>\<open>s.split(c)\<close> for a one-character separator: never the empty array.\<close>

fun split_on :: "char \<Rightarrow> string \<Rightarrow> string list" where
  "split_on c [] = [[]]"
| "split_on c (x # xs) =
     (if x = c then [] # split_on c xs
      else (case split_on c xs of [] \<Rightarrow> [[x]] | p # ps \<Rightarrow> (x # p) # ps))"

section \<open>Number(v) and the comparison of a length with it\<close>

text \<open>
  \<open>Number\<close> applied to a string follows the grammar of numeric string literals: the
  text is trimmed; the empty text is 0; a radix literal (\<open>0x\<close>, \<open>0o\<close>, \<open>0b\<close>) has
  no sign; a decimal literal has an optional sign, then \<open>Infinity\<close> or digits with an
  optional fraction and an optional exponent; anything else is NaN.
\<close>

definition is_digit :: "char \<Rightarrow> bool" where
  "is_digit c = (48 \<le> (of_char c :: nat) \<and> (of_char c :: nat) \<le> 57)"

definition radix_digit :: "char \<Rightarrow> nat option" where
  "radix_digit c =
     (let n = (of_char c :: nat) in
      if 48 \<le> n \<and> n \<le> 57 then Some (n - 48)
      else if 97 \<le> n \<and> n \<le> 102 then Some (n - 87)
      else if 65 \<le> n \<and> n \<le> 70 then Some (n - 55)
      else None)"

definition is_radix_digit :: "nat \<Rightarrow> char \<Rightarrow> bool" where
  "is_radix_digit base c = (case radix_digit c of None \<Rightarrow> False | Some d \<Rightarrow> d < base)"

definition digits_value :: "nat \<Rightarrow> string \<Rightarrow> nat" where
  "digits_value base ds =
     foldl (\<lambda>a c. a * base + (case radix_digit c of None \<Rightarrow> 0 | Some d \<Rightarrow> d)) 0 ds"

definition radix_of_prefix :: "char \<Rightarrow> nat option" where
  "radix_of_prefix c =
     (if c = CHR ''x'' \<or> c = CHR ''X'' then Some 16
      else if c = CHR ''o'' \<or> c = CHR ''O'' then Some 8
      else if c = CHR ''b'' \<or> c = CHR ''B'' then Some 2
      else None)"

definition radix_literal :: "string \<Rightarrow> jsnum option" where
  "radix_literal s =
     (case s of
        c0 # c1 # ds \<Rightarrow>
          (if c0 = CHR ''0'' then
             (case radix_of_prefix c1 of
                None \<Rightarrow> None
              | Some base \<Rightarrow>
                  Some (if ds \<noteq> [] \<and> list_all (is_radix_digit base) ds
                        then Fin (of_nat (digits_value base ds)) else NaN))
           else None)
      | _ \<Rightarrow> None)"

definition scale10 :: "nat \<Rightarrow> int \<Rightarrow> rat" where
  "scale10 m e = (if 0 \<le> e then of_nat m * 10 ^ nat e else of_nat m / 10 ^ nat (- e))"

text \<open>The text after the mantissa: nothing, or \<open>e\<close> with a signed integer.\<close>

definition exponent_part :: "string \<Rightarrow> int option" where
  "exponent_part r =
     (case r of
        [] \<Rightarrow> Some 0
      | c # r' \<Rightarrow>
          (if c = CHR ''e'' \<or> c = CHR ''E'' then
             (let neg = (r' \<noteq> [] \<and> hd r' = CHR ''-'');
                  ds = (if r' \<noteq> [] \<and> (hd r' = CHR ''-'' \<or> hd r' = CHR ''+'') then tl r' else r')
              in if ds \<noteq> [] \<and> list_all is_digit ds
                 then Some (if neg then - int (digits_value 10 ds) else int (digits_value 10 ds))
                 else None)
           else None))"

definition unsigned_decimal :: "string \<Rightarrow> jsnum" where
  "unsigned_decimal s =
     (if s = ''Infinity'' then PosInf
      else
        (let ip = takeWhile is_digit s;
             r1 = dropWhile is_digit s;
             dot = (r1 \<noteq> [] \<and> hd r1 = CHR ''.'');
             fp = (if dot then takeWhile is_digit (tl r1) else []);
             r2 = (if dot then dropWhile is_digit (tl r1) else r1)
         in if ip = [] \<and> fp = [] then NaN
            else (case exponent_part r2 of
                    None \<Rightarrow> NaN
                  | Some e \<Rightarrow> Fin (scale10 (digits_value 10 (ip @ fp)) (e - int (length fp))))))"

fun negate :: "jsnum \<Rightarrow> jsnum" where
  "negate NaN = NaN"
| "negate (Fin q) = Fin (- q)"
| "negate PosInf = NegInf"
| "negate NegInf = PosInf"

text \<open>
  The mathematical value of the literal is then rounded to the nearest binary64 value,
  ties to the even significand: 53 bits of significand, the exponent of the last bit no
  lower than \<open>-1074\<close>, and infinity from \<open>2 ^ 1024\<close> on.
\<close>

fun bit_length :: "nat \<Rightarrow> nat" where
  "bit_length n = (if n = 0 then 0 else Suc (bit_length (n div 2)))"

declare bit_length.simps [simp del]

definition pow2 :: "int \<Rightarrow> rat" where
  "pow2 e = (if 0 \<le> e then 2 ^ nat e else 1 / 2 ^ nat (- e))"

definition round_half_even :: "rat \<Rightarrow> int" where
  "round_half_even x =
     (let f = \<lfloor>x\<rfloor>; r = x - of_int f
      in if r < 1 / 2 then f else if 1 / 2 < r then f + 1 else if even f then f else f + 1)"

text \<open>
  \<open>\<lfloor>log\<^sub>2 q\<rfloor>\<close> for a positive \<open>q\<close>: one less than the number of bits of \<open>\<lfloor>q\<rfloor>\<close>
  from 1 on, and below 1 the negated number of bits of \<open>\<lceil>1 / q\<rceil> - 1\<close>.
\<close>

definition floor_log2 :: "rat \<Rightarrow> int" where
  "floor_log2 q =
     (if 1 \<le> q then int (bit_length (nat \<lfloor>q\<rfloor>)) - 1
      else - int (bit_length (nat (\<lceil>1 / q\<rceil> - 1))))"

definition binary64 :: "rat \<Rightarrow> jsnum" where
  "binary64 q =
     (if q = 0 then Fin 0
      else
        (let a = \<bar>q\<bar>;
             e = max (floor_log2 a - 52) (- 1074);
             v = of_int (round_half_even (a / pow2 e)) * pow2 e
         in if 2 ^ 1024 \<le> v then (if q < 0 then NegInf else PosInf)
            else Fin (if q < 0 then - v else v)))"

fun rounded :: "jsnum \<Rightarrow> jsnum" where
  "rounded (Fin q) = binary64 q"
| "rounded n = n"

definition StringToNumber :: "string \<Rightarrow> jsnum" where
  "StringToNumber s =
     (let t = trim s in
      if t = [] then Fin 0
      else rounded
             (case radix_literal t of
                Some n \<Rightarrow> n
              | None \<Rightarrow>
                  (if hd t = CHR ''-'' then negate (unsigned_decimal (tl t))
                   else if hd t = CHR ''+'' then unsigned_decimal (tl t)
                   else unsigned_decimal t)))"

text \<open>\<open>Number(v)\<close>; an object or function of \<open>Object.prototype\<close> converts to NaN.\<close>

fun Number_js :: "jsval \<Rightarrow> jsnum" where
  "Number_js JUndefined = NaN"
| "Number_js JNull = Fin 0"
| "Number_js (JBool b) = Fin (if b then 1 else 0)"
| "Number_js (JNum n) = n"
| "Number_js (JStr s) = StringToNumber s"
| "Number_js (JObject n) = NaN"

text \<open>
  \<open>n > max\<close> for a string length \<open>n\<close>: false against NaN. A length is an integer
  below \<open>2 ^ 53\<close>, which is a binary64 value as it is.
\<close>

fun length_gt :: "nat \<Rightarrow> jsnum \<Rightarrow> bool" where
  "length_gt n NaN = False"
| "length_gt n (Fin q) = (q < of_nat n)"
| "length_gt n PosInf = False"
| "length_gt n NegInf = True"

section \<open>Sheet rows\<close>

text \<open>
  A row is an object keyed by column name: the map holds its own properties. Reading a
  key the object does not have itself goes to \<open>Object.prototype\<close>, which has the members
  below, and gives \<open>undefined\<close> for every other key.
\<close>

type_synonym row = "string \<rightharpoonup> jsval"

definition Object_prototype_keys :: "string list" where
  "Object_prototype_keys =
     [''constructor'', ''__defineGetter__'', ''__defineSetter__'', ''hasOwnProperty'',
      ''__lookupGetter__'', ''__lookupSetter__'', ''isPrototypeOf'', ''propertyIsEnumerable'',
      ''toString'', ''valueOf'', ''__proto__'', ''toLocaleString'']"

definition inherited :: "string \<Rightarrow> jsval" where
  "inherited k = (if k \<in> set Object_prototype_keys then JObject k else JUndefined)"

text \<open>\<open>row[k]\<close> for a key \<open>k\<close> that the caller chooses.\<close>

definition member :: "row \<Rightarrow> string \<Rightarrow> jsval" where
  "member row k = (case row k of None \<Rightarrow> inherited k | Some v \<Rightarrow> v)"

text \<open>
  \<open>row.id\<close>, \<open>row.active\<close>, \<open>row.maxwidth\<close>, \<open>row['size-unit']\<close>, \<open>row.English\<close>
  and \<open>row[lang]\<close> for a configured language: the read of a column whose name is no
  member of \<open>Object.prototype\<close>.
\<close>

definition cell :: "row \<Rightarrow> string \<Rightarrow> jsval" where
  "cell row k = (case row k of None \<Rightarrow> JUndefined | Some v \<Rightarrow> v)"

section \<open>main.js: extractCategory\<close>

text \<open>
  \<^verbatim>\<open>if (!id || typeof id !== 'string') return '';
  const parts = id.split('.');
  return parts[0] || '';\<close>
  An index outside the array reads \<open>undefined\<close>, which \<open>|| ''\<close> turns into the empty
  string.
\<close>

definition extractCategory :: "jsval \<Rightarrow> string" where
  "extractCategory ident =
     (if \<not> truthy ident \<or> \<not> is_string ident then []
      else (case ident of
              JStr s \<Rightarrow> (case split_on CHR ''.'' s of [] \<Rightarrow> [] | p # ps \<Rightarrow> if p \<noteq> [] then p else [])
            | _ \<Rightarrow> []))"

section \<open>config.js: the language table\<close>

text \<open>An object literal keeps its string keys in the order they are written.\<close>

definition LANGUAGES :: "(string \<times> string) list" where
  "LANGUAGES =
     [(''Spanish'', ''es''), (''French'', ''fr''), (''Portuguese'', ''pt_BR''),
      (''German'', ''de''), (''Italian'', ''it''), (''Turkish'', ''tr''),
      (''Dutch'', ''nl_NL''), (''Greek'', ''el''), (''Arabic'', ''ar''),
      (''Indonesian'', ''id''), (''Japanese'', ''ja''), (''Thai'', ''th''),
      (''Swedish'', ''sv''), (''Danish'', ''da''), (''Finnish'', ''fi''),
      (''Norwegian'', ''no''), (''Korean'', ''ko''), (''Croatian'', ''hr''),
      (''Vietnamese'', ''vi''), (''Bulgarian'', ''bg''), (''Polish'', ''pl''),
      (''Czech'', ''cs''), (''Romanian'', ''ro''), (''Ukrainian'', ''uk''),
      (''Hungarian'', ''hu''), (''Slovenian'', ''sl''), (''Slovak'', ''sk''),
      (''Hebrew'', ''he'')]"

definition BASE_COLUMNS :: "string list" where
  "BASE_COLUMNS = [''id'', ''maxwidth'', ''size-unit'', ''English'']"

definition Object_keys :: "(string \<times> 'v) list \<Rightarrow> string list" where
  "Object_keys obj = map fst obj"

text \<open>\<open>LANGUAGES[k]\<close>: the code of an own key, an inherited member, or \<open>undefined\<close>.\<close>

definition LANGUAGES_at :: "string \<Rightarrow> jsval" where
  "LANGUAGES_at k = (case map_of LANGUAGES k of None \<Rightarrow> inherited k | Some code \<Rightarrow> JStr code)"

section \<open>xlf-exporter.js: getAvailableLanguages\<close>

text \<open>
  The argument is the header array, or \<open>None\<close> when the caller passes nothing
  (\<open>undefined\<close>). An array is truthy even when it is empty.
  \<^verbatim>\<open>if (!sheetHeaders) { return Object.keys(LANGUAGES); }
  return Object.keys(LANGUAGES).filter(lang => sheetHeaders.includes(lang));\<close>
\<close>

definition getAvailableLanguages :: "string list option \<Rightarrow> string list" where
  "getAvailableLanguages sheetHeaders =
     (case sheetHeaders of
        None \<Rightarrow> Object_keys LANGUAGES
      | Some hs \<Rightarrow> filter (\<lambda>lang. lang \<in> set hs) (Object_keys LANGUAGES))"

text \<open>
  main.js, getLanguages: the outcome of \<open>getSheetHeaders()\<close> is the argument, \<open>Inl\<close>
  when reading the header row throws.
\<close>

definition getLanguages :: "error + string list \<Rightarrow> string list" where
  "getLanguages headersRead =
     (case headersRead of
        Inr sheetHeaders \<Rightarrow> getAvailableLanguages (Some sheetHeaders)
      | Inl e \<Rightarrow> getAvailableLanguages None)"

section \<open>xlf-exporter.js: exportXLF\<close>

text \<open>
  The liveness filter:
  \<^verbatim>\<open>const active = row.active;
  if (!active) return false;
  if (active === false || active === 'false' || active === 'FALSE' || active === '0') return false;
  return true;\<close>
\<close>

definition isActive :: "row \<Rightarrow> bool" where
  "isActive row =
     (let active = cell row ''active'' in
      if \<not> truthy active then False
      else if active = JBool False \<or> active = JStr ''false'' \<or> active = JStr ''FALSE''
              \<or> active = JStr ''0'' then False
      else True)"

text \<open>
  \<open>row[targetLang] && row[targetLang].trim() !== ''\<close>: a truthy cell that is not a
  string has no \<open>trim\<close>, and the call throws.
\<close>

definition has_translation :: "string \<Rightarrow> row \<Rightarrow> error + bool" where
  "has_translation targetLang row =
     (let t = member row targetLang in
      if \<not> truthy t then Inr False
      else (case t of JStr s \<Rightarrow> Inr (trim s \<noteq> []) | _ \<Rightarrow> Inl TypeError))"

text \<open>\<open>Array.prototype.filter\<close> with a callback that may throw.\<close>

fun filterE :: "('a \<Rightarrow> error + bool) \<Rightarrow> 'a list \<Rightarrow> error + 'a list" where
  "filterE p [] = Inr []"
| "filterE p (x # xs) =
     (case p x of
        Inl e \<Rightarrow> Inl e
      | Inr b \<Rightarrow> (case filterE p xs of
                   Inl e \<Rightarrow> Inl e
                 | Inr ys \<Rightarrow> Inr (if b then x # ys else ys)))"

record maxwidth_error =
  err_id :: jsval
  err_value :: jsval
  err_maxwidth :: jsval

record trans_unit =
  tu_id :: jsval
  tu_maxwidth :: jsval
  tu_size_unit :: jsval
  tu_source :: jsval
  tu_target :: jsval

text \<open>
  The test of the second filter:
  \<^verbatim>\<open>if (row.maxwidth && !isNaN(Number(row.maxwidth))) {
      const max = Number(row.maxwidth);
      if (typeof row[targetLang] === 'string' && row[targetLang].length > max) { ... }\<close>
\<close>

definition exceeds_maxwidth :: "string \<Rightarrow> row \<Rightarrow> bool" where
  "exceeds_maxwidth targetLang row =
     (if truthy (cell row ''maxwidth'') \<and> Number_js (cell row ''maxwidth'') \<noteq> NaN then
        (let max = Number_js (cell row ''maxwidth'') in
         case member row targetLang of JStr t \<Rightarrow> length_gt (length t) max | _ \<Rightarrow> False)
      else False)"

definition violation_of :: "string \<Rightarrow> row \<Rightarrow> maxwidth_error" where
  "violation_of targetLang row =
     \<lparr>err_id = cell row ''id'', err_value = member row targetLang,
      err_maxwidth = cell row ''maxwidth''\<rparr>"

text \<open>The second filter: a row over its width is pushed on maxwidthErrors and dropped.\<close>

fun skip_violations ::
  "string \<Rightarrow> row list \<Rightarrow> maxwidth_error list \<Rightarrow> row list \<times> maxwidth_error list" where
  "skip_violations targetLang [] maxwidthErrors = ([], maxwidthErrors)"
| "skip_violations targetLang (row # rows) maxwidthErrors =
     (if exceeds_maxwidth targetLang row then
        skip_violations targetLang rows (maxwidthErrors @ [violation_of targetLang row])
      else (case skip_violations targetLang rows maxwidthErrors of
              (kept, errs) \<Rightarrow> (row # kept, errs)))"

definition unit_of :: "string \<Rightarrow> row \<Rightarrow> trans_unit" where
  "unit_of targetLang row =
     \<lparr>tu_id = js_or (cell row ''id'') (JStr []),
      tu_maxwidth = js_or (cell row ''maxwidth'') (JStr []),
      tu_size_unit = js_or (cell row ''size-unit'') (JStr []),
      tu_source = js_or (cell row ''English'') (JStr []),
      tu_target = member row targetLang\<rparr>"

text \<open>
  The object handed to the XML builder: the attributes of \<open>xliff\<close> and of \<open>file\<close>, and
  the trans-units of \<open>body\<close>.
\<close>

record xliff_structure =
  xliff_version :: string
  file_original :: string
  file_source_language :: string
  file_target_language :: jsval
  file_translation_type :: string
  file_datatype :: string
  body_trans_unit :: "trans_unit list"

definition innerXliffStructure :: "jsval \<Rightarrow> trans_unit list \<Rightarrow> xliff_structure" where
  "innerXliffStructure langCode transUnits =
     \<lparr>xliff_version = ''1.2'', file_original = ''Salesforce'',
      file_source_language = ''en_US'', file_target_language = langCode,
      file_translation_type = ''metadata'', file_datatype = ''xml'',
      body_trans_unit = transUnits\<rparr>"

record export_result =
  xlf :: string
  maxwidthErrors :: "maxwidth_error list"

text \<open>
  \<open>innerBuilder.buildObject\<close> belongs to the xml2js package, which is not part of the
  repository: it is the parameter \<open>buildObject\<close>, which gives the XML text of the
  structure or throws (as it does on a character that XML does not allow). The call is
  inside the \<open>try\<close>: every throw of the function, this one too, is caught and rethrown
  as \<open>Failed to export XLF\<close>.
\<close>

definition exportXLF ::
  "(xliff_structure \<Rightarrow> error + string) \<Rightarrow> string \<Rightarrow> row list \<Rightarrow> error + export_result" where
  "exportXLF buildObject targetLang sheetData =
     (let langCode = LANGUAGES_at targetLang in
      if \<not> truthy langCode then Inl (FailedToExportXLF (UnknownTargetLanguage targetLang))
      else
        (let activeRecords = filter isActive sheetData in
         case filterE (has_translation targetLang) activeRecords of
           Inl e \<Rightarrow> Inl (FailedToExportXLF e)
         | Inr translated \<Rightarrow>
             (case skip_violations targetLang translated [] of
                (kept, errs) \<Rightarrow>
                  (case buildObject
                          (innerXliffStructure langCode (map (unit_of targetLang) kept)) of
                     Inl e \<Rightarrow> Inl (FailedToExportXLF e)
                   | Inr xmlString \<Rightarrow> Inr \<lparr>xlf = xmlString, maxwidthErrors = errs\<rparr>))))"

section \<open>xlf-parser.js: parseXLF\<close>

text \<open>
  What the XML parser returns (options \<open>explicitArray: false\<close>, \<open>mergeAttrs: true\<close>):
  an element is a string when it has only text, an object when it has attributes or
  children, and children of one name repeated are an array. The parser is a library;
  its outcome on the content is the argument of the model, \<open>Inl\<close> when it rejects
  the text.
\<close>

datatype xval = XUndefined | XNull | XStr string | XArr "xval list" | XObj "(string \<times> xval) list"

fun x_truthy :: "xval \<Rightarrow> bool" where
  "x_truthy XUndefined = False"
| "x_truthy XNull = False"
| "x_truthy (XStr s) = (s \<noteq> [])"
| "x_truthy (XArr xs) = True"
| "x_truthy (XObj kvs) = True"

text \<open>
  Reading a member: \<open>undefined\<close> unless the value is an object that has it. The code
  reads members of truthy values only, except for \<open>result.xliff\<close>.
\<close>

fun x_get :: "xval \<Rightarrow> string \<Rightarrow> xval" where
  "x_get (XObj kvs) k = (case map_of kvs k of None \<Rightarrow> XUndefined | Some v \<Rightarrow> v)"
| "x_get v k = XUndefined"

definition x_or :: "xval \<Rightarrow> xval \<Rightarrow> xval" where
  "x_or a b = (if x_truthy a then a else b)"

text \<open>\<open>Array.isArray(v) ? v : [v]\<close>\<close>

fun as_array :: "xval \<Rightarrow> xval list" where
  "as_array (XArr xs) = xs"
| "as_array v = [v]"

record parsed_segment =
  ps_id :: xval
  ps_source :: xval
  ps_maxwidth :: xval
  ps_sizeUnit :: xval
  ps_note :: xval

record parsed_xlf =
  sourceLanguage :: xval
  targetLanguage :: xval
  original :: xval
  segments :: "parsed_segment list"

definition segment_of_unit :: "xval \<Rightarrow> parsed_segment" where
  "segment_of_unit unit =
     \<lparr>ps_id = x_or (x_get unit ''id'') (XStr []),
      ps_source = x_or (x_get unit ''source'') (XStr []),
      ps_maxwidth = x_or (x_get unit ''maxwidth'') (XStr []),
      ps_sizeUnit = x_or (x_get unit ''size-unit'') (XStr []),
      ps_note = x_or (x_get unit ''note'') (XStr [])\<rparr>"

text \<open>The trans-unit array taken from \<open>file.body\<close>, nested envelope first.\<close>

definition trans_units_of :: "xval \<Rightarrow> xval list" where
  "trans_units_of file =
     (let body = x_get file ''body'' in
      if x_truthy body then
        (if x_truthy (x_get body ''xliff'')
            \<and> x_truthy (x_get (x_get body ''xliff'') ''file'')
            \<and> x_truthy (x_get (x_get (x_get body ''xliff'') ''file'') ''body'')
         then as_array (x_get (x_get (x_get (x_get body ''xliff'') ''file'') ''body'') ''trans-unit'')
         else if x_truthy (x_get body ''trans-unit'')
         then as_array (x_get body ''trans-unit'')
         else [])
      else [])"

text \<open>
  Every throw inside the function is caught and rethrown as \<open>Failed to parse XLF\<close>.
  A falsy unit is skipped by the loop.
\<close>

definition parseXLF :: "error + xval \<Rightarrow> error + parsed_xlf" where
  "parseXLF parsed =
     (case parsed of
        Inl e \<Rightarrow> Inl (FailedToParseXLF e)
      | Inr result \<Rightarrow>
          (if result = XUndefined \<or> result = XNull then Inl (FailedToParseXLF TypeError)
           else if \<not> x_truthy (x_get result ''xliff'')
                   \<or> \<not> x_truthy (x_get (x_get result ''xliff'') ''file'')
           then Inl (FailedToParseXLF InvalidXLFFormat)
           else
             (let file = x_get (x_get result ''xliff'') ''file'' in
              if x_get file ''source-language'' \<noteq> XStr ''en_US''
              then Inl (FailedToParseXLF InvalidSourceLanguage)
              else Inr \<lparr>sourceLanguage = x_get file ''source-language'',
                        targetLanguage = x_get file ''target-language'',
                        original = x_get file ''original'',
                        segments = map segment_of_unit (filter x_truthy (trans_units_of file))\<rparr>)))"

section \<open>main.js: syncXLFtoSheet\<close>

text \<open>
  The synchronisation is modelled from the parsed segments on, for segments whose fields
  are strings (what the parser yields for attributes and text-only elements). The sheet
  is modelled as the list of row objects that \<open>readSheet\<close> returns; the header row is
  a separate argument.
\<close>

record segment =
  seg_id :: string
  seg_source :: string
  seg_maxwidth :: string
  seg_sizeUnit :: string
  seg_note :: string

record sync_stats =
  added :: nat
  updated :: nat
  unchanged :: nat
  deactivated :: nat

text \<open>
  A JavaScript \<open>Map\<close> keeps its entries in insertion order; \<open>set\<close> on a key that is
  present replaces the value where it stands.
\<close>

fun Map_set :: "'k \<Rightarrow> 'v \<Rightarrow> ('k \<times> 'v) list \<Rightarrow> ('k \<times> 'v) list" where
  "Map_set k v [] = [(k, v)]"
| "Map_set k v (e # m) = (if fst e = k then (k, v) # m else e # Map_set k v m)"

definition Map_delete :: "'k \<Rightarrow> ('k \<times> 'v) list \<Rightarrow> ('k \<times> 'v) list" where
  "Map_delete k m = filter (\<lambda>e. fst e \<noteq> k) m"

text \<open>\<open>segments.forEach(seg => xlfMap.set(seg.id, seg))\<close>\<close>

definition index_segments :: "segment list \<Rightarrow> (string \<times> segment) list" where
  "index_segments segs = foldl (\<lambda>m seg. Map_set (seg_id seg) seg m) [] segs"

text \<open>\<open>sheetHeaders.filter(h => !BASE_COLUMNS.includes(h) && h !== 'active')\<close>\<close>

definition language_columns :: "string list \<Rightarrow> string list" where
  "language_columns sheetHeaders =
     filter (\<lambda>h. h \<notin> set BASE_COLUMNS \<and> h \<noteq> ''active'') sheetHeaders"

text \<open>\<open>languageColumns.forEach(col => { r[col] = ''; })\<close>\<close>

definition clear_columns :: "string list \<Rightarrow> row \<Rightarrow> row" where
  "clear_columns languageColumns r = foldl (\<lambda>r col. r(col \<mapsto> JStr [])) r languageColumns"

definition newRow :: "string list \<Rightarrow> segment \<Rightarrow> row" where
  "newRow languageColumns segment =
     clear_columns languageColumns
       [''id'' \<mapsto> JStr (seg_id segment),
        ''category'' \<mapsto> JStr (extractCategory (JStr (seg_id segment))),
        ''maxwidth'' \<mapsto> JStr (seg_maxwidth segment),
        ''size-unit'' \<mapsto> JStr (seg_sizeUnit segment),
        ''English'' \<mapsto> JStr (seg_source segment),
        ''active'' \<mapsto> JBool True]"

text \<open>The row written when the source text changed, and when only metadata did.\<close>

definition source_changed_row :: "string list \<Rightarrow> segment \<Rightarrow> row \<Rightarrow> row" where
  "source_changed_row languageColumns segment r =
     clear_columns languageColumns
       (r(''English'' \<mapsto> JStr (seg_source segment),
          ''maxwidth'' \<mapsto> JStr (seg_maxwidth segment),
          ''size-unit'' \<mapsto> JStr (seg_sizeUnit segment),
          ''active'' \<mapsto> JBool True))"

definition metadata_row :: "segment \<Rightarrow> row \<Rightarrow> row" where
  "metadata_row segment r =
     r(''maxwidth'' \<mapsto> JStr (seg_maxwidth segment),
       ''size-unit'' \<mapsto> JStr (seg_sizeUnit segment),
       ''active'' \<mapsto> JBool True)"

subsection \<open>The version that updates rows in place (main.js, first version)\<close>

record sync_state =
  xlfMap :: "(string \<times> segment) list"
  rowsToUpdate :: "(nat \<times> row) list"
  stats :: sync_stats

text \<open>
  One turn of the loop over the sheet rows, for the row at array index \<open>i\<close>. A row
  whose id is falsy or blank is skipped; \<open>row.id.trim()\<close> throws when the id is truthy
  and not a string.
\<close>

definition sync_row :: "string list \<Rightarrow> nat \<Rightarrow> row \<Rightarrow> sync_state \<Rightarrow> error + sync_state" where
  "sync_row languageColumns i r st =
     (if \<not> truthy (cell r ''id'') then Inr st
      else
        (case cell r ''id'' of
           JStr rid \<Rightarrow>
             (if trim rid = [] then Inr st
              else
                (case map_of (xlfMap st) rid of
                   Some segment \<Rightarrow>
                     (let needsUpdate =
                            (cell r ''English'' \<noteq> JStr (seg_source segment)
                             \<or> cell r ''active'' \<noteq> JBool True
                             \<or> cell r ''maxwidth'' \<noteq> JStr (seg_maxwidth segment)
                             \<or> cell r ''size-unit'' \<noteq> JStr (seg_sizeUnit segment));
                          st1 =
                            (if needsUpdate then
                               (if cell r ''English'' \<noteq> JStr (seg_source segment) then
                                  st\<lparr>rowsToUpdate := rowsToUpdate st
                                        @ [(i + 2, source_changed_row languageColumns segment r)],
                                     stats := (stats st)\<lparr>updated := updated (stats st) + 1\<rparr>\<rparr>
                                else
                                  st\<lparr>rowsToUpdate := rowsToUpdate st
                                        @ [(i + 2, metadata_row segment r)],
                                     stats := (stats st)\<lparr>unchanged := unchanged (stats st) + 1\<rparr>\<rparr>)
                             else st\<lparr>stats := (stats st)\<lparr>unchanged := unchanged (stats st) + 1\<rparr>\<rparr>)
                      in Inr (st1\<lparr>xlfMap := Map_delete rid (xlfMap st1)\<rparr>))
                 | None \<Rightarrow>
                     (let st1 =
                            (if cell r ''active'' \<noteq> JBool False then
                               st\<lparr>rowsToUpdate := rowsToUpdate st
                                     @ [(i + 2, r(''active'' \<mapsto> JBool False))]\<rparr>
                             else st)
                      in Inr (st1\<lparr>stats := (stats st1)\<lparr>deactivated := deactivated (stats st1) + 1\<rparr>\<rparr>))))
         | _ \<Rightarrow> Inl TypeError))"

fun sync_rows :: "string list \<Rightarrow> nat \<Rightarrow> row list \<Rightarrow> sync_state \<Rightarrow> error + sync_state" where
  "sync_rows languageColumns i [] st = Inr st"
| "sync_rows languageColumns i (r # rs) st =
     (case sync_row languageColumns i r st of
        Inl e \<Rightarrow> Inl e
      | Inr st' \<Rightarrow> sync_rows languageColumns (Suc i) rs st')"

text \<open>
  google-sheets.js, at the level of row objects: \<open>updateRows\<close> writes each update over
  the sheet row of its number (row 1 is the header, so number \<open>n\<close> is array index
  \<open>n - 2\<close>), and \<open>appendRows\<close> adds rows below the last one. The conversion of an
  object to cells along the header row is not modelled.
\<close>

definition updateRows :: "(nat \<times> row) list \<Rightarrow> row list \<Rightarrow> row list" where
  "updateRows updates sheet = foldl (\<lambda>d u. d[fst u - 2 := snd u]) sheet updates"

definition appendRows :: "row list \<Rightarrow> row list \<Rightarrow> row list" where
  "appendRows rowsToAdd sheet = sheet @ rowsToAdd"

text \<open>
  The whole synchronisation: the sheet rows after it, and the statistics. A throw inside
  is caught and reported; nothing has been written by then.
\<close>

definition syncXLFtoSheet ::
  "segment list \<Rightarrow> row list \<Rightarrow> string list \<Rightarrow> error + row list \<times> sync_stats" where
  "syncXLFtoSheet segs sheetData sheetHeaders =
     (let languageColumns = language_columns sheetHeaders in
      case sync_rows languageColumns 0 sheetData
             \<lparr>xlfMap = index_segments segs, rowsToUpdate = [],
              stats = \<lparr>added = 0, updated = 0, unchanged = 0, deactivated = 0\<rparr>\<rparr> of
        Inl e \<Rightarrow> Inl e
      | Inr st \<Rightarrow>
          (let rowsToAdd = map (\<lambda>e. newRow languageColumns (snd e)) (xlfMap st) in
           Inr (appendRows rowsToAdd (updateRows (rowsToUpdate st) sheetData),
                (stats st)\<lparr>added := length rowsToAdd\<rparr>)))"

subsection \<open>The version that rewrites the sheet (main.js, second version)\<close>

text \<open>
  \<open>sheetData.forEach(row => { if (row.id) sheetMap.set(row.id, row); })\<close>: the key is
  the id cell as it is.
\<close>

definition index_rows :: "row list \<Rightarrow> (jsval \<times> row) list" where
  "index_rows sheetData =
     foldl (\<lambda>m r. if truthy (cell r ''id'') then Map_set (cell r ''id'') r m else m) [] sheetData"

text \<open>One turn of the loop over the entries of xlfMap.\<close>

definition rewrite_segment ::
  "string list \<Rightarrow> (jsval \<times> row) list \<Rightarrow> row list \<times> sync_stats \<Rightarrow> string \<times> segment
     \<Rightarrow> row list \<times> sync_stats" where
  "rewrite_segment languageColumns sheetMap acc entry =
     (case acc of
        (updatedData, st) \<Rightarrow>
          (case map_of sheetMap (JStr (fst entry)) of
             None \<Rightarrow>
               (updatedData @ [newRow languageColumns (snd entry)],
                st\<lparr>added := added st + 1\<rparr>)
           | Some existingRow \<Rightarrow>
               (if cell existingRow ''English'' \<noteq> JStr (seg_source (snd entry)) then
                  (updatedData @ [source_changed_row languageColumns (snd entry) existingRow],
                   st\<lparr>updated := updated st + 1\<rparr>)
                else
                  (updatedData @ [metadata_row (snd entry) existingRow],
                   st\<lparr>unchanged := unchanged st + 1\<rparr>))))"

text \<open>\<open>xlfMap.has(id)\<close> for a key of sheetMap; the keys of xlfMap are strings.\<close>

definition has_id :: "(string \<times> segment) list \<Rightarrow> jsval \<Rightarrow> bool" where
  "has_id xlfMap0 v = (case v of JStr k \<Rightarrow> map_of xlfMap0 k \<noteq> None | _ \<Rightarrow> False)"

text \<open>One turn of the loop over the entries of sheetMap: rows not in the XLF.\<close>

definition rewrite_missing ::
  "(string \<times> segment) list \<Rightarrow> row list \<times> sync_stats \<Rightarrow> jsval \<times> row \<Rightarrow> row list \<times> sync_stats" where
  "rewrite_missing xlfMap0 acc entry =
     (case acc of
        (updatedData, st) \<Rightarrow>
          (if has_id xlfMap0 (fst entry) then acc
           else (updatedData @ [(snd entry)(''active'' \<mapsto> JBool False)],
                 st\<lparr>deactivated := deactivated st + 1\<rparr>)))"

text \<open>
  \<open>writeSheet(updatedData)\<close> replaces every row below the header, and throws when the
  sheet has no header.
\<close>

definition syncXLFtoSheet_writeSheet ::
  "segment list \<Rightarrow> row list \<Rightarrow> string list \<Rightarrow> error + row list \<times> sync_stats" where
  "syncXLFtoSheet_writeSheet segs sheetData sheetHeaders =
     (let xlfMap0 = index_segments segs;
          sheetMap = index_rows sheetData;
          languageColumns = language_columns sheetHeaders;
          acc1 = foldl (rewrite_segment languageColumns sheetMap)
                   ([], \<lparr>added = 0, updated = 0, unchanged = 0, deactivated = 0\<rparr>) xlfMap0;
          acc2 = foldl (rewrite_missing xlfMap0) acc1 sheetMap
      in if sheetHeaders = [] then Inl NoHeadersFound else Inr acc2)"

section \<open>The synchronisation row by row\<close>

text \<open>
  The reading of the loops that the proofs below relate to the code. The key of a row is
  its id when the loop does not skip it. A row's id is acceptable when reading it does not
  throw: it is falsy or a string.
\<close>

definition row_key :: "row \<Rightarrow> string option" where
  "row_key r = (case cell r ''id'' of JStr s \<Rightarrow> if trim s = [] then None else Some s | _ \<Rightarrow> None)"

definition id_ok :: "row \<Rightarrow> bool" where
  "id_ok r = (\<not> truthy (cell r ''id'') \<or> is_string (cell r ''id''))"

definition keys :: "row list \<Rightarrow> string list" where
  "keys rs = List.map_filter row_key rs"

datatype outcome = Skipped | Added | Updated | Unchanged | Deactivated

text \<open>How a row fares against an index of segments, and what it becomes.\<close>

definition classify :: "(string \<times> segment) list \<Rightarrow> row \<Rightarrow> outcome" where
  "classify m r =
     (case row_key r of
        None \<Rightarrow> Skipped
      | Some k \<Rightarrow>
          (case map_of m k of
             None \<Rightarrow> Deactivated
           | Some seg \<Rightarrow> if cell r ''English'' \<noteq> JStr (seg_source seg) then Updated else Unchanged))"

definition next_row :: "string list \<Rightarrow> (string \<times> segment) list \<Rightarrow> row \<Rightarrow> row" where
  "next_row cols m r =
     (case row_key r of
        None \<Rightarrow> r
      | Some k \<Rightarrow>
          (case map_of m k of
             None \<Rightarrow> r(''active'' \<mapsto> JBool False)
           | Some seg \<Rightarrow>
               if cell r ''English'' \<noteq> JStr (seg_source seg)
               then source_changed_row cols seg r else metadata_row seg r))"

text \<open>The index after a row has been handled: its key is deleted.\<close>

definition consume :: "(string \<times> segment) list \<Rightarrow> row \<Rightarrow> (string \<times> segment) list" where
  "consume m r = (case row_key r of None \<Rightarrow> m | Some k \<Rightarrow> Map_delete k m)"

fun next_rows :: "string list \<Rightarrow> (string \<times> segment) list \<Rightarrow> row list \<Rightarrow> row list" where
  "next_rows cols m [] = []"
| "next_rows cols m (r # rs) = next_row cols m r # next_rows cols (consume m r) rs"

fun outcomes :: "(string \<times> segment) list \<Rightarrow> row list \<Rightarrow> outcome list" where
  "outcomes m [] = []"
| "outcomes m (r # rs) = classify m r # outcomes (consume m r) rs"

definition tally :: "outcome list \<Rightarrow> sync_stats \<Rightarrow> sync_stats" where
  "tally os st =
     \<lparr>added = added st,
      updated = updated st + count_list os Updated,
      unchanged = unchanged st + count_list os Unchanged,
      deactivated = deactivated st + count_list os Deactivated\<rparr>"

text \<open>The row written for a record that is not in the document.\<close>

definition deactivated_row :: "row \<Rightarrow> row" where
  "deactivated_row r = r(''active'' \<mapsto> JBool False)"

text \<open>
  The rewriting version, entry by entry of the index of segments: what the entry writes,
  and how it is counted.
\<close>

definition rewritten_row :: "string list \<Rightarrow> (jsval \<times> row) list \<Rightarrow> string \<times> segment \<Rightarrow> row" where
  "rewritten_row cols sheetMap e =
     (case map_of sheetMap (JStr (fst e)) of
        None \<Rightarrow> newRow cols (snd e)
      | Some existingRow \<Rightarrow>
          if cell existingRow ''English'' \<noteq> JStr (seg_source (snd e))
          then source_changed_row cols (snd e) existingRow
          else metadata_row (snd e) existingRow)"

definition segment_outcome :: "(jsval \<times> row) list \<Rightarrow> string \<times> segment \<Rightarrow> outcome" where
  "segment_outcome sheetMap e =
     (case map_of sheetMap (JStr (fst e)) of
        None \<Rightarrow> Added
      | Some existingRow \<Rightarrow>
          if cell existingRow ''English'' \<noteq> JStr (seg_source (snd e)) then Updated else Unchanged)"

text \<open>How a row fares when the same document is synchronised once more.\<close>

definition settled :: "outcome \<Rightarrow> outcome" where
  "settled x = (if x = Updated then Unchanged else x)"

text \<open>
  The rows that reach the width check, in the specification's words: live rows whose
  cell for the target language is a string with something other than white space in it.
\<close>

definition is_translated :: "string \<Rightarrow> row \<Rightarrow> bool" where
  "is_translated targetLang row =
     (case member row targetLang of JStr s \<Rightarrow> trim s \<noteq> [] | _ \<Rightarrow> False)"

section \<open>Category derivation\<close>

lemma split_on_not_Nil: "split_on c s \<noteq> []"
  by (induction s) (auto split: list.splits)

lemma hd_split_on: "hd (split_on c s) = takeWhile (\<lambda>x. x \<noteq> c) s"
proof (induction s)
  case Nil
  show ?case by simp
next
  case (Cons x xs)
  then show ?case
    using split_on_not_Nil [of c xs] by (cases "split_on c xs") auto
qed

lemma extractCategory_takeWhile:
  "extractCategory (JStr s) = takeWhile (\<lambda>x. x \<noteq> CHR ''.'') s"
proof (cases "split_on CHR ''.'' s")
  case Nil
  then show ?thesis using split_on_not_Nil by blast
next
  case (Cons p ps)
  then have "p = takeWhile (\<lambda>x. x \<noteq> CHR ''.'') s"
    using hd_split_on [of "CHR ''.''" s] by simp
  with Cons show ?thesis
    by (cases s) (auto simp: extractCategory_def)
qed

text \<open>
  C7 (as the code has it). For every id string the derived category is the text before
  the first dot. For an id with no dot that is the whole id, not the empty string: the
  category is empty only for a non-string or empty id, or an id that starts with a dot.
\<close>

theorem extractCategory_first_token:
  "extractCategory (JStr s) = takeWhile (\<lambda>x. x \<noteq> CHR ''.'') s
   \<and> (CHR ''.'' \<notin> set s \<longrightarrow> extractCategory (JStr s) = s)
   \<and> (extractCategory (JStr s) = [] \<longleftrightarrow> s = [] \<or> hd s = CHR ''.'')"
proof -
  have a: "extractCategory (JStr s) = takeWhile (\<lambda>x. x \<noteq> CHR ''.'') s"
    by (rule extractCategory_takeWhile)
  have b: "CHR ''.'' \<notin> set s \<longrightarrow> takeWhile (\<lambda>x. x \<noteq> CHR ''.'') s = s"
    by (auto simp: takeWhile_eq_all_conv)
  have c: "takeWhile (\<lambda>x. x \<noteq> CHR ''.'') s = [] \<longleftrightarrow> s = [] \<or> hd s = CHR ''.''"
    by (cases s) auto
  from a b c show ?thesis by simp
qed

theorem extractCategory_first_token_witness:
  "CHR ''.'' \<notin> set ''NoDotHere''
   \<and> extractCategory (JStr ''NoDotHere'') = ''NoDotHere''
   \<and> extractCategory (JStr ''PicklistValue.Contact.Type.Owner'') = ''PicklistValue''"
  using extractCategory_first_token [of "''NoDotHere''"]
    extractCategory_first_token [of "''PicklistValue.Contact.Type.Owner''"]
  by simp

text \<open>
  C7 as the claim words it fails: \<open>NoDotHere\<close> has no dot and its category is
  \<open>NoDotHere\<close>.
\<close>

theorem extractCategory_no_dot_counterexample:
  "CHR ''.'' \<notin> set ''NoDotHere'' \<and> extractCategory (JStr ''NoDotHere'') \<noteq> []"
  by (simp add: extractCategory_def)

section \<open>Available languages\<close>

lemma distinct_LANGUAGES: "distinct (Object_keys LANGUAGES)"
  by (simp add: Object_keys_def LANGUAGES_def)

text \<open>
  C9. With a header array, the result holds exactly the configured names that occur among
  the headers, each once, in the order of the configuration.
\<close>

theorem getAvailableLanguages_intersection:
  "set (getAvailableLanguages (Some hs)) = set (Object_keys LANGUAGES) \<inter> set hs
   \<and> subseq (getAvailableLanguages (Some hs)) (Object_keys LANGUAGES)
   \<and> distinct (getAvailableLanguages (Some hs))
   \<and> getAvailableLanguages (Some [''German'', ''id'', ''French'', ''english''])
       = [''French'', ''German'']"
proof -
  have "set (getAvailableLanguages (Some hs)) = set (Object_keys LANGUAGES) \<inter> set hs"
    by (auto simp: getAvailableLanguages_def)
  moreover have "subseq (getAvailableLanguages (Some hs)) (Object_keys LANGUAGES)"
    by (simp add: getAvailableLanguages_def)
  moreover have "distinct (getAvailableLanguages (Some hs))"
    using distinct_LANGUAGES by (simp add: getAvailableLanguages_def)
  moreover have "getAvailableLanguages (Some [''German'', ''id'', ''French'', ''english''])
       = [''French'', ''German'']"
    by (simp add: getAvailableLanguages_def Object_keys_def LANGUAGES_def)
  ultimately show ?thesis by blast
qed

text \<open>
  C10. Without a header array the result is every configured name, all 28 of them, and
  that is what getLanguages returns when reading the headers throws.
\<close>

theorem getAvailableLanguages_fallback:
  "getAvailableLanguages None = Object_keys LANGUAGES
   \<and> length (getAvailableLanguages None) = 28
   \<and> getLanguages (Inl e) = Object_keys LANGUAGES
   \<and> getAvailableLanguages (Some []) = []"
  by (simp add: getAvailableLanguages_def getLanguages_def Object_keys_def LANGUAGES_def)

section \<open>The liveness filter of the export\<close>

lemma isActive_iff:
  "isActive row \<longleftrightarrow>
     truthy (cell row ''active'')
     \<and> cell row ''active'' \<notin> {JStr ''false'', JStr ''FALSE'', JStr ''0''}"
  by (cases "cell row ''active''") (auto simp: isActive_def Let_def)

text \<open>
  C6 (as the code has it). A row is live exactly when its \<open>active\<close> cell is truthy and
  is none of the strings \<open>false\<close>, \<open>FALSE\<close>, \<open>0\<close>. The falsy values (\<open>undefined\<close>,
  \<open>null\<close>, \<open>false\<close>, NaN, 0 and the empty string) are all not live.
\<close>

theorem isActive_lenient:
  "(isActive row \<longleftrightarrow>
      truthy (cell row ''active'')
      \<and> cell row ''active'' \<notin> {JStr ''false'', JStr ''FALSE'', JStr ''0''})
   \<and> (isActive row \<longleftrightarrow>
      cell row ''active'' \<notin> {JUndefined, JNull, JBool False, JNum NaN, JNum (Fin 0), JStr [],
                              JStr ''false'', JStr ''FALSE'', JStr ''0''})"
proof -
  have "truthy v \<longleftrightarrow> v \<notin> {JUndefined, JNull, JBool False, JNum NaN, JNum (Fin 0), JStr []}" for v
    by (cases v) auto
  then show ?thesis
    unfolding isActive_iff by auto
qed

theorem isActive_lenient_witness:
  "isActive [''active'' \<mapsto> JBool True] \<and> isActive [''active'' \<mapsto> JStr ''TRUE'']
   \<and> isActive [''active'' \<mapsto> JStr ''2024-01-01'']
   \<and> \<not> isActive [''active'' \<mapsto> JBool False] \<and> \<not> isActive [''active'' \<mapsto> JStr ''false'']
   \<and> \<not> isActive [''active'' \<mapsto> JStr ''FALSE''] \<and> \<not> isActive [''active'' \<mapsto> JStr ''0'']
   \<and> \<not> isActive [''active'' \<mapsto> JStr []] \<and> \<not> isActive Map.empty"
  using isActive_lenient [of "[''active'' \<mapsto> JBool True]"]
    isActive_lenient [of "[''active'' \<mapsto> JStr ''TRUE'']"]
    isActive_lenient [of "[''active'' \<mapsto> JStr ''2024-01-01'']"]
    isActive_lenient [of "[''active'' \<mapsto> JBool False]"]
    isActive_lenient [of "[''active'' \<mapsto> JStr ''false'']"]
    isActive_lenient [of "[''active'' \<mapsto> JStr ''FALSE'']"]
    isActive_lenient [of "[''active'' \<mapsto> JStr ''0'']"]
    isActive_lenient [of "[''active'' \<mapsto> JStr []]"]
    isActive_lenient [of "Map.empty"]
  by (simp add: cell_def)

text \<open>
  C6 as the claim words it fails: the empty string is neither the boolean \<open>false\<close> nor
  one of the three strings, and a row whose \<open>active\<close> cell is empty is not live.
\<close>

theorem isActive_empty_string_counterexample:
  "JStr [] \<noteq> JBool False
   \<and> JStr [] \<notin> {JStr ''false'', JStr ''FALSE'', JStr ''0''}
   \<and> \<not> isActive [''active'' \<mapsto> JStr []]"
  by (simp add: isActive_def cell_def)

section \<open>The width check of the export\<close>

lemma inherited_configured:
  "k \<in> set (Object_keys LANGUAGES) \<union> set BASE_COLUMNS \<union> {''active'', ''category''}
   \<Longrightarrow> inherited k = JUndefined"
  by (auto simp: inherited_def Object_prototype_keys_def Object_keys_def LANGUAGES_def
      BASE_COLUMNS_def)

lemma member_cell: "inherited k = JUndefined \<Longrightarrow> member row k = cell row k"
  by (simp add: member_def cell_def split: option.splits)

lemma floor_rat_numeral: "\<lfloor>numeral a / numeral b :: rat\<rfloor> = numeral a div numeral b"
  using floor_divide_of_int_eq [of "numeral a" "numeral b", where ?'a = rat] by simp

lemma ceiling_rat_numeral:
  "\<lceil>numeral a / numeral b :: rat\<rceil> = - (- numeral a div numeral b)"
  using ceiling_divide_eq_div [of "numeral a" "numeral b", where ?'a = rat] by simp

lemma bit_length_numeral: "bit_length (numeral k) = Suc (bit_length (numeral k div 2))"
  by (subst bit_length.simps) simp

lemma bit_length_0: "bit_length 0 = 0"
  by (simp add: bit_length.simps)

lemma bit_length_1: "bit_length 1 = 1" "bit_length (Suc 0) = 1"
  by (simp_all add: bit_length.simps)

lemmas Number_simps =
  StringToNumber_def trim_def is_space_def radix_literal_def radix_of_prefix_def
  unsigned_decimal_def is_digit_def digits_value_def radix_digit_def is_radix_digit_def
  exponent_part_def
  scale10_def binary64_def floor_log2_def round_half_even_def pow2_def Let_def
  floor_rat_numeral ceiling_rat_numeral bit_length_numeral bit_length_0 bit_length_1

lemma StringToNumber_5: "StringToNumber ''5'' = Fin 5"
  by (simp add: Number_simps)

lemma StringToNumber_0: "StringToNumber ''0'' = Fin 0"
  by (simp add: Number_simps)

text \<open>
  The conversion rounds: \<open>4.99999999999999999999\<close> is the number 5, which a
  translation of five characters does not exceed, and \<open>9007199254740993\<close>, which is
  \<open>2 ^ 53 + 1\<close>, is \<open>2 ^ 53\<close>.
\<close>

lemma StringToNumber_rounds:
  "StringToNumber ''4.99999999999999999999'' = Fin 5"
  "StringToNumber ''9007199254740993'' = Fin 9007199254740992"
  "StringToNumber ''0x20000000000003'' = Fin 9007199254740996"
  "StringToNumber ''0.1'' = Fin (3602879701896397 / 36028797018963968)"
  by (simp_all add: Number_simps)

lemma exceeds_maxwidth_rounded:
  "\<not> exceeds_maxwidth ''Spanish''
        [''maxwidth'' \<mapsto> JStr ''4.99999999999999999999'', ''Spanish'' \<mapsto> JStr ''Holaa'']
   \<and> exceeds_maxwidth ''Spanish''
        [''maxwidth'' \<mapsto> JStr ''4.99999999999999999999'', ''Spanish'' \<mapsto> JStr ''Holaaa'']"
  by (simp add: exceeds_maxwidth_def cell_def member_def StringToNumber_rounds)

lemma filterE_total:
  "list_all (\<lambda>x. \<exists>b. p x = Inr b) xs \<Longrightarrow> filterE p xs = Inr (filter (\<lambda>x. p x = Inr True) xs)"
  by (induction xs) auto

lemma skip_violations_eq:
  "skip_violations targetLang rows errs =
     (filter (\<lambda>r. \<not> exceeds_maxwidth targetLang r) rows,
      errs @ map (violation_of targetLang) (filter (exceeds_maxwidth targetLang) rows))"
  by (induction rows arbitrary: errs) auto

lemma has_translation_Inr:
  "\<not> truthy (member row targetLang) \<or> is_string (member row targetLang) \<Longrightarrow>
   has_translation targetLang row = Inr (is_translated targetLang row)"
  by (cases "member row targetLang") (auto simp: has_translation_def is_translated_def trim_def)

lemma exceeds_maxwidth_iff:
  "exceeds_maxwidth targetLang row \<longleftrightarrow>
     truthy (cell row ''maxwidth'') \<and> Number_js (cell row ''maxwidth'') \<noteq> NaN
     \<and> (\<exists>t. member row targetLang = JStr t
            \<and> length_gt (length t) (Number_js (cell row ''maxwidth'')))"
  by (cases "member row targetLang") (auto simp: exceeds_maxwidth_def)

lemma map_of_LANGUAGES_nonempty: "map_of LANGUAGES l = Some c \<Longrightarrow> c \<noteq> []"
  by (auto simp: LANGUAGES_def split: if_splits)

lemma exportXLF_closed_form:
  assumes code: "map_of LANGUAGES targetLang = Some code"
    and cells: "list_all (\<lambda>row. isActive row \<longrightarrow>
                   \<not> truthy (member row targetLang) \<or> is_string (member row targetLang)) sheetData"
  shows "exportXLF buildObject targetLang sheetData =
           (case buildObject
                   (innerXliffStructure (JStr code)
                      (map (unit_of targetLang)
                         (filter (\<lambda>r. \<not> exceeds_maxwidth targetLang r)
                            (filter (is_translated targetLang) (filter isActive sheetData))))) of
              Inl e \<Rightarrow> Inl (FailedToExportXLF e)
            | Inr xmlString \<Rightarrow>
                Inr \<lparr>xlf = xmlString,
                     maxwidthErrors = map (violation_of targetLang)
                       (filter (exceeds_maxwidth targetLang)
                          (filter (is_translated targetLang) (filter isActive sheetData)))\<rparr>)"
proof -
  from code have ne: "code \<noteq> []" by (rule map_of_LANGUAGES_nonempty)
  let ?act = "filter isActive sheetData"
  have all: "list_all (\<lambda>row. \<not> truthy (member row targetLang) \<or> is_string (member row targetLang)) ?act"
    using cells by (auto simp: list_all_iff)
  have "filterE (has_translation targetLang) ?act
          = Inr (filter (\<lambda>x. has_translation targetLang x = Inr True) ?act)"
    by (rule filterE_total) (use all in \<open>auto simp: list_all_iff has_translation_Inr\<close>)
  moreover have "filter (\<lambda>x. has_translation targetLang x = Inr True) ?act
          = filter (is_translated targetLang) ?act"
    by (rule filter_cong) (use all in \<open>auto simp: list_all_iff has_translation_Inr\<close>)
  ultimately have f: "filterE (has_translation targetLang) ?act
          = Inr (filter (is_translated targetLang) ?act)" by simp
  show ?thesis
    by (simp add: exportXLF_def LANGUAGES_at_def code ne f skip_violations_eq split: sum.splits)
qed

text \<open>
  C5 (as the code has it). Take a configured target language and rows whose cell for it,
  when the row is live, is a string or falsy (every cell read from the sheet is a
  string). Among the live rows with a non-blank translation, in sheet order, a row is
  reported once as a violation \<open>{id, value, maxwidth}\<close> and left out of the trans-units
  when its \<open>maxwidth\<close> cell is truthy, converts to a number other than NaN, and the
  translation is longer than that number; every other such row is a trans-unit. The
  number need not be positive: a width of 0 or below is exceeded by every translation.
  The export returns these violations with the XML that the builder makes of these
  trans-units, and it fails exactly when the builder throws on them: the rows reported as
  violations are not among what the builder gets, and so are never what makes the export
  fail.
\<close>

theorem exportXLF_maxwidth_exclusion:
  assumes "targetLang \<in> set (Object_keys LANGUAGES)"
    and "list_all (\<lambda>row. isActive row \<longrightarrow>
            \<not> truthy (member row targetLang) \<or> is_string (member row targetLang)) sheetData"
  shows "(\<exists>code. map_of LANGUAGES targetLang = Some code
           \<and> exportXLF buildObject targetLang sheetData =
               (case buildObject
                       (innerXliffStructure (JStr code)
                          (map (unit_of targetLang)
                             (filter (\<lambda>r. \<not> exceeds_maxwidth targetLang r)
                                (filter (is_translated targetLang)
                                   (filter isActive sheetData))))) of
                  Inl e \<Rightarrow> Inl (FailedToExportXLF e)
                | Inr xmlString \<Rightarrow>
                    Inr \<lparr>xlf = xmlString,
                         maxwidthErrors = map (violation_of targetLang)
                           (filter (exceeds_maxwidth targetLang)
                              (filter (is_translated targetLang)
                                 (filter isActive sheetData)))\<rparr>))
         \<and> (\<forall>row. exceeds_maxwidth targetLang row \<longleftrightarrow>
               truthy (cell row ''maxwidth'') \<and> Number_js (cell row ''maxwidth'') \<noteq> NaN
               \<and> (\<exists>t. member row targetLang = JStr t
                      \<and> length_gt (length t) (Number_js (cell row ''maxwidth''))))"
proof -
  from assms(1) obtain code where code: "map_of LANGUAGES targetLang = Some code"
    unfolding Object_keys_def by (metis domD dom_map_of_conv_image_fst set_map)
  show ?thesis
  proof (intro conjI allI)
    show "\<exists>code. map_of LANGUAGES targetLang = Some code
           \<and> exportXLF buildObject targetLang sheetData =
               (case buildObject
                       (innerXliffStructure (JStr code)
                          (map (unit_of targetLang)
                             (filter (\<lambda>r. \<not> exceeds_maxwidth targetLang r)
                                (filter (is_translated targetLang)
                                   (filter isActive sheetData))))) of
                  Inl e \<Rightarrow> Inl (FailedToExportXLF e)
                | Inr xmlString \<Rightarrow>
                    Inr \<lparr>xlf = xmlString,
                         maxwidthErrors = map (violation_of targetLang)
                           (filter (exceeds_maxwidth targetLang)
                              (filter (is_translated targetLang)
                                 (filter isActive sheetData)))\<rparr>)"
      by (rule exI [of _ code], rule conjI, rule code, rule exportXLF_closed_form [OF code assms(2)])
  next
    fix row
    show "exceeds_maxwidth targetLang row \<longleftrightarrow>
               truthy (cell row ''maxwidth'') \<and> Number_js (cell row ''maxwidth'') \<noteq> NaN
               \<and> (\<exists>t. member row targetLang = JStr t
                      \<and> length_gt (length t) (Number_js (cell row ''maxwidth'')))"
      by (rule exceeds_maxwidth_iff)
  qed
qed

theorem exportXLF_maxwidth_exclusion_witness:
  "\<forall>buildObject. exportXLF buildObject ''Spanish''
       [[''id'' \<mapsto> JStr ''Label.A'', ''active'' \<mapsto> JStr ''TRUE'', ''maxwidth'' \<mapsto> JStr ''5'',
         ''English'' \<mapsto> JStr ''Hello World'', ''Spanish'' \<mapsto> JStr ''Hola Mundo''],
        [''id'' \<mapsto> JStr ''Label.B'', ''active'' \<mapsto> JStr ''TRUE'', ''maxwidth'' \<mapsto> JStr [],
         ''English'' \<mapsto> JStr ''Hello'', ''Spanish'' \<mapsto> JStr ''Hola'']]
     = (case buildObject
               (innerXliffStructure (JStr ''es'')
                  [\<lparr>tu_id = JStr ''Label.B'', tu_maxwidth = JStr [], tu_size_unit = JStr [],
                     tu_source = JStr ''Hello'', tu_target = JStr ''Hola''\<rparr>]) of
          Inl e \<Rightarrow> Inl (FailedToExportXLF e)
        | Inr xmlString \<Rightarrow>
            Inr \<lparr>xlf = xmlString,
                 maxwidthErrors =
                   [\<lparr>err_id = JStr ''Label.A'', err_value = JStr ''Hola Mundo'',
                      err_maxwidth = JStr ''5''\<rparr>]\<rparr>)"
proof
  fix buildObject :: "xliff_structure \<Rightarrow> error + string"
  let ?a = "[''id'' \<mapsto> JStr ''Label.A'', ''active'' \<mapsto> JStr ''TRUE'', ''maxwidth'' \<mapsto> JStr ''5'',
         ''English'' \<mapsto> JStr ''Hello World'', ''Spanish'' \<mapsto> JStr ''Hola Mundo'']"
  let ?b = "[''id'' \<mapsto> JStr ''Label.B'', ''active'' \<mapsto> JStr ''TRUE'', ''maxwidth'' \<mapsto> JStr [],
         ''English'' \<mapsto> JStr ''Hello'', ''Spanish'' \<mapsto> JStr ''Hola'']"
  have l: "''Spanish'' \<in> set (Object_keys LANGUAGES)"
    by (simp add: Object_keys_def LANGUAGES_def)
  have c: "list_all (\<lambda>row. isActive row \<longrightarrow>
            \<not> truthy (member row ''Spanish'') \<or> is_string (member row ''Spanish'')) [?a, ?b]"
    by (simp add: member_def)
  have m: "map_of LANGUAGES ''Spanish'' = Some ''es''"
    by (simp add: LANGUAGES_def)
  have act: "isActive ?a" "isActive ?b" by (simp_all add: isActive_def cell_def)
  have tr: "is_translated ''Spanish'' ?a" "is_translated ''Spanish'' ?b"
    by (simp_all add: is_translated_def member_def trim_def is_space_def)
  have ex: "exceeds_maxwidth ''Spanish'' ?a" "\<not> exceeds_maxwidth ''Spanish'' ?b"
    by (simp_all add: exceeds_maxwidth_def cell_def member_def StringToNumber_5)
  show "exportXLF buildObject ''Spanish'' [?a, ?b]
     = (case buildObject
               (innerXliffStructure (JStr ''es'')
                  [\<lparr>tu_id = JStr ''Label.B'', tu_maxwidth = JStr [], tu_size_unit = JStr [],
                     tu_source = JStr ''Hello'', tu_target = JStr ''Hola''\<rparr>]) of
          Inl e \<Rightarrow> Inl (FailedToExportXLF e)
        | Inr xmlString \<Rightarrow>
            Inr \<lparr>xlf = xmlString,
                 maxwidthErrors =
                   [\<lparr>err_id = JStr ''Label.A'', err_value = JStr ''Hola Mundo'',
                      err_maxwidth = JStr ''5''\<rparr>]\<rparr>)"
    using exportXLF_maxwidth_exclusion [OF l c, of buildObject] m act tr ex
    by (simp add: unit_of_def violation_of_def cell_def member_def js_or_def split: sum.splits)
qed

text \<open>
  C5 as the claim words it fails: a live row with the translation \<open>Hola\<close> and the width
  \<open>0\<close>, which is no positive number, is not among the trans-units that the builder
  gets; it is reported as a violation.
\<close>

theorem exportXLF_zero_width_counterexample:
  "\<forall>buildObject.
     isActive [''id'' \<mapsto> JStr ''Label.A'', ''active'' \<mapsto> JStr ''TRUE'', ''maxwidth'' \<mapsto> JStr ''0'',
               ''English'' \<mapsto> JStr ''Hello'', ''Spanish'' \<mapsto> JStr ''Hola'']
     \<and> is_translated ''Spanish'' [''id'' \<mapsto> JStr ''Label.A'', ''active'' \<mapsto> JStr ''TRUE'',
               ''maxwidth'' \<mapsto> JStr ''0'', ''English'' \<mapsto> JStr ''Hello'', ''Spanish'' \<mapsto> JStr ''Hola'']
     \<and> Number_js (JStr ''0'') = Fin 0
     \<and> exportXLF buildObject ''Spanish''
         [[''id'' \<mapsto> JStr ''Label.A'', ''active'' \<mapsto> JStr ''TRUE'', ''maxwidth'' \<mapsto> JStr ''0'',
           ''English'' \<mapsto> JStr ''Hello'', ''Spanish'' \<mapsto> JStr ''Hola'']]
       = (case buildObject (innerXliffStructure (JStr ''es'') []) of
            Inl e \<Rightarrow> Inl (FailedToExportXLF e)
          | Inr xmlString \<Rightarrow>
              Inr \<lparr>xlf = xmlString,
                   maxwidthErrors = [\<lparr>err_id = JStr ''Label.A'', err_value = JStr ''Hola'',
                                       err_maxwidth = JStr ''0''\<rparr>]\<rparr>)"
  by (simp add: exportXLF_def LANGUAGES_at_def LANGUAGES_def isActive_def cell_def member_def
      has_translation_def is_translated_def
      trim_def is_space_def exceeds_maxwidth_def StringToNumber_0 violation_of_def)

text \<open>
  A translation with a character that the builder refuses makes the export fail, with
  no violation at all.
\<close>

lemma exportXLF_builder_throws:
  assumes "buildObject
             (innerXliffStructure (JStr ''es'')
                [\<lparr>tu_id = JStr ''Label.A'', tu_maxwidth = JStr [], tu_size_unit = JStr [],
                   tu_source = JStr ''Hello'',
                   tu_target = JStr [CHR ''H'', CHR ''o'', CHR 0x0B, CHR ''l'', CHR ''a'']\<rparr>])
           = Inl XmlBuildError"
  shows "exportXLF buildObject ''Spanish''
           [[''id'' \<mapsto> JStr ''Label.A'', ''active'' \<mapsto> JStr ''TRUE'', ''maxwidth'' \<mapsto> JStr [],
             ''English'' \<mapsto> JStr ''Hello'',
             ''Spanish'' \<mapsto> JStr [CHR ''H'', CHR ''o'', CHR 0x0B, CHR ''l'', CHR ''a'']]]
         = Inl (FailedToExportXLF XmlBuildError)"
  using assms
  by (simp add: exportXLF_def LANGUAGES_at_def LANGUAGES_def isActive_def cell_def member_def
      has_translation_def trim_def is_space_def exceeds_maxwidth_def unit_of_def js_or_def)

text \<open>
  A target language that names a member of \<open>Object.prototype\<close> passes the test of the
  language code, and the inherited member of a live row has no \<open>trim\<close>.
\<close>

lemma exportXLF_inherited_language:
  "exportXLF buildObject ''constructor'' [[''id'' \<mapsto> JStr ''Label.A'', ''active'' \<mapsto> JStr ''TRUE'']]
     = Inl (FailedToExportXLF TypeError)
   \<and> exportXLF buildObject ''Klingon'' sheetData
     = Inl (FailedToExportXLF (UnknownTargetLanguage ''Klingon''))"
  by (simp add: exportXLF_def LANGUAGES_at_def LANGUAGES_def inherited_def
      Object_prototype_keys_def isActive_def cell_def member_def has_translation_def)

section \<open>The loop over the sheet rows\<close>

lemma cell_upd: "cell (r(k \<mapsto> v)) k' = (if k' = k then v else cell r k')"
  by (simp add: cell_def)

lemma upd_same: "cell r k = v \<Longrightarrow> v \<noteq> JUndefined \<Longrightarrow> r(k \<mapsto> v) = r"
  by (auto simp: cell_def fun_eq_iff split: option.splits)

lemma metadata_row_same:
  "cell r ''maxwidth'' = JStr (seg_maxwidth seg) \<Longrightarrow> cell r ''size-unit'' = JStr (seg_sizeUnit seg) \<Longrightarrow>
   cell r ''active'' = JBool True \<Longrightarrow> metadata_row seg r = r"
  by (simp add: metadata_row_def upd_same)

lemma Map_delete_absent: "map_of m k = None \<Longrightarrow> Map_delete k m = m"
  by (induction m) (auto simp: Map_delete_def split: if_splits)

lemma tally_Nil: "tally [] st = st"
  by (simp add: tally_def)

lemma tally_Cons: "tally (x # os) st = tally os (tally [x] st)"
  by (simp add: tally_def)

lemma sync_row_eq:
  assumes "id_ok r"
  shows "\<exists>u. sync_row cols i r st =
            Inr \<lparr>xlfMap = consume (xlfMap st) r, rowsToUpdate = rowsToUpdate st @ u,
                 stats = tally [classify (xlfMap st) r] (stats st)\<rparr>
           \<and> (u = [] \<and> next_row cols (xlfMap st) r = r \<or> u = [(i + 2, next_row cols (xlfMap st) r)])"
proof (cases "row_key r")
  case None
  then have "sync_row cols i r st = Inr st"
    using assms by (cases "cell r ''id''") (auto simp: sync_row_def row_key_def id_ok_def split: if_splits)
  moreover have "consume (xlfMap st) r = xlfMap st" "classify (xlfMap st) r = Skipped"
    "next_row cols (xlfMap st) r = r"
    using None by (simp_all add: consume_def classify_def next_row_def)
  ultimately show ?thesis by (intro exI[of _ "[]"]) (simp add: tally_def)
next
  case (Some k)
  then have id: "cell r ''id'' = JStr k" "trim k \<noteq> []" "k \<noteq> []"
    by (cases "cell r ''id''"; auto simp: row_key_def trim_def split: if_splits)+
  show ?thesis
  proof (cases "map_of (xlfMap st) k")
    case None
    show ?thesis
    proof (cases "cell r ''active'' = JBool False")
      case True
      then have same: "r(''active'' \<mapsto> JBool False) = r" by (simp add: upd_same)
      show ?thesis
        by (rule exI[of _ "[]"]) (use same True None Some id in \<open>simp add: sync_row_def consume_def classify_def next_row_def tally_def Map_delete_absent\<close>)
    next
      case False
      show ?thesis
        by (rule exI[of _ "[(i + 2, next_row cols (xlfMap st) r)]"])
          (use False None Some id in \<open>simp add: sync_row_def consume_def classify_def next_row_def tally_def Map_delete_absent\<close>)
    qed
  next
    case seg: (Some seg)
    show ?thesis
    proof (cases "cell r ''English'' = JStr (seg_source seg)")
      case False
      show ?thesis
        by (rule exI[of _ "[(i + 2, next_row cols (xlfMap st) r)]"]) (use False seg Some id in \<open>simp add: sync_row_def consume_def classify_def next_row_def tally_def\<close>)
    next
      case True
      show ?thesis
      proof (cases "cell r ''active'' \<noteq> JBool True
                             \<or> cell r ''maxwidth'' \<noteq> JStr (seg_maxwidth seg)
                             \<or> cell r ''size-unit'' \<noteq> JStr (seg_sizeUnit seg)")
        case needs: True
        show ?thesis
        by (rule exI[of _ "[(i + 2, next_row cols (xlfMap st) r)]"]) (use needs True seg Some id in \<open>simp add: sync_row_def consume_def classify_def next_row_def tally_def\<close>)
      next
        case False
        then have same: "metadata_row seg r = r" by (simp add: metadata_row_same)
        show ?thesis
        by (rule exI[of _ "[]"]) (use same False True seg Some id in \<open>simp add: sync_row_def consume_def classify_def next_row_def tally_def\<close>)
      qed
    qed
  qed
qed


lemma sync_row_not_ok: "\<not> id_ok r \<Longrightarrow> sync_row cols i r st = Inl TypeError"
  by (cases "cell r ''id''") (auto simp: sync_row_def id_ok_def)

lemma updateRows_Nil: "updateRows [] d = d"
  by (simp add: updateRows_def)

lemma updateRows_append: "updateRows (u @ us) d = updateRows us (updateRows u d)"
  by (simp add: updateRows_def)

lemma updateRows_single: "updateRows [(Suc (Suc (length pre)), r')] (pre @ r # rs) = pre @ r' # rs"
  by (simp add: updateRows_def list_update_append)

lemma sync_rows_eq:
  "list_all id_ok rs \<Longrightarrow>
   \<exists>us. sync_rows cols i rs st =
           Inr \<lparr>xlfMap = foldl consume (xlfMap st) rs, rowsToUpdate = rowsToUpdate st @ us,
                stats = tally (outcomes (xlfMap st) rs) (stats st)\<rparr>
        \<and> (\<forall>pre. length pre = i \<longrightarrow> updateRows us (pre @ rs) = pre @ next_rows cols (xlfMap st) rs)"
proof (induction rs arbitrary: i st)
  case Nil
  show ?case
    by (rule exI[of _ "[]"]) (simp add: tally_Nil updateRows_Nil)
next
  case (Cons r rs)
  then have ok: "id_ok r" and oks: "list_all id_ok rs" by simp_all
  let ?st1 = "\<lambda>u. \<lparr>xlfMap = consume (xlfMap st) r, rowsToUpdate = rowsToUpdate st @ u,
                 stats = tally [classify (xlfMap st) r] (stats st)\<rparr>"
  from sync_row_eq [OF ok, of cols i st] obtain u where
    row: "sync_row cols i r st = Inr (?st1 u)"
    and u: "u = [] \<and> next_row cols (xlfMap st) r = r \<or> u = [(i + 2, next_row cols (xlfMap st) r)]"
    by blast
  from Cons.IH [OF oks, of "Suc i" "?st1 u"] obtain us where
    rest: "sync_rows cols (Suc i) rs (?st1 u) =
             Inr \<lparr>xlfMap = foldl consume (consume (xlfMap st) r) rs,
                  rowsToUpdate = (rowsToUpdate st @ u) @ us,
                  stats = tally (outcomes (consume (xlfMap st) r) rs)
                            (tally [classify (xlfMap st) r] (stats st))\<rparr>"
    and upd: "\<forall>pre. length pre = Suc i \<longrightarrow>
                updateRows us (pre @ rs) = pre @ next_rows cols (consume (xlfMap st) r) rs"
    by auto
  have one: "updateRows u (pre @ r # rs) = pre @ next_row cols (xlfMap st) r # rs"
    if "length pre = i" for pre
    using u that by (auto simp: updateRows_Nil updateRows_single)
  have all: "updateRows (u @ us) (pre @ r # rs) = pre @ next_rows cols (xlfMap st) (r # rs)"
    if "length pre = i" for pre
  proof -
    have "updateRows (u @ us) (pre @ r # rs) = updateRows us ((pre @ [next_row cols (xlfMap st) r]) @ rs)"
      using one [OF that] by (simp add: updateRows_append)
    also have "\<dots> = (pre @ [next_row cols (xlfMap st) r]) @ next_rows cols (consume (xlfMap st) r) rs"
      using upd [rule_format, of "pre @ [next_row cols (xlfMap st) r]"] that by simp
    finally show ?thesis by simp
  qed
  have t: "tally (outcomes (consume (xlfMap st) r) rs) (tally [classify (xlfMap st) r] (stats st))
             = tally (outcomes (xlfMap st) (r # rs)) (stats st)"
    by (simp add: tally_def)
  show ?case
    by (rule exI[of _ "u @ us"]) (use row rest all t in \<open>simp\<close>)
qed

lemma sync_rows_not_ok:
  "\<not> list_all id_ok rs \<Longrightarrow> sync_rows cols i rs st = Inl TypeError"
proof (induction rs arbitrary: i st)
  case Nil
  then show ?case by simp
next
  case (Cons r rs)
  show ?case
  proof (cases "id_ok r")
    case False
    then show ?thesis by (simp add: sync_row_not_ok)
  next
    case True
    with Cons.prems have "\<not> list_all id_ok rs" by simp
    from Cons.IH [OF this] sync_row_eq [OF True, of cols i st] show ?thesis
      by auto
  qed
qed

lemma syncXLFtoSheet_eq:
  assumes "list_all id_ok sheetData"
  shows "syncXLFtoSheet segs sheetData sheetHeaders =
     Inr (next_rows (language_columns sheetHeaders) (index_segments segs) sheetData
            @ map (\<lambda>e. newRow (language_columns sheetHeaders) (snd e))
                (foldl consume (index_segments segs) sheetData),
          \<lparr>added = length (foldl consume (index_segments segs) sheetData),
           updated = count_list (outcomes (index_segments segs) sheetData) Updated,
           unchanged = count_list (outcomes (index_segments segs) sheetData) Unchanged,
           deactivated = count_list (outcomes (index_segments segs) sheetData) Deactivated\<rparr>)"
proof -
  let ?st0 = "\<lparr>xlfMap = index_segments segs, rowsToUpdate = [],
              stats = \<lparr>added = 0, updated = 0, unchanged = 0, deactivated = 0\<rparr>\<rparr>"
  from sync_rows_eq [OF assms, of "language_columns sheetHeaders" 0 ?st0]
  obtain us where
    run: "sync_rows (language_columns sheetHeaders) 0 sheetData ?st0 =
            Inr \<lparr>xlfMap = foldl consume (index_segments segs) sheetData, rowsToUpdate = us,
                 stats = tally (outcomes (index_segments segs) sheetData)
                           \<lparr>added = 0, updated = 0, unchanged = 0, deactivated = 0\<rparr>\<rparr>"
    and upd: "updateRows us sheetData =
                next_rows (language_columns sheetHeaders) (index_segments segs) sheetData"
    by auto
  show ?thesis
    by (simp add: syncXLFtoSheet_def Let_def run upd appendRows_def tally_def)
qed

lemma syncXLFtoSheet_TypeError:
  "\<not> list_all id_ok sheetData \<Longrightarrow> syncXLFtoSheet segs sheetData sheetHeaders = Inl TypeError"
  by (simp add: syncXLFtoSheet_def sync_rows_not_ok)

section \<open>The index of the segments and the rows one after the other\<close>

lemma map_of_Map_delete: "map_of (Map_delete k m) k' = (if k' = k then None else map_of m k')"
  by (induction m) (auto simp: Map_delete_def)

lemma map_of_Map_set: "map_of (Map_set k v m) = (map_of m)(k \<mapsto> v)"
  by (induction m) (auto simp: fun_eq_iff)

lemma keys_Map_set: "fst ` set (Map_set k v m) = insert k (fst ` set m)"
  by (induction m) auto

lemma distinct_Map_set: "distinct (map fst m) \<Longrightarrow> distinct (map fst (Map_set k v m))"
  by (induction m) (auto simp: keys_Map_set)

lemma distinct_Map_delete: "distinct (map fst m) \<Longrightarrow> distinct (map fst (Map_delete k m))"
  by (simp add: Map_delete_def distinct_map_filter)

lemma set_Map_delete: "set (Map_delete k m) = {e \<in> set m. fst e \<noteq> k}"
  by (auto simp: Map_delete_def)

lemma length_Map_delete:
  "distinct (map fst m) \<Longrightarrow> map_of m k = Some v \<Longrightarrow> Suc (length (Map_delete k m)) = length m"
proof (induction m)
  case Nil
  then show ?case by simp
next
  case (Cons e m)
  show ?case
  proof (cases "fst e = k")
    case True
    with Cons.prems have "map_of m k = None"
      by (cases e) (auto simp: map_of_eq_None_iff)
    then have "Map_delete k m = m" by (rule Map_delete_absent)
    with True show ?thesis by (simp add: Map_delete_def)
  next
    case False
    with Cons show ?thesis by (cases e) (auto simp: Map_delete_def)
  qed
qed

text \<open>The index of the segments.\<close>

lemma index_fold_inv:
  "distinct (map fst m) \<Longrightarrow> \<forall>e \<in> set m. seg_id (snd e) = fst e \<Longrightarrow>
   distinct (map fst (foldl (\<lambda>m seg. Map_set (seg_id seg) seg m) m segs))
   \<and> (\<forall>e \<in> set (foldl (\<lambda>m seg. Map_set (seg_id seg) seg m) m segs). seg_id (snd e) = fst e)"
proof (induction segs arbitrary: m)
  case Nil
  then show ?case by simp
next
  case (Cons s segs)
  have "\<forall>e \<in> set (Map_set (seg_id s) s m). seg_id (snd e) = fst e"
    using Cons.prems(2) by (induction m) (auto split: if_splits)
  with Cons.IH [of "Map_set (seg_id s) s m"] Cons.prems(1) show ?case
    by (simp add: distinct_Map_set)
qed

lemma distinct_index_segments: "distinct (map fst (index_segments segs))"
  using index_fold_inv [of "[]" segs] by (simp add: index_segments_def)

lemma index_segments_id: "e \<in> set (index_segments segs) \<Longrightarrow> seg_id (snd e) = fst e"
  using index_fold_inv [of "[]" segs] by (simp add: index_segments_def)

lemma map_of_index_fold:
  "map_of (foldl (\<lambda>m seg. Map_set (seg_id seg) seg m) m segs)
     = foldl (\<lambda>f seg. f(seg_id seg \<mapsto> seg)) (map_of m) segs"
  by (induction segs arbitrary: m) (simp_all add: map_of_Map_set)

lemma fold_upd_dom:
  "dom (foldl (\<lambda>f seg. f(seg_id seg \<mapsto> seg)) f segs) = dom f \<union> seg_id ` set segs"
  by (induction segs arbitrary: f) auto

lemma index_segments_None: "map_of (index_segments segs) k = None \<longleftrightarrow> k \<notin> seg_id ` set segs"
proof -
  have "dom (map_of (index_segments segs)) = seg_id ` set segs"
    by (simp add: index_segments_def map_of_index_fold fold_upd_dom)
  then show ?thesis by (metis domIff)
qed

lemma fold_upd_other:
  "k \<notin> seg_id ` set segs \<Longrightarrow> foldl (\<lambda>f seg. f(seg_id seg \<mapsto> seg)) g segs k = g k"
  by (induction segs arbitrary: g) auto

lemma fold_upd_distinct:
  "distinct (map seg_id segs) \<Longrightarrow> seg \<in> set segs \<Longrightarrow>
   foldl (\<lambda>f seg. f(seg_id seg \<mapsto> seg)) f segs (seg_id seg) = Some seg"
proof (induction segs arbitrary: f)
  case Nil
  then show ?case by simp
next
  case (Cons s segs)
  show ?case
  proof (cases "seg \<in> set segs")
    case True
    with Cons show ?thesis by simp
  next
    case False
    with Cons.prems have eq: "seg = s" and new: "seg_id s \<notin> seg_id ` set segs" by auto
    have "foldl (\<lambda>f seg. f(seg_id seg \<mapsto> seg)) f (s # segs) (seg_id s)
            = foldl (\<lambda>f seg. f(seg_id seg \<mapsto> seg)) (f(seg_id s \<mapsto> s)) segs (seg_id s)"
      by (simp only: foldl_Cons)
    also have "\<dots> = (f(seg_id s \<mapsto> s)) (seg_id s)"
      using new by (rule fold_upd_other)
    also have "\<dots> = Some s"
      by (rule fun_upd_same)
    finally show ?thesis unfolding eq .
  qed
qed

lemma index_segments_distinct_lookup:
  "distinct (map seg_id segs) \<Longrightarrow> seg \<in> set segs \<Longrightarrow>
   map_of (index_segments segs) (seg_id seg) = Some seg"
  by (simp add: index_segments_def map_of_index_fold fold_upd_distinct)

text \<open>The rows one after the other.\<close>

lemma keys_Nil: "keys [] = []"
  by (simp add: keys_def)

lemma keys_Cons: "keys (r # rs) = (case row_key r of None \<Rightarrow> keys rs | Some k \<Rightarrow> k # keys rs)"
  by (simp add: keys_def split: option.splits)

lemma keys_append: "keys (xs @ ys) = keys xs @ keys ys"
  by (simp add: keys_def map_filter_def)

lemma set_keys: "set (keys rs) = {k. \<exists>r \<in> set rs. row_key r = Some k}"
  by (induction rs) (auto simp: keys_Nil keys_Cons split: option.splits)

lemma length_next_rows: "length (next_rows cols m rs) = length rs"
  by (induction rs arbitrary: m) auto

lemma length_outcomes: "length (outcomes m rs) = length rs"
  by (induction rs arbitrary: m) auto

lemma map_of_consume:
  "map_of (consume m r) k = (if row_key r = Some k then None else map_of m k)"
  by (auto simp: consume_def map_of_Map_delete split: option.splits)

lemma map_of_consumed:
  "map_of (foldl consume m rs) k = (if k \<in> set (keys rs) then None else map_of m k)"
  by (induction rs arbitrary: m) (auto simp: keys_Nil keys_Cons map_of_consume split: option.splits)

lemma distinct_consume: "distinct (map fst m) \<Longrightarrow> distinct (map fst (consume m r))"
  by (simp add: consume_def distinct_Map_delete split: option.splits)

lemma distinct_consumed: "distinct (map fst m) \<Longrightarrow> distinct (map fst (foldl consume m rs))"
  by (induction rs arbitrary: m) (simp_all add: distinct_consume)

lemma set_consume: "set (consume m r) \<subseteq> set m"
  by (auto simp: consume_def set_Map_delete split: option.splits)

lemma set_consumed: "set (foldl consume m rs) \<subseteq> set m"
proof (induction rs arbitrary: m)
  case Nil
  show ?case by simp
next
  case (Cons r rs)
  from Cons [of "consume m r"] set_consume [of m r] show ?case by auto
qed

lemma next_row_cong:
  "(\<And>k. row_key r = Some k \<Longrightarrow> map_of m k = map_of m' k) \<Longrightarrow> next_row cols m r = next_row cols m' r"
  by (auto simp: next_row_def split: option.splits)

lemma classify_cong:
  "(\<And>k. row_key r = Some k \<Longrightarrow> map_of m k = map_of m' k) \<Longrightarrow> classify m r = classify m' r"
  by (auto simp: classify_def split: option.splits)

lemma next_rows_append:
  "next_rows cols m (xs @ ys) = next_rows cols m xs @ next_rows cols (foldl consume m xs) ys"
  by (induction xs arbitrary: m) auto

lemma outcomes_append:
  "outcomes m (xs @ ys) = outcomes m xs @ outcomes (foldl consume m xs) ys"
  by (induction xs arbitrary: m) auto

lemma next_rows_nth:
  "i < length rs \<Longrightarrow> next_rows cols m rs ! i = next_row cols (foldl consume m (take i rs)) (rs ! i)"
proof (induction rs arbitrary: m i)
  case Nil
  then show ?case by simp
next
  case (Cons r rs)
  then show ?case by (cases i) auto
qed

lemma outcomes_nth:
  "i < length rs \<Longrightarrow> outcomes m rs ! i = classify (foldl consume m (take i rs)) (rs ! i)"
proof (induction rs arbitrary: m i)
  case Nil
  then show ?case by simp
next
  case (Cons r rs)
  then show ?case by (cases i) auto
qed

lemma next_rows_distinct:
  "distinct (keys rs) \<Longrightarrow> next_rows cols m rs = map (next_row cols m) rs"
proof (induction rs arbitrary: m)
  case Nil
  show ?case by simp
next
  case (Cons r rs)
  from Cons.prems have d: "distinct (keys rs)"
    by (auto simp: keys_Cons split: option.splits)
  have "next_row cols (consume m r) x = next_row cols m x" if "x \<in> set rs" for x
  proof (rule next_row_cong)
    fix k assume k: "row_key x = Some k"
    with that have "k \<in> set (keys rs)" by (auto simp: set_keys)
    with Cons.prems have "row_key r \<noteq> Some k" by (auto simp: keys_Cons)
    then show "map_of (consume m r) k = map_of m k" by (simp add: map_of_consume)
  qed
  with Cons.IH [OF d, of "consume m r"] show ?case by simp
qed

lemma outcomes_distinct:
  "distinct (keys rs) \<Longrightarrow> outcomes m rs = map (classify m) rs"
proof (induction rs arbitrary: m)
  case Nil
  show ?case by simp
next
  case (Cons r rs)
  from Cons.prems have d: "distinct (keys rs)"
    by (auto simp: keys_Cons split: option.splits)
  have "classify (consume m r) x = classify m x" if "x \<in> set rs" for x
  proof (rule classify_cong)
    fix k assume k: "row_key x = Some k"
    with that have "k \<in> set (keys rs)" by (auto simp: set_keys)
    with Cons.prems have "row_key r \<noteq> Some k" by (auto simp: keys_Cons)
    then show "map_of (consume m r) k = map_of m k" by (simp add: map_of_consume)
  qed
  with Cons.IH [OF d, of "consume m r"] show ?case by simp
qed

lemma count_list_filter: "count_list xs y = length (filter (\<lambda>x. x = y) xs)"
  by (induction xs) auto

section \<open>What the synchronisation does to a record\<close>

lemma cell_clear_columns:
  "cell (clear_columns cols r) c = (if c \<in> set cols then JStr [] else cell r c)"
  unfolding clear_columns_def
  by (induction cols arbitrary: r) (auto simp: cell_upd)

lemma base_not_language:
  "''id'' \<notin> set (language_columns hs)" "''English'' \<notin> set (language_columns hs)"
  "''maxwidth'' \<notin> set (language_columns hs)" "''size-unit'' \<notin> set (language_columns hs)"
  "''active'' \<notin> set (language_columns hs)"
  by (simp_all add: language_columns_def BASE_COLUMNS_def)

lemma cell_source_changed_row:
  "cell (source_changed_row (language_columns hs) seg r) c =
     (if c \<in> set (language_columns hs) then JStr []
      else if c = ''English'' then JStr (seg_source seg)
      else if c = ''maxwidth'' then JStr (seg_maxwidth seg)
      else if c = ''size-unit'' then JStr (seg_sizeUnit seg)
      else if c = ''active'' then JBool True
      else cell r c)"
  by (simp add: source_changed_row_def cell_clear_columns cell_upd)

lemma cell_metadata_row:
  "cell (metadata_row seg r) c =
     (if c = ''maxwidth'' then JStr (seg_maxwidth seg)
      else if c = ''size-unit'' then JStr (seg_sizeUnit seg)
      else if c = ''active'' then JBool True
      else cell r c)"
  by (simp add: metadata_row_def cell_upd)

lemma syncXLFtoSheet_distinct:
  assumes "list_all id_ok sheetData" and "distinct (keys sheetData)"
  shows "syncXLFtoSheet segs sheetData sheetHeaders =
     Inr (map (next_row (language_columns sheetHeaders) (index_segments segs)) sheetData
            @ map (\<lambda>e. newRow (language_columns sheetHeaders) (snd e))
                (foldl consume (index_segments segs) sheetData),
          \<lparr>added = length (foldl consume (index_segments segs) sheetData),
           updated = length (filter (\<lambda>r. classify (index_segments segs) r = Updated) sheetData),
           unchanged = length (filter (\<lambda>r. classify (index_segments segs) r = Unchanged) sheetData),
           deactivated = length (filter (\<lambda>r. classify (index_segments segs) r = Deactivated) sheetData)\<rparr>)"
  by (simp add: syncXLFtoSheet_eq [OF assms(1)] next_rows_distinct [OF assms(2)]
      outcomes_distinct [OF assms(2)] count_list_filter filter_map comp_def)

text \<open>
  A record whose source text changed, in the version that updates rows in place: the row
  is rewritten where it stands.
\<close>

lemma sync_source_changed_updateRows:
  assumes "list_all id_ok sheetData" and "distinct (keys sheetData)"
    and "i < length sheetData" and "row_key (sheetData ! i) = Some k"
    and "map_of (index_segments segs) k = Some seg"
    and "cell (sheetData ! i) ''English'' \<noteq> JStr (seg_source seg)"
  shows "\<exists>next st. syncXLFtoSheet segs sheetData sheetHeaders = Inr (next, st)
           \<and> i < length next
           \<and> next ! i = source_changed_row (language_columns sheetHeaders) seg (sheetData ! i)
           \<and> cell (next ! i) ''English'' = JStr (seg_source seg)
           \<and> cell (next ! i) ''maxwidth'' = JStr (seg_maxwidth seg)
           \<and> cell (next ! i) ''size-unit'' = JStr (seg_sizeUnit seg)
           \<and> cell (next ! i) ''active'' = JBool True
           \<and> cell (next ! i) ''id'' = cell (sheetData ! i) ''id''
           \<and> list_all (\<lambda>c. cell (next ! i) c = JStr []) (language_columns sheetHeaders)
           \<and> classify (index_segments segs) (sheetData ! i) = Updated
           \<and> updated st = length (filter (\<lambda>r. classify (index_segments segs) r = Updated) sheetData)
           \<and> 0 < updated st"
proof -
  let ?cols = "language_columns sheetHeaders"
  let ?m = "index_segments segs"
  let ?next = "map (next_row ?cols ?m) sheetData @ map (\<lambda>e. newRow ?cols (snd e)) (foldl consume ?m sheetData)"
  have nr: "next_row ?cols ?m (sheetData ! i) = source_changed_row ?cols seg (sheetData ! i)"
    using assms(4-6) by (simp add: next_row_def)
  have nth: "?next ! i = source_changed_row ?cols seg (sheetData ! i)"
    using assms(3) nr by (simp add: nth_append)
  have cl: "classify ?m (sheetData ! i) = Updated"
    using assms(4-6) by (simp add: classify_def)
  have "sheetData ! i \<in> set (filter (\<lambda>r. classify ?m r = Updated) sheetData)"
    using assms(3) cl by simp
  then have pos: "0 < length (filter (\<lambda>r. classify ?m r = Updated) sheetData)"
    by (metis length_pos_if_in_set)
  let ?st = "\<lparr>added = length (foldl consume ?m sheetData),
           updated = length (filter (\<lambda>r. classify ?m r = Updated) sheetData),
           unchanged = length (filter (\<lambda>r. classify ?m r = Unchanged) sheetData),
           deactivated = length (filter (\<lambda>r. classify ?m r = Deactivated) sheetData)\<rparr>"
  have run: "syncXLFtoSheet segs sheetData sheetHeaders = Inr (?next, ?st)"
    by (rule syncXLFtoSheet_distinct [OF assms(1,2)])
  have len: "i < length ?next" using assms(3) by simp
  have cells: "cell (?next ! i) ''English'' = JStr (seg_source seg)"
    "cell (?next ! i) ''maxwidth'' = JStr (seg_maxwidth seg)"
    "cell (?next ! i) ''size-unit'' = JStr (seg_sizeUnit seg)"
    "cell (?next ! i) ''active'' = JBool True"
    "cell (?next ! i) ''id'' = cell (sheetData ! i) ''id''"
    "list_all (\<lambda>c. cell (?next ! i) c = JStr []) ?cols"
    unfolding nth by (simp_all add: cell_source_changed_row base_not_language list_all_iff)
  have upd: "updated ?st = length (filter (\<lambda>r. classify ?m r = Updated) sheetData)"
    "0 < updated ?st"
    using pos by simp_all
  from run len nth cells cl upd show ?thesis by blast
qed


text \<open>
  A record that is not in the document, in the version that updates rows in place. No
  distinctness is needed for the row itself.
\<close>

lemma sync_soft_delete_updateRows:
  assumes "list_all id_ok sheetData"
  shows "\<exists>next st. syncXLFtoSheet segs sheetData sheetHeaders = Inr (next, st)
           \<and> length sheetData \<le> length next
           \<and> (\<forall>i k. i < length sheetData \<and> row_key (sheetData ! i) = Some k
                    \<and> k \<notin> seg_id ` set segs \<longrightarrow>
                  next ! i = (sheetData ! i)(''active'' \<mapsto> JBool False)
                  \<and> cell (next ! i) ''active'' = JBool False
                  \<and> (\<forall>c. c \<noteq> ''active'' \<longrightarrow> cell (next ! i) c = cell (sheetData ! i) c))
           \<and> (distinct (keys sheetData) \<longrightarrow>
                 deactivated st =
                   length (filter (\<lambda>r. classify (index_segments segs) r = Deactivated) sheetData))
           \<and> (segs = [] \<and> list_all (\<lambda>r. row_key r \<noteq> None) sheetData \<longrightarrow>
                 next = map (\<lambda>r. r(''active'' \<mapsto> JBool False)) sheetData
                 \<and> st = \<lparr>added = 0, updated = 0, unchanged = 0, deactivated = length sheetData\<rparr>)"
proof -
  let ?cols = "language_columns sheetHeaders"
  let ?m = "index_segments segs"
  let ?next = "next_rows ?cols ?m sheetData @ map (\<lambda>e. newRow ?cols (snd e)) (foldl consume ?m sheetData)"
  let ?st = "\<lparr>added = length (foldl consume ?m sheetData),
           updated = count_list (outcomes ?m sheetData) Updated,
           unchanged = count_list (outcomes ?m sheetData) Unchanged,
           deactivated = count_list (outcomes ?m sheetData) Deactivated\<rparr>"
  have run: "syncXLFtoSheet segs sheetData sheetHeaders = Inr (?next, ?st)"
    by (rule syncXLFtoSheet_eq [OF assms])
  have len: "length sheetData \<le> length ?next"
    by (simp add: length_next_rows)
  have row: "?next ! i = (sheetData ! i)(''active'' \<mapsto> JBool False)
                  \<and> cell (?next ! i) ''active'' = JBool False
                  \<and> (\<forall>c. c \<noteq> ''active'' \<longrightarrow> cell (?next ! i) c = cell (sheetData ! i) c)"
    if "i < length sheetData" "row_key (sheetData ! i) = Some k" "k \<notin> seg_id ` set segs" for i k
  proof -
    from that(3) have "map_of ?m k = None" by (simp add: index_segments_None)
    then have "map_of (foldl consume ?m (take i sheetData)) k = None"
      by (simp add: map_of_consumed)
    then have "next_row ?cols (foldl consume ?m (take i sheetData)) (sheetData ! i)
                 = (sheetData ! i)(''active'' \<mapsto> JBool False)"
      using that(2) by (simp add: next_row_def)
    then have "?next ! i = (sheetData ! i)(''active'' \<mapsto> JBool False)"
      using that(1) by (simp add: nth_append length_next_rows next_rows_nth)
    then show ?thesis by (simp add: cell_upd)
  qed
  have cnt: "deactivated ?st = length (filter (\<lambda>r. classify ?m r = Deactivated) sheetData)"
    if "distinct (keys sheetData)"
    by (simp add: outcomes_distinct [OF that] count_list_filter filter_map comp_def)
  have empty: "?next = map (\<lambda>r. r(''active'' \<mapsto> JBool False)) sheetData
                 \<and> ?st = \<lparr>added = 0, updated = 0, unchanged = 0, deactivated = length sheetData\<rparr>"
    if "segs = []" "list_all (\<lambda>r. row_key r \<noteq> None) sheetData"
  proof -
    have m: "?m = []" using that(1) by (simp add: index_segments_def)
    have c: "foldl consume [] rs = []" for rs
      by (induction rs) (simp_all add: consume_def Map_delete_def split: option.splits)
    have n: "next_rows ?cols [] rs = map (\<lambda>r. r(''active'' \<mapsto> JBool False)) rs"
      if "list_all (\<lambda>r. row_key r \<noteq> None) rs" for rs
      using that
      by (induction rs) (auto simp: next_row_def consume_def Map_delete_def split: option.splits)
    have o: "outcomes [] rs = replicate (length rs) Deactivated"
      if "list_all (\<lambda>r. row_key r \<noteq> None) rs" for rs
      using that
      by (induction rs) (auto simp: classify_def consume_def Map_delete_def split: option.splits)
    show ?thesis
      using that(2) by (simp add: m c n o count_list_filter)
  qed
  from run len row cnt empty show ?thesis by blast
qed


text \<open>
  A record whose source text is the segment's, in the version that updates rows in place.
\<close>

lemma sync_metadata_refresh_updateRows:
  assumes "list_all id_ok sheetData" and "distinct (keys sheetData)"
    and "i < length sheetData" and "row_key (sheetData ! i) = Some k"
    and "map_of (index_segments segs) k = Some seg"
    and "cell (sheetData ! i) ''English'' = JStr (seg_source seg)"
  shows "\<exists>next st. syncXLFtoSheet segs sheetData sheetHeaders = Inr (next, st)
           \<and> i < length next
           \<and> next ! i = metadata_row seg (sheetData ! i)
           \<and> cell (next ! i) ''maxwidth'' = JStr (seg_maxwidth seg)
           \<and> cell (next ! i) ''size-unit'' = JStr (seg_sizeUnit seg)
           \<and> cell (next ! i) ''active'' = JBool True
           \<and> (\<forall>c. c \<notin> {''maxwidth'', ''size-unit'', ''active''} \<longrightarrow>
                  cell (next ! i) c = cell (sheetData ! i) c)
           \<and> classify (index_segments segs) (sheetData ! i) = Unchanged
           \<and> unchanged st = length (filter (\<lambda>r. classify (index_segments segs) r = Unchanged) sheetData)
           \<and> 0 < unchanged st
           \<and> updated st = length (filter (\<lambda>r. classify (index_segments segs) r = Updated) sheetData)"
proof -
  let ?cols = "language_columns sheetHeaders"
  let ?m = "index_segments segs"
  let ?next = "map (next_row ?cols ?m) sheetData @ map (\<lambda>e. newRow ?cols (snd e)) (foldl consume ?m sheetData)"
  let ?st = "\<lparr>added = length (foldl consume ?m sheetData),
           updated = length (filter (\<lambda>r. classify ?m r = Updated) sheetData),
           unchanged = length (filter (\<lambda>r. classify ?m r = Unchanged) sheetData),
           deactivated = length (filter (\<lambda>r. classify ?m r = Deactivated) sheetData)\<rparr>"
  have run: "syncXLFtoSheet segs sheetData sheetHeaders = Inr (?next, ?st)"
    by (rule syncXLFtoSheet_distinct [OF assms(1,2)])
  have nr: "next_row ?cols ?m (sheetData ! i) = metadata_row seg (sheetData ! i)"
    using assms(4-6) by (simp add: next_row_def)
  have nth: "?next ! i = metadata_row seg (sheetData ! i)"
    using assms(3) nr by (simp add: nth_append)
  have len: "i < length ?next" using assms(3) by simp
  have cells: "cell (?next ! i) ''maxwidth'' = JStr (seg_maxwidth seg)"
    "cell (?next ! i) ''size-unit'' = JStr (seg_sizeUnit seg)"
    "cell (?next ! i) ''active'' = JBool True"
    "\<forall>c. c \<notin> {''maxwidth'', ''size-unit'', ''active''} \<longrightarrow>
                  cell (?next ! i) c = cell (sheetData ! i) c"
    unfolding nth by (simp_all add: cell_metadata_row)
  have cl: "classify ?m (sheetData ! i) = Unchanged"
    using assms(4-6) by (simp add: classify_def)
  have "sheetData ! i \<in> set (filter (\<lambda>r. classify ?m r = Unchanged) sheetData)"
    using assms(3) cl by simp
  then have pos: "0 < length (filter (\<lambda>r. classify ?m r = Unchanged) sheetData)"
    by (metis length_pos_if_in_set)
  have cnt: "unchanged ?st = length (filter (\<lambda>r. classify ?m r = Unchanged) sheetData)"
    "0 < unchanged ?st"
    "updated ?st = length (filter (\<lambda>r. classify ?m r = Updated) sheetData)"
    using pos by simp_all
  from run len nth cells cl cnt show ?thesis by blast
qed

section \<open>Synchronising the same document once more\<close>

lemma row_key_cong: "cell r' ''id'' = cell r ''id'' \<Longrightarrow> row_key r' = row_key r"
  by (simp add: row_key_def)

lemma cell_next_row_id:
  "cell (next_row (language_columns hs) m r) ''id'' = cell r ''id''"
  by (simp add: next_row_def cell_source_changed_row cell_metadata_row cell_upd base_not_language
      split: option.splits)

lemma row_key_next_row: "row_key (next_row (language_columns hs) m r) = row_key r"
  by (rule row_key_cong) (rule cell_next_row_id)

lemma id_ok_next_row: "id_ok (next_row (language_columns hs) m r) = id_ok r"
  by (simp add: id_ok_def cell_next_row_id)

lemma consume_next_row: "consume m' (next_row (language_columns hs) m r) = consume m' r"
  by (simp add: consume_def row_key_next_row)

lemma source_changed_row_settled:
  "metadata_row seg (source_changed_row (language_columns hs) seg r)
     = source_changed_row (language_columns hs) seg r"
  by (rule metadata_row_same) (simp_all add: cell_source_changed_row base_not_language)

lemma metadata_row_settled: "metadata_row seg (metadata_row seg r) = metadata_row seg r"
  by (rule metadata_row_same) (simp_all add: cell_metadata_row)

lemma next_row_settled:
  "next_row (language_columns hs) m (next_row (language_columns hs) m r)
     = next_row (language_columns hs) m r"
proof (cases "row_key r")
  case None
  then show ?thesis by (simp add: next_row_def)
next
  case (Some k)
  show ?thesis
  proof (cases "map_of m k")
    case None
    with Some have n: "next_row (language_columns hs) m r = r(''active'' \<mapsto> JBool False)"
      by (simp add: next_row_def)
    have "row_key (r(''active'' \<mapsto> JBool False)) = Some k"
      using Some by (simp add: row_key_def cell_upd)
    with None show ?thesis unfolding n by (simp add: next_row_def)
  next
    case seg: (Some seg)
    show ?thesis
    proof (cases "cell r ''English'' = JStr (seg_source seg)")
      case True
      with Some seg have n: "next_row (language_columns hs) m r = metadata_row seg r"
        by (simp add: next_row_def)
      have "row_key (metadata_row seg r) = Some k"
        using Some by (simp add: row_key_def cell_metadata_row)
      with seg True show ?thesis unfolding n
        by (simp add: next_row_def cell_metadata_row metadata_row_settled)
    next
      case False
      with Some seg have n: "next_row (language_columns hs) m r
            = source_changed_row (language_columns hs) seg r"
        by (simp add: next_row_def)
      have "row_key (source_changed_row (language_columns hs) seg r) = Some k"
        using Some by (simp add: row_key_def cell_source_changed_row base_not_language)
      with seg show ?thesis unfolding n
        by (simp add: next_row_def cell_source_changed_row base_not_language
            source_changed_row_settled)
    qed
  qed
qed

lemma classify_next_row:
  "classify m (next_row (language_columns hs) m r) = settled (classify m r)"
proof (cases "row_key r")
  case None
  then show ?thesis by (simp add: next_row_def classify_def settled_def)
next
  case (Some k)
  then have k: "row_key (next_row (language_columns hs) m r) = Some k"
    by (simp add: row_key_next_row)
  show ?thesis
  proof (cases "map_of m k")
    case None
    with Some k show ?thesis by (simp add: classify_def settled_def)
  next
    case seg: (Some seg)
    have "cell (next_row (language_columns hs) m r) ''English'' = JStr (seg_source seg)"
      using Some seg
      by (simp add: next_row_def cell_source_changed_row cell_metadata_row base_not_language)
    with Some k seg show ?thesis by (simp add: classify_def settled_def)
  qed
qed

lemma second_pass:
  "next_rows (language_columns hs) m (next_rows (language_columns hs) m rs)
      = next_rows (language_columns hs) m rs
   \<and> outcomes m (next_rows (language_columns hs) m rs) = map settled (outcomes m rs)
   \<and> foldl consume m (next_rows (language_columns hs) m rs) = foldl consume m rs"
  by (induction rs arbitrary: m)
    (simp_all add: next_row_settled classify_next_row consume_next_row)

lemma list_all_id_ok_next_rows:
  "list_all id_ok (next_rows (language_columns hs) m rs) = list_all id_ok rs"
  by (induction rs arbitrary: m) (simp_all add: id_ok_next_row)

text \<open>The rows added for the segments that are left in the index.\<close>

lemma cell_newRow:
  "cell (newRow (language_columns hs) seg) c =
     (if c \<in> set (language_columns hs) then JStr []
      else if c = ''id'' then JStr (seg_id seg)
      else if c = ''category'' then JStr (extractCategory (JStr (seg_id seg)))
      else if c = ''maxwidth'' then JStr (seg_maxwidth seg)
      else if c = ''size-unit'' then JStr (seg_sizeUnit seg)
      else if c = ''English'' then JStr (seg_source seg)
      else if c = ''active'' then JBool True
      else JUndefined)"
  by (simp add: newRow_def cell_clear_columns) (simp add: cell_def)

lemma id_ok_newRow: "id_ok (newRow (language_columns hs) seg)"
  by (simp add: id_ok_def cell_newRow base_not_language)

lemma row_key_newRow:
  "trim (seg_id seg) \<noteq> [] \<Longrightarrow> row_key (newRow (language_columns hs) seg) = Some (seg_id seg)"
  by (simp add: row_key_def cell_newRow base_not_language)

lemma Map_delete_head:
  "fst e \<notin> fst ` set m \<Longrightarrow> Map_delete (fst e) (e # m) = m"
  by (force simp: Map_delete_def filter_id_conv image_iff)

lemma added_rows_pass:
  assumes "distinct (map fst m)"
    and "\<forall>e \<in> set m. seg_id (snd e) = fst e \<and> trim (fst e) \<noteq> []"
  shows "next_rows (language_columns hs) m (map (\<lambda>e. newRow (language_columns hs) (snd e)) m)
           = map (\<lambda>e. newRow (language_columns hs) (snd e)) m
         \<and> outcomes m (map (\<lambda>e. newRow (language_columns hs) (snd e)) m)
           = replicate (length m) Unchanged
         \<and> foldl consume m (map (\<lambda>e. newRow (language_columns hs) (snd e)) m) = []"
  using assms
proof (induction m)
  case Nil
  show ?case by simp
next
  case (Cons e m)
  let ?r = "newRow (language_columns hs) (snd e)"
  from Cons.prems have e: "seg_id (snd e) = fst e" "trim (fst e) \<noteq> []"
    and d: "distinct (map fst m)" "fst e \<notin> fst ` set m"
    and rest: "\<forall>e \<in> set m. seg_id (snd e) = fst e \<and> trim (fst e) \<noteq> []"
    by auto
  have key: "row_key ?r = Some (fst e)"
    using e row_key_newRow [of "snd e" hs] by simp
  have look: "map_of (e # m) (fst e) = Some (snd e)"
    by (cases e) simp
  have cl: "classify (e # m) ?r = Unchanged"
    by (simp add: classify_def key look cell_newRow base_not_language del: map_of.simps)
  have "metadata_row (snd e) ?r = ?r"
    by (rule metadata_row_same) (simp_all add: cell_newRow base_not_language)
  then have nr: "next_row (language_columns hs) (e # m) ?r = ?r"
    by (simp add: next_row_def key look cell_newRow base_not_language del: map_of.simps)
  have co: "consume (e # m) ?r = m"
    using d(2) by (simp add: consume_def key Map_delete_head)
  from Cons.IH [OF d(1) rest] show ?case
    by (simp add: nr cl co)
qed

lemma matched_count:
  "distinct (map fst m) \<Longrightarrow>
   count_list (outcomes m rs) Updated + count_list (outcomes m rs) Unchanged
     + length (foldl consume m rs) = length m"
proof (induction rs arbitrary: m)
  case Nil
  show ?case by simp
next
  case (Cons r rs)
  show ?case
  proof (cases "row_key r")
    case None
    with Cons show ?thesis by (simp add: classify_def consume_def)
  next
    case (Some k)
    show ?thesis
    proof (cases "map_of m k")
      case None
      then have "Map_delete k m = m" by (rule Map_delete_absent)
      with Cons Some None show ?thesis by (simp add: classify_def consume_def)
    next
      case seg: (Some seg)
      from Cons.prems seg have l: "Suc (length (Map_delete k m)) = length m"
        by (rule length_Map_delete)
      from Cons.prems have "distinct (map fst (Map_delete k m))" by (rule distinct_Map_delete)
      from Cons.IH [OF this] Some seg l show ?thesis
        by (simp add: classify_def consume_def)
    qed
  qed
qed

lemma length_index_segments: "length (index_segments segs) = card (seg_id ` set segs)"
proof -
  have "dom (map_of (index_segments segs)) = seg_id ` set segs"
    by (simp add: index_segments_def map_of_index_fold fold_upd_dom)
  then have "fst ` set (index_segments segs) = seg_id ` set segs"
    by (simp add: dom_map_of_conv_image_fst)
  moreover have "card (fst ` set (index_segments segs)) = length (index_segments segs)"
    using distinct_index_segments [of segs] distinct_card [of "map fst (index_segments segs)"]
    by simp
  ultimately show ?thesis by simp
qed

lemma index_segments_key:
  "e \<in> set (index_segments segs) \<Longrightarrow> fst e \<in> seg_id ` set segs"
proof -
  assume "e \<in> set (index_segments segs)"
  then have "fst e \<in> fst ` set (index_segments segs)" by (rule imageI)
  also have "fst ` set (index_segments segs) = dom (map_of (index_segments segs))"
    by (simp add: dom_map_of_conv_image_fst)
  also have "\<dots> = seg_id ` set segs"
    by (simp add: index_segments_def map_of_index_fold fold_upd_dom)
  finally show ?thesis .
qed

lemma count_settled:
  "count_list (map settled os) Updated = 0"
  "count_list (map settled os) Unchanged = count_list os Updated + count_list os Unchanged"
  "count_list (map settled os) Deactivated = count_list os Deactivated"
  by (induction os) (auto simp: settled_def)

lemma count_list_append: "count_list (xs @ ys) a = count_list xs a + count_list ys a"
  by (induction xs) auto

lemma count_list_replicate: "count_list (replicate n x) y = (if x = y then n else 0)"
  by (induction n) auto

section \<open>Idempotence\<close>

text \<open>
  The second run of the version that updates rows in place.
\<close>

lemma sync_twice_updateRows:
  assumes "list_all id_ok sheetData"
    and "list_all (\<lambda>s. trim (seg_id s) \<noteq> []) segs"
  shows "\<exists>next st next' st'.
           syncXLFtoSheet segs sheetData sheetHeaders = Inr (next, st)
           \<and> syncXLFtoSheet segs next sheetHeaders = Inr (next', st')
           \<and> added st' = 0 \<and> updated st' = 0
           \<and> unchanged st' = card (seg_id ` set segs)
           \<and> unchanged st' = added st + updated st + unchanged st
           \<and> deactivated st' = deactivated st
           \<and> next' = next"
proof -
  let ?cols = "language_columns sheetHeaders"
  let ?m = "index_segments segs"
  let ?left = "foldl consume ?m sheetData"
  let ?P = "next_rows ?cols ?m sheetData"
  let ?N = "map (\<lambda>e. newRow ?cols (snd e)) ?left"
  let ?os = "outcomes ?m sheetData"
  let ?st = "\<lparr>added = length ?left, updated = count_list ?os Updated,
              unchanged = count_list ?os Unchanged, deactivated = count_list ?os Deactivated\<rparr>"
  have run1: "syncXLFtoSheet segs sheetData sheetHeaders = Inr (?P @ ?N, ?st)"
    by (rule syncXLFtoSheet_eq [OF assms(1)])
  have dm: "distinct (map fst ?m)" by (rule distinct_index_segments)
  have dl: "distinct (map fst ?left)" using dm by (rule distinct_consumed)
  have el: "\<forall>e \<in> set ?left. seg_id (snd e) = fst e \<and> trim (fst e) \<noteq> []"
  proof
    fix e assume "e \<in> set ?left"
    then have e: "e \<in> set ?m" using set_consumed by blast
    then have "fst e \<in> seg_id ` set segs" by (rule index_segments_key)
    with assms(2) have "trim (fst e) \<noteq> []" by (auto simp: list_all_iff)
    with e show "seg_id (snd e) = fst e \<and> trim (fst e) \<noteq> []"
      by (simp add: index_segments_id)
  qed
  note sp = second_pass [of sheetHeaders ?m sheetData]
  note ap = added_rows_pass [OF dl el, of sheetHeaders]
  have "list_all id_ok ?N"
    by (simp add: list_all_iff id_ok_newRow)
  then have ok2: "list_all id_ok (?P @ ?N)"
    using assms(1) by (simp add: list_all_id_ok_next_rows)
  have nx: "next_rows ?cols ?m (?P @ ?N) = ?P @ ?N"
    using sp ap by (simp add: next_rows_append)
  have os: "outcomes ?m (?P @ ?N) = map settled ?os @ replicate (length ?left) Unchanged"
    using sp ap by (simp add: outcomes_append)
  have lf: "foldl consume ?m (?P @ ?N) = []"
    using sp ap by simp
  let ?st' = "\<lparr>added = 0, updated = 0,
               unchanged = count_list ?os Updated + count_list ?os Unchanged + length ?left,
               deactivated = count_list ?os Deactivated\<rparr>"
  have run2: "syncXLFtoSheet segs (?P @ ?N) sheetHeaders = Inr (?P @ ?N, ?st')"
    unfolding syncXLFtoSheet_eq [OF ok2] nx os lf
    by (simp add: count_list_append count_settled count_list_replicate)
  have u: "unchanged ?st' = card (seg_id ` set segs)"
    using matched_count [OF dm, of sheetData] by (simp add: length_index_segments)
  have rest: "added ?st' = 0" "updated ?st' = 0"
    "unchanged ?st' = added ?st + updated ?st + unchanged ?st"
    "deactivated ?st' = deactivated ?st"
    by simp_all
  from run1 run2 u rest show ?thesis by blast
qed


lemma row_key_label:
  "row_key [''id'' \<mapsto> JStr ''Label.A'', ''English'' \<mapsto> e, ''French'' \<mapsto> f, ''active'' \<mapsto> a]
     = Some ''Label.A''"
  by (simp add: row_key_def cell_def trim_def is_space_def)

text \<open>
  One record, no segment: both runs of the in-place version count it as deactivated.
\<close>

lemma sync_deactivated_again_updateRows:
  "syncXLFtoSheet []
     [[''id'' \<mapsto> JStr ''Label.A'', ''English'' \<mapsto> JStr ''Hello'', ''French'' \<mapsto> JStr ''Bonjour'',
       ''active'' \<mapsto> JStr ''TRUE'']]
     [''id'', ''category'', ''maxwidth'', ''size-unit'', ''English'', ''active'', ''French'']
   = Inr ([[''id'' \<mapsto> JStr ''Label.A'', ''English'' \<mapsto> JStr ''Hello'',
            ''French'' \<mapsto> JStr ''Bonjour'', ''active'' \<mapsto> JBool False]],
          \<lparr>added = 0, updated = 0, unchanged = 0, deactivated = 1\<rparr>)
   \<and> syncXLFtoSheet []
     [[''id'' \<mapsto> JStr ''Label.A'', ''English'' \<mapsto> JStr ''Hello'', ''French'' \<mapsto> JStr ''Bonjour'',
       ''active'' \<mapsto> JBool False]]
     [''id'', ''category'', ''maxwidth'', ''size-unit'', ''English'', ''active'', ''French'']
   = Inr ([[''id'' \<mapsto> JStr ''Label.A'', ''English'' \<mapsto> JStr ''Hello'',
            ''French'' \<mapsto> JStr ''Bonjour'', ''active'' \<mapsto> JBool False]],
          \<lparr>added = 0, updated = 0, unchanged = 0, deactivated = 1\<rparr>)"
proof -
  have ok: "list_all id_ok [[''id'' \<mapsto> JStr ''Label.A'', ''English'' \<mapsto> JStr ''Hello'',
       ''French'' \<mapsto> JStr ''Bonjour'', ''active'' \<mapsto> a]]" for a
    by (simp add: id_ok_def cell_def)
  show ?thesis
    by (simp add: syncXLFtoSheet_eq [OF ok] index_segments_def next_row_def classify_def
        consume_def Map_delete_def row_key_label)
qed

text \<open>
  A segment with an empty id is outside the theorem: the row it adds is skipped by the
  next run, which adds it again.
\<close>

lemma sync_twice_empty_id:
  "syncXLFtoSheet
     [\<lparr>seg_id = [], seg_source = ''Hi'', seg_maxwidth = [], seg_sizeUnit = [], seg_note = []\<rparr>]
     [newRow [] \<lparr>seg_id = [], seg_source = ''Hi'', seg_maxwidth = [], seg_sizeUnit = [],
                 seg_note = []\<rparr>]
     [''id'', ''maxwidth'', ''size-unit'', ''English'', ''active'']
   = Inr ([newRow [] \<lparr>seg_id = [], seg_source = ''Hi'', seg_maxwidth = [], seg_sizeUnit = [],
                        seg_note = []\<rparr>,
           newRow [] \<lparr>seg_id = [], seg_source = ''Hi'', seg_maxwidth = [], seg_sizeUnit = [],
                        seg_note = []\<rparr>],
          \<lparr>added = 1, updated = 0, unchanged = 0, deactivated = 0\<rparr>)"
proof -
  let ?s = "\<lparr>seg_id = [], seg_source = ''Hi'', seg_maxwidth = [], seg_sizeUnit = [], seg_note = []\<rparr>"
  have ok: "list_all id_ok [newRow [] ?s]"
    by (simp add: id_ok_def newRow_def clear_columns_def cell_def)
  have key: "row_key (newRow [] ?s) = None"
    by (simp add: row_key_def newRow_def clear_columns_def cell_def trim_def)
  have cols: "language_columns [''id'', ''maxwidth'', ''size-unit'', ''English'', ''active''] = []"
    by (simp add: language_columns_def BASE_COLUMNS_def)
  show ?thesis
    by (simp add: syncXLFtoSheet_eq [OF ok] cols index_segments_def next_row_def classify_def
        consume_def key)
qed

section \<open>What parseXLF rejects\<close>

lemma parseXLF_source_language:
  "x_truthy (x_get result ''xliff'') \<Longrightarrow> x_truthy (x_get (x_get result ''xliff'') ''file'') \<Longrightarrow>
   x_get (x_get (x_get result ''xliff'') ''file'') ''source-language'' \<noteq> XStr ''en_US'' \<Longrightarrow>
   parseXLF (Inr result) = Inl (FailedToParseXLF InvalidSourceLanguage)"
  by (cases result) (auto simp: parseXLF_def)

lemma parseXLF_structure:
  "\<not> x_truthy (x_get result ''xliff'') \<or> \<not> x_truthy (x_get (x_get result ''xliff'') ''file'') \<Longrightarrow>
   parseXLF (Inr result) = Inl (FailedToParseXLF (if result = XUndefined \<or> result = XNull
                                                    then TypeError else InvalidXLFFormat))"
  by (cases result) (auto simp: parseXLF_def)

lemma parseXLF_en_US:
  "x_truthy (x_get result ''xliff'') \<Longrightarrow> x_truthy (x_get (x_get result ''xliff'') ''file'') \<Longrightarrow>
   x_get (x_get (x_get result ''xliff'') ''file'') ''source-language'' = XStr ''en_US'' \<Longrightarrow>
   \<exists>p. parseXLF (Inr result) = Inr p
       \<and> segments p = map segment_of_unit
            (filter x_truthy (trans_units_of (x_get (x_get result ''xliff'') ''file'')))"
  by (cases result) (auto simp: parseXLF_def Let_def)

text \<open>
  C8, at a document with the supported source language and no trans-unit:
  \<^verbatim>\<open><xliff version="1.2"><file source-language="en_US"><body/></file></xliff>\<close>,
  which the parser turns into the object below. parseXLF returns it with an empty segment
  list; it does not fail.
\<close>

theorem parseXLF_no_segments:
  "parseXLF (Inr (XObj [(''xliff'', XObj [(''version'', XStr ''1.2''),
      (''file'', XObj [(''source-language'', XStr ''en_US''), (''body'', XStr [])])])]))
   = Inr \<lparr>sourceLanguage = XStr ''en_US'', targetLanguage = XUndefined, original = XUndefined,
          segments = []\<rparr>"
  by (simp add: parseXLF_def trans_units_of_def)

theorem parseXLF_no_segments_witness:
  "\<exists>p. parseXLF (Inr (XObj [(''xliff'', XObj [(''version'', XStr ''1.2''),
      (''file'', XObj [(''source-language'', XStr ''en_US''), (''body'', XStr [])])])])) = Inr p
     \<and> segments p = []"
  using parseXLF_no_segments by simp

section \<open>The version that rewrites the sheet\<close>

lemma rewrite_segment_step:
  "rewrite_segment cols sm (d, st) e =
     (d @ [rewritten_row cols sm e],
      \<lparr>added = added st + (if segment_outcome sm e = Added then 1 else 0),
       updated = updated st + (if segment_outcome sm e = Updated then 1 else 0),
       unchanged = unchanged st + (if segment_outcome sm e = Unchanged then 1 else 0),
       deactivated = deactivated st\<rparr>)"
  by (cases "map_of sm (JStr (fst e))")
    (simp_all add: rewrite_segment_def rewritten_row_def segment_outcome_def)

lemma rewrite_segments_eq:
  "foldl (rewrite_segment cols sm) (d, st) m =
     (d @ map (rewritten_row cols sm) m,
      \<lparr>added = added st + length (filter (\<lambda>e. segment_outcome sm e = Added) m),
       updated = updated st + length (filter (\<lambda>e. segment_outcome sm e = Updated) m),
       unchanged = unchanged st + length (filter (\<lambda>e. segment_outcome sm e = Unchanged) m),
       deactivated = deactivated st\<rparr>)"
proof (induction m arbitrary: d st)
  case Nil
  show ?case by simp
next
  case (Cons e m)
  show ?case
    by (simp add: rewrite_segment_step Cons.IH)
qed

lemma rewrite_missing_step:
  "rewrite_missing m0 (d, st) e =
     (if has_id m0 (fst e) then (d, st)
      else (d @ [deactivated_row (snd e)],
            \<lparr>added = added st, updated = updated st, unchanged = unchanged st,
             deactivated = deactivated st + 1\<rparr>))"
  by (simp add: rewrite_missing_def deactivated_row_def)

lemma rewrite_missing_eq:
  "foldl (rewrite_missing m0) (d, st) sm =
     (d @ map (\<lambda>e. deactivated_row (snd e)) (filter (\<lambda>e. \<not> has_id m0 (fst e)) sm),
      \<lparr>added = added st, updated = updated st, unchanged = unchanged st,
       deactivated = deactivated st + length (filter (\<lambda>e. \<not> has_id m0 (fst e)) sm)\<rparr>)"
proof (induction sm arbitrary: d st)
  case Nil
  show ?case by simp
next
  case (Cons e sm)
  show ?case
    by (simp add: rewrite_missing_step Cons.IH)
qed

lemma syncXLFtoSheet_writeSheet_eq:
  "syncXLFtoSheet_writeSheet segs sheetData sheetHeaders =
     (if sheetHeaders = [] then Inl NoHeadersFound
      else Inr (map (rewritten_row (language_columns sheetHeaders) (index_rows sheetData))
                  (index_segments segs)
                @ map (\<lambda>e. deactivated_row (snd e))
                    (filter (\<lambda>e. \<not> has_id (index_segments segs) (fst e)) (index_rows sheetData)),
                \<lparr>added = length (filter (\<lambda>e. segment_outcome (index_rows sheetData) e = Added)
                                 (index_segments segs)),
                 updated = length (filter (\<lambda>e. segment_outcome (index_rows sheetData) e = Updated)
                                   (index_segments segs)),
                 unchanged = length (filter (\<lambda>e. segment_outcome (index_rows sheetData) e = Unchanged)
                                     (index_segments segs)),
                 deactivated = length (filter (\<lambda>e. \<not> has_id (index_segments segs) (fst e))
                                       (index_rows sheetData))\<rparr>))"
  by (simp add: syncXLFtoSheet_writeSheet_def Let_def rewrite_segments_eq rewrite_missing_eq)

text \<open>The index of the rows.\<close>

lemma map_of_index_rows_fold:
  "map_of (foldl (\<lambda>m r. if truthy (cell r ''id'') then Map_set (cell r ''id'') r m else m) m rs)
     = foldl (\<lambda>f r. if truthy (cell r ''id'') then f(cell r ''id'' \<mapsto> r) else f) (map_of m) rs"
  by (induction rs arbitrary: m) (simp_all add: map_of_Map_set)

lemma fold_rows_other:
  "\<forall>r \<in> set rs. cell r ''id'' \<noteq> v \<Longrightarrow>
   foldl (\<lambda>f r. if truthy (cell r ''id'') then f(cell r ''id'' \<mapsto> r) else f) f rs v = f v"
  by (induction rs arbitrary: f) auto

lemma fold_rows_unique:
  assumes "i < length rs" and "cell (rs ! i) ''id'' = v" and "truthy v"
    and "\<forall>j < length rs. cell (rs ! j) ''id'' = v \<longrightarrow> j = i"
  shows "foldl (\<lambda>f r. if truthy (cell r ''id'') then f(cell r ''id'' \<mapsto> r) else f) f rs v
           = Some (rs ! i)"
  using assms
proof (induction rs arbitrary: f i)
  case Nil
  then show ?case by simp
next
  case (Cons r rs)
  let ?F = "\<lambda>f r. if truthy (cell r ''id'') then f(cell r ''id'' \<mapsto> r) else f"
  show ?case
  proof (cases i)
    case 0
    have none: "\<forall>x \<in> set rs. cell x ''id'' \<noteq> v"
    proof
      fix x assume "x \<in> set rs"
      then obtain j where j: "j < length rs" "rs ! j = x" by (auto simp: in_set_conv_nth)
      show "cell x ''id'' \<noteq> v"
      proof
        assume "cell x ''id'' = v"
        with j Cons.prems(4) [rule_format, of "Suc j"] 0 show False by simp
      qed
    qed
    have "foldl ?F f (r # rs) v = foldl ?F (?F f r) rs v" by simp
    also have "\<dots> = ?F f r v" using none by (rule fold_rows_other)
    also have "\<dots> = Some r" using 0 Cons.prems(2,3) by simp
    finally show ?thesis using 0 by simp
  next
    case (Suc n)
    have n: "n < length rs" "cell (rs ! n) ''id'' = v"
      using Suc Cons.prems(1,2) by simp_all
    have u: "\<forall>j < length rs. cell (rs ! j) ''id'' = v \<longrightarrow> j = n"
    proof (intro allI impI)
      fix j assume "j < length rs" "cell (rs ! j) ''id'' = v"
      with Cons.prems(4) [rule_format, of "Suc j"] Suc show "j = n" by simp
    qed
    have "foldl ?F f (r # rs) v = foldl ?F (?F f r) rs v" by simp
    also have "\<dots> = Some (rs ! n)" using n(1) n(2) Cons.prems(3) u by (rule Cons.IH)
    finally show ?thesis using Suc by simp
  qed
qed

lemma row_key_cell: "row_key r = Some k \<longleftrightarrow> cell r ''id'' = JStr k \<and> trim k \<noteq> []"
  by (cases "cell r ''id''") (auto simp: row_key_def)

lemma trim_nonempty: "trim k \<noteq> [] \<Longrightarrow> k \<noteq> []"
  by (auto simp: trim_def)

lemma keys_nth_unique:
  assumes "distinct (keys rs)" and "i < length rs" and "j < length rs"
    and "row_key (rs ! i) = Some k" and "row_key (rs ! j) = Some k"
  shows "j = i"
  using assms
proof (induction rs arbitrary: i j)
  case Nil
  then show ?case by simp
next
  case (Cons r rs)
  from Cons.prems(1) have d: "distinct (keys rs)"
    by (auto simp: keys_Cons split: option.splits)
  have notin: "k \<notin> set (keys rs)" if "row_key r = Some k"
    using Cons.prems(1) that by (simp add: keys_Cons)
  have inkeys: "k \<in> set (keys rs)" if "n < length rs" "row_key (rs ! n) = Some k" for n
    using that by (auto simp: set_keys)
  show ?case
  proof (cases i)
    case 0
    with Cons.prems(4) have r: "row_key r = Some k" by simp
    show ?thesis
    proof (cases j)
      case 0
      with \<open>i = 0\<close> show ?thesis by simp
    next
      case (Suc n)
      with Cons.prems(3,5) have "k \<in> set (keys rs)" by (auto intro: inkeys)
      with notin [OF r] show ?thesis by simp
    qed
  next
    case (Suc m)
    show ?thesis
    proof (cases j)
      case 0
      with Cons.prems(5) have r: "row_key r = Some k" by simp
      from Suc Cons.prems(2,4) have "k \<in> set (keys rs)" by (auto intro: inkeys)
      with notin [OF r] show ?thesis by simp
    next
      case (Suc n)
      with \<open>i = Suc m\<close> Cons.prems Cons.IH [OF d, of m n] show ?thesis by simp
    qed
  qed
qed

lemma index_rows_lookup:
  assumes "distinct (keys rs)" and "i < length rs" and "row_key (rs ! i) = Some k"
  shows "map_of (index_rows rs) (JStr k) = Some (rs ! i)"
proof -
  from assms(3) have c: "cell (rs ! i) ''id'' = JStr k" and t: "trim k \<noteq> []"
    by (simp_all add: row_key_cell)
  have u: "\<forall>j < length rs. cell (rs ! j) ''id'' = JStr k \<longrightarrow> j = i"
  proof (intro allI impI)
    fix j assume j: "j < length rs" "cell (rs ! j) ''id'' = JStr k"
    then have "row_key (rs ! j) = Some k" using t by (simp add: row_key_cell)
    with assms j(1) show "j = i" by (auto intro: keys_nth_unique)
  qed
  have "truthy (JStr k)" using t by (simp add: trim_nonempty)
  with fold_rows_unique [OF assms(2) c _ u] show ?thesis
    by (simp add: index_rows_def map_of_index_rows_fold)
qed

section \<open>What the rewriting version does to a record\<close>

lemma Map_set_new: "k \<notin> fst ` set m \<Longrightarrow> Map_set k v m = m @ [(k, v)]"
  by (induction m) auto

lemma index_rows_snoc:
  "index_rows (rs @ [r]) =
     (if truthy (cell r ''id'') then Map_set (cell r ''id'') r (index_rows rs) else index_rows rs)"
  by (simp add: index_rows_def)

lemma index_rows_ids:
  "list_all (\<lambda>r. truthy (cell r ''id'')) rs \<Longrightarrow> distinct (map (\<lambda>r. cell r ''id'') rs) \<Longrightarrow>
   index_rows rs = map (\<lambda>r. (cell r ''id'', r)) rs"
proof (induction rs rule: rev_induct)
  case Nil
  show ?case by (simp add: index_rows_def)
next
  case (snoc r rs)
  then have ih: "index_rows rs = map (\<lambda>r. (cell r ''id'', r)) rs" by simp
  from snoc.prems have new: "cell r ''id'' \<notin> fst ` set (index_rows rs)"
    unfolding ih by (auto simp: image_iff)
  from snoc.prems have t: "truthy (cell r ''id'')" by simp
  have "index_rows (rs @ [r]) = Map_set (cell r ''id'') r (index_rows rs)"
    using t by (simp add: index_rows_snoc)
  also have "\<dots> = index_rows rs @ [(cell r ''id'', r)]"
    using new by (rule Map_set_new)
  finally show ?case by (simp add: ih)
qed

lemma map_of_ids:
  "distinct (map (\<lambda>r. cell r ''id'') rs) \<Longrightarrow> x \<in> set rs \<Longrightarrow>
   map_of (map (\<lambda>r. (cell r ''id'', r)) rs) (cell x ''id'') = Some x"
  by (induction rs) (auto simp: image_iff)

lemma cells_of_keys:
  "list_all (\<lambda>r. row_key r \<noteq> None) rs \<Longrightarrow> map (\<lambda>r. cell r ''id'') rs = map JStr (keys rs)"
  by (induction rs) (auto simp: keys_Nil keys_Cons row_key_cell split: option.splits)

lemma index_rows_keys:
  assumes "list_all (\<lambda>r. row_key r \<noteq> None) rs" and "distinct (keys rs)"
  shows "index_rows rs = map (\<lambda>r. (cell r ''id'', r)) rs"
proof (rule index_rows_ids)
  show "list_all (\<lambda>r. truthy (cell r ''id'')) rs"
  proof -
    have "truthy (cell r ''id'')" if "row_key r \<noteq> None" for r
      using that by (cases "cell r ''id''") (auto simp: row_key_def trim_def split: if_splits)
    with assms(1) show ?thesis by (auto simp: list_all_iff)
  qed
  show "distinct (map (\<lambda>r. cell r ''id'') rs)"
    using assms by (simp add: cells_of_keys distinct_map inj_on_def)
qed

lemma has_id_JStr: "has_id m (JStr k) \<longleftrightarrow> map_of m k \<noteq> None"
  by (simp add: has_id_def)

lemma cell_deactivated_row:
  "cell (deactivated_row r) c = (if c = ''active'' then JBool False else cell r c)"
  by (simp add: deactivated_row_def cell_upd)

lemma sync_source_changed_writeSheet:
  assumes "sheetHeaders \<noteq> []" and "distinct (keys sheetData)"
    and "i < length sheetData" and "row_key (sheetData ! i) = Some k"
    and "map_of (index_segments segs) k = Some seg"
    and "cell (sheetData ! i) ''English'' \<noteq> JStr (seg_source seg)"
  shows "\<exists>next st j. syncXLFtoSheet_writeSheet segs sheetData sheetHeaders = Inr (next, st)
           \<and> j < length next
           \<and> next ! j = source_changed_row (language_columns sheetHeaders) seg (sheetData ! i)
           \<and> cell (next ! j) ''English'' = JStr (seg_source seg)
           \<and> cell (next ! j) ''maxwidth'' = JStr (seg_maxwidth seg)
           \<and> cell (next ! j) ''size-unit'' = JStr (seg_sizeUnit seg)
           \<and> cell (next ! j) ''active'' = JBool True
           \<and> cell (next ! j) ''id'' = cell (sheetData ! i) ''id''
           \<and> list_all (\<lambda>c. cell (next ! j) c = JStr []) (language_columns sheetHeaders)
           \<and> segment_outcome (index_rows sheetData) (k, seg) = Updated
           \<and> updated st = length (filter (\<lambda>e. segment_outcome (index_rows sheetData) e = Updated)
                                    (index_segments segs))
           \<and> 0 < updated st"
proof -
  let ?cols = "language_columns sheetHeaders"
  let ?m = "index_segments segs"
  let ?sm = "index_rows sheetData"
  let ?A = "map (rewritten_row ?cols ?sm) ?m"
  let ?B = "map (\<lambda>e. deactivated_row (snd e)) (filter (\<lambda>e. \<not> has_id ?m (fst e)) ?sm)"
  let ?st = "\<lparr>added = length (filter (\<lambda>e. segment_outcome ?sm e = Added) ?m),
              updated = length (filter (\<lambda>e. segment_outcome ?sm e = Updated) ?m),
              unchanged = length (filter (\<lambda>e. segment_outcome ?sm e = Unchanged) ?m),
              deactivated = length (filter (\<lambda>e. \<not> has_id ?m (fst e)) ?sm)\<rparr>"
  have run: "syncXLFtoSheet_writeSheet segs sheetData sheetHeaders = Inr (?A @ ?B, ?st)"
    using assms(1) by (simp add: syncXLFtoSheet_writeSheet_eq)
  have look: "map_of ?sm (JStr k) = Some (sheetData ! i)"
    using assms(2-4) by (rule index_rows_lookup)
  from assms(5) have "(k, seg) \<in> set ?m" by (rule map_of_SomeD)
  then obtain j where j: "j < length ?m" "?m ! j = (k, seg)"
    by (auto simp: in_set_conv_nth)
  have rr: "rewritten_row ?cols ?sm (k, seg) = source_changed_row ?cols seg (sheetData ! i)"
    using look assms(6) by (simp add: rewritten_row_def)
  have nth: "(?A @ ?B) ! j = source_changed_row ?cols seg (sheetData ! i)"
    using j rr by (simp add: nth_append)
  have len: "j < length (?A @ ?B)" using j by simp
  have cells: "cell ((?A @ ?B) ! j) ''English'' = JStr (seg_source seg)"
    "cell ((?A @ ?B) ! j) ''maxwidth'' = JStr (seg_maxwidth seg)"
    "cell ((?A @ ?B) ! j) ''size-unit'' = JStr (seg_sizeUnit seg)"
    "cell ((?A @ ?B) ! j) ''active'' = JBool True"
    "cell ((?A @ ?B) ! j) ''id'' = cell (sheetData ! i) ''id''"
    "list_all (\<lambda>c. cell ((?A @ ?B) ! j) c = JStr []) ?cols"
    unfolding nth by (simp_all add: cell_source_changed_row base_not_language list_all_iff)
  have so: "segment_outcome ?sm (k, seg) = Updated"
    using look assms(6) by (simp add: segment_outcome_def)
  have "(k, seg) \<in> set (filter (\<lambda>e. segment_outcome ?sm e = Updated) ?m)"
    using \<open>(k, seg) \<in> set ?m\<close> so by simp
  then have pos: "0 < length (filter (\<lambda>e. segment_outcome ?sm e = Updated) ?m)"
    by (metis length_pos_if_in_set)
  have cnt: "updated ?st = length (filter (\<lambda>e. segment_outcome ?sm e = Updated) ?m)"
    "0 < updated ?st"
    using pos by simp_all
  from run len nth cells so cnt show ?thesis by blast
qed

lemma sync_metadata_refresh_writeSheet:
  assumes "sheetHeaders \<noteq> []" and "distinct (keys sheetData)"
    and "i < length sheetData" and "row_key (sheetData ! i) = Some k"
    and "map_of (index_segments segs) k = Some seg"
    and "cell (sheetData ! i) ''English'' = JStr (seg_source seg)"
  shows "\<exists>next st j. syncXLFtoSheet_writeSheet segs sheetData sheetHeaders = Inr (next, st)
           \<and> j < length next
           \<and> next ! j = metadata_row seg (sheetData ! i)
           \<and> cell (next ! j) ''maxwidth'' = JStr (seg_maxwidth seg)
           \<and> cell (next ! j) ''size-unit'' = JStr (seg_sizeUnit seg)
           \<and> cell (next ! j) ''active'' = JBool True
           \<and> (\<forall>c. c \<notin> {''maxwidth'', ''size-unit'', ''active''} \<longrightarrow>
                  cell (next ! j) c = cell (sheetData ! i) c)
           \<and> segment_outcome (index_rows sheetData) (k, seg) = Unchanged
           \<and> unchanged st = length (filter (\<lambda>e. segment_outcome (index_rows sheetData) e = Unchanged)
                                      (index_segments segs))
           \<and> 0 < unchanged st
           \<and> updated st = length (filter (\<lambda>e. segment_outcome (index_rows sheetData) e = Updated)
                                    (index_segments segs))"
proof -
  let ?cols = "language_columns sheetHeaders"
  let ?m = "index_segments segs"
  let ?sm = "index_rows sheetData"
  let ?A = "map (rewritten_row ?cols ?sm) ?m"
  let ?B = "map (\<lambda>e. deactivated_row (snd e)) (filter (\<lambda>e. \<not> has_id ?m (fst e)) ?sm)"
  let ?st = "\<lparr>added = length (filter (\<lambda>e. segment_outcome ?sm e = Added) ?m),
              updated = length (filter (\<lambda>e. segment_outcome ?sm e = Updated) ?m),
              unchanged = length (filter (\<lambda>e. segment_outcome ?sm e = Unchanged) ?m),
              deactivated = length (filter (\<lambda>e. \<not> has_id ?m (fst e)) ?sm)\<rparr>"
  have run: "syncXLFtoSheet_writeSheet segs sheetData sheetHeaders = Inr (?A @ ?B, ?st)"
    using assms(1) by (simp add: syncXLFtoSheet_writeSheet_eq)
  have look: "map_of ?sm (JStr k) = Some (sheetData ! i)"
    using assms(2-4) by (rule index_rows_lookup)
  from assms(5) have "(k, seg) \<in> set ?m" by (rule map_of_SomeD)
  then obtain j where j: "j < length ?m" "?m ! j = (k, seg)"
    by (auto simp: in_set_conv_nth)
  have rr: "rewritten_row ?cols ?sm (k, seg) = metadata_row seg (sheetData ! i)"
    using look assms(6) by (simp add: rewritten_row_def)
  have nth: "(?A @ ?B) ! j = metadata_row seg (sheetData ! i)"
    using j rr by (simp add: nth_append)
  have len: "j < length (?A @ ?B)" using j by simp
  have cells: "cell ((?A @ ?B) ! j) ''maxwidth'' = JStr (seg_maxwidth seg)"
    "cell ((?A @ ?B) ! j) ''size-unit'' = JStr (seg_sizeUnit seg)"
    "cell ((?A @ ?B) ! j) ''active'' = JBool True"
    "\<forall>c. c \<notin> {''maxwidth'', ''size-unit'', ''active''} \<longrightarrow>
                  cell ((?A @ ?B) ! j) c = cell (sheetData ! i) c"
    unfolding nth by (simp_all add: cell_metadata_row)
  have so: "segment_outcome ?sm (k, seg) = Unchanged"
    using look assms(6) by (simp add: segment_outcome_def)
  have "(k, seg) \<in> set (filter (\<lambda>e. segment_outcome ?sm e = Unchanged) ?m)"
    using \<open>(k, seg) \<in> set ?m\<close> so by simp
  then have pos: "0 < length (filter (\<lambda>e. segment_outcome ?sm e = Unchanged) ?m)"
    by (metis length_pos_if_in_set)
  have cnt: "unchanged ?st = length (filter (\<lambda>e. segment_outcome ?sm e = Unchanged) ?m)"
    "0 < unchanged ?st"
    "updated ?st = length (filter (\<lambda>e. segment_outcome ?sm e = Updated) ?m)"
    using pos by simp_all
  from run len nth cells so cnt show ?thesis by blast
qed

lemma sync_soft_delete_writeSheet:
  assumes "sheetHeaders \<noteq> []" and "distinct (keys sheetData)"
  shows "\<exists>next st. syncXLFtoSheet_writeSheet segs sheetData sheetHeaders = Inr (next, st)
           \<and> (\<forall>i k. i < length sheetData \<and> row_key (sheetData ! i) = Some k
                    \<and> k \<notin> seg_id ` set segs \<longrightarrow>
                  (\<exists>j < length next.
                     next ! j = (sheetData ! i)(''active'' \<mapsto> JBool False)
                     \<and> cell (next ! j) ''active'' = JBool False
                     \<and> (\<forall>c. c \<noteq> ''active'' \<longrightarrow> cell (next ! j) c = cell (sheetData ! i) c)))
           \<and> deactivated st =
                length (filter (\<lambda>e. \<not> has_id (index_segments segs) (fst e)) (index_rows sheetData))
           \<and> (segs = [] \<and> list_all (\<lambda>r. row_key r \<noteq> None) sheetData \<longrightarrow>
                 next = map (\<lambda>r. r(''active'' \<mapsto> JBool False)) sheetData
                 \<and> st = \<lparr>added = 0, updated = 0, unchanged = 0, deactivated = length sheetData\<rparr>)"
proof -
  let ?cols = "language_columns sheetHeaders"
  let ?m = "index_segments segs"
  let ?sm = "index_rows sheetData"
  let ?A = "map (rewritten_row ?cols ?sm) ?m"
  let ?B = "map (\<lambda>e. deactivated_row (snd e)) (filter (\<lambda>e. \<not> has_id ?m (fst e)) ?sm)"
  let ?st = "\<lparr>added = length (filter (\<lambda>e. segment_outcome ?sm e = Added) ?m),
              updated = length (filter (\<lambda>e. segment_outcome ?sm e = Updated) ?m),
              unchanged = length (filter (\<lambda>e. segment_outcome ?sm e = Unchanged) ?m),
              deactivated = length (filter (\<lambda>e. \<not> has_id ?m (fst e)) ?sm)\<rparr>"
  have run: "syncXLFtoSheet_writeSheet segs sheetData sheetHeaders = Inr (?A @ ?B, ?st)"
    using assms(1) by (simp add: syncXLFtoSheet_writeSheet_eq)
  have row: "\<exists>j < length (?A @ ?B).
                     (?A @ ?B) ! j = (sheetData ! i)(''active'' \<mapsto> JBool False)
                     \<and> cell ((?A @ ?B) ! j) ''active'' = JBool False
                     \<and> (\<forall>c. c \<noteq> ''active'' \<longrightarrow> cell ((?A @ ?B) ! j) c = cell (sheetData ! i) c)"
    if "i < length sheetData" "row_key (sheetData ! i) = Some k" "k \<notin> seg_id ` set segs" for i k
  proof -
    have "map_of ?sm (JStr k) = Some (sheetData ! i)"
      using assms(2) that(1,2) by (rule index_rows_lookup)
    then have "(JStr k, sheetData ! i) \<in> set ?sm" by (rule map_of_SomeD)
    moreover have "\<not> has_id ?m (JStr k)"
      using that(3) by (simp add: has_id_JStr index_segments_None)
    ultimately have "deactivated_row (sheetData ! i) \<in> set ?B" by force
    then have "deactivated_row (sheetData ! i) \<in> set (?A @ ?B)" by simp
    then obtain j where "j < length (?A @ ?B)" "(?A @ ?B) ! j = deactivated_row (sheetData ! i)"
      unfolding in_set_conv_nth by blast
    then show ?thesis
      by (intro exI [of _ j]) (simp add: cell_deactivated_row, simp add: deactivated_row_def)
  qed
  have cnt: "deactivated ?st = length (filter (\<lambda>e. \<not> has_id ?m (fst e)) ?sm)" by simp
  have empty: "?A @ ?B = map (\<lambda>r. r(''active'' \<mapsto> JBool False)) sheetData
                 \<and> ?st = \<lparr>added = 0, updated = 0, unchanged = 0, deactivated = length sheetData\<rparr>"
    if "segs = []" "list_all (\<lambda>r. row_key r \<noteq> None) sheetData"
  proof -
    have m: "?m = []" using that(1) by (simp add: index_segments_def)
    have sm: "?sm = map (\<lambda>r. (cell r ''id'', r)) sheetData"
      using that(2) assms(2) by (rule index_rows_keys)
    have h: "\<not> has_id [] v" for v by (cases v) (simp_all add: has_id_def)
    show ?thesis
      unfolding m sm by (simp add: h comp_def deactivated_row_def)
  qed
  from run row cnt empty show ?thesis by blast
qed

section \<open>Synchronising the same document once more, rewriting version\<close>

lemma Map_set_entries: "e \<in> set (Map_set k v m) \<Longrightarrow> e = (k, v) \<or> e \<in> set m"
  by (induction m) (auto split: if_splits)

lemma index_rows_step_inv:
  assumes "distinct (map fst m)" and "\<forall>e \<in> set m. cell (snd e) ''id'' = fst e \<and> truthy (fst e)"
  shows "distinct (map fst (if truthy (cell r ''id'') then Map_set (cell r ''id'') r m else m))"
    and "\<forall>e \<in> set (if truthy (cell r ''id'') then Map_set (cell r ''id'') r m else m).
           cell (snd e) ''id'' = fst e \<and> truthy (fst e)"
proof -
  show "distinct (map fst (if truthy (cell r ''id'') then Map_set (cell r ''id'') r m else m))"
    using assms(1) by (simp add: distinct_Map_set)
  show "\<forall>e \<in> set (if truthy (cell r ''id'') then Map_set (cell r ''id'') r m else m).
           cell (snd e) ''id'' = fst e \<and> truthy (fst e)"
  proof
    fix e assume e: "e \<in> set (if truthy (cell r ''id'') then Map_set (cell r ''id'') r m else m)"
    show "cell (snd e) ''id'' = fst e \<and> truthy (fst e)"
    proof (cases "truthy (cell r ''id'')")
      case False
      with e assms(2) show ?thesis by simp
    next
      case True
      with e have "e = (cell r ''id'', r) \<or> e \<in> set m" by (simp add: Map_set_entries)
      with assms(2) True show ?thesis by auto
    qed
  qed
qed

lemma index_rows_fold_inv:
  "distinct (map fst m) \<Longrightarrow> \<forall>e \<in> set m. cell (snd e) ''id'' = fst e \<and> truthy (fst e) \<Longrightarrow>
   distinct (map fst (foldl (\<lambda>m r. if truthy (cell r ''id'') then Map_set (cell r ''id'') r m else m) m rs))
   \<and> (\<forall>e \<in> set (foldl (\<lambda>m r. if truthy (cell r ''id'') then Map_set (cell r ''id'') r m else m) m rs).
         cell (snd e) ''id'' = fst e \<and> truthy (fst e))"
proof (induction rs arbitrary: m)
  case Nil
  then show ?case by simp
next
  case (Cons r rs)
  from Cons.IH [OF index_rows_step_inv [OF Cons.prems, of r]] show ?case
    unfolding foldl_Cons .
qed

lemma distinct_index_rows: "distinct (map fst (index_rows rs))"
  using index_rows_fold_inv [of "[]" rs] by (simp add: index_rows_def)

lemma index_rows_entry:
  "e \<in> set (index_rows rs) \<Longrightarrow> cell (snd e) ''id'' = fst e \<and> truthy (fst e)"
  using index_rows_fold_inv [of "[]" rs] by (simp add: index_rows_def)

lemma index_rows_pair:
  "(a, b) \<in> set (index_rows rs) \<Longrightarrow> cell b ''id'' = a"
  "(a, b) \<in> set (index_rows rs) \<Longrightarrow> truthy a"
  using index_rows_entry [of "(a, b)" rs] by simp_all

lemma cell_rewritten_row:
  "cell (rewritten_row (language_columns hs) sm e) ''English'' = JStr (seg_source (snd e))"
  "cell (rewritten_row (language_columns hs) sm e) ''maxwidth'' = JStr (seg_maxwidth (snd e))"
  "cell (rewritten_row (language_columns hs) sm e) ''size-unit'' = JStr (seg_sizeUnit (snd e))"
  "cell (rewritten_row (language_columns hs) sm e) ''active'' = JBool True"
  by (simp_all add: rewritten_row_def cell_newRow cell_source_changed_row cell_metadata_row
      base_not_language split: option.splits)

lemma cell_rewritten_row_id:
  assumes "e \<in> set (index_segments segs)"
  shows "cell (rewritten_row (language_columns hs) (index_rows rs) e) ''id'' = JStr (fst e)"
proof (cases "map_of (index_rows rs) (JStr (fst e))")
  case None
  then show ?thesis
    using index_segments_id [OF assms]
    by (simp add: rewritten_row_def cell_newRow base_not_language)
next
  case (Some x)
  then have "(JStr (fst e), x) \<in> set (index_rows rs)" by (rule map_of_SomeD)
  from index_rows_entry [OF this] have "cell x ''id'' = JStr (fst e)" by simp
  with Some show ?thesis
    by (simp add: rewritten_row_def cell_source_changed_row cell_metadata_row base_not_language)
qed

lemma rewritten_row_settled:
  assumes "map_of sm' (JStr (fst e)) = Some (rewritten_row (language_columns hs) sm e)"
  shows "rewritten_row (language_columns hs) sm' e = rewritten_row (language_columns hs) sm e"
    and "segment_outcome sm' e = Unchanged"
proof -
  let ?x = "rewritten_row (language_columns hs) sm e"
  have "metadata_row (snd e) ?x = ?x"
    by (rule metadata_row_same) (simp_all add: cell_rewritten_row)
  then show "rewritten_row (language_columns hs) sm' e = ?x"
    by (simp add: rewritten_row_def [of _ sm'] assms cell_rewritten_row)
  show "segment_outcome sm' e = Unchanged"
    by (simp add: segment_outcome_def assms cell_rewritten_row)
qed

lemma segment_outcome_partition:
  "length (filter (\<lambda>e. segment_outcome sm e = Added) m)
   + length (filter (\<lambda>e. segment_outcome sm e = Updated) m)
   + length (filter (\<lambda>e. segment_outcome sm e = Unchanged) m) = length m"
  by (induction m) (auto simp: segment_outcome_def split: option.splits)

lemma deactivated_row_twice: "deactivated_row (deactivated_row r) = deactivated_row r"
  by (simp add: deactivated_row_def)

lemma sync_twice_writeSheet:
  assumes "sheetHeaders \<noteq> []" and "list_all (\<lambda>s. seg_id s \<noteq> []) segs"
  shows "\<exists>next st next' st'.
           syncXLFtoSheet_writeSheet segs sheetData sheetHeaders = Inr (next, st)
           \<and> syncXLFtoSheet_writeSheet segs next sheetHeaders = Inr (next', st')
           \<and> added st' = 0 \<and> updated st' = 0
           \<and> unchanged st' = card (seg_id ` set segs)
           \<and> unchanged st' = added st + updated st + unchanged st
           \<and> deactivated st' = deactivated st
           \<and> next' = next"
proof -
  let ?cols = "language_columns sheetHeaders"
  let ?m = "index_segments segs"
  let ?sm = "index_rows sheetData"
  let ?miss = "filter (\<lambda>e. \<not> has_id ?m (fst e)) ?sm"
  let ?A = "map (rewritten_row ?cols ?sm) ?m"
  let ?B = "map (\<lambda>e. deactivated_row (snd e)) ?miss"
  let ?id = "\<lambda>r. cell r ''id''"
  let ?st = "\<lparr>added = length (filter (\<lambda>e. segment_outcome ?sm e = Added) ?m),
              updated = length (filter (\<lambda>e. segment_outcome ?sm e = Updated) ?m),
              unchanged = length (filter (\<lambda>e. segment_outcome ?sm e = Unchanged) ?m),
              deactivated = length ?miss\<rparr>"
  have run1: "syncXLFtoSheet_writeSheet segs sheetData sheetHeaders = Inr (?A @ ?B, ?st)"
    using assms(1) by (simp add: syncXLFtoSheet_writeSheet_eq)
  have idA: "map ?id ?A = map (\<lambda>e. JStr (fst e)) ?m"
    by (simp add: cell_rewritten_row_id)
  have idB: "map ?id ?B = map fst ?miss"
    by (auto simp: cell_deactivated_row index_rows_pair)
  have ne: "fst e \<noteq> []" if "e \<in> set ?m" for e
  proof -
    from that have "fst e \<in> seg_id ` set segs" by (rule index_segments_key)
    with assms(2) show ?thesis by (auto simp: list_all_iff)
  qed
  have inm: "has_id ?m (JStr (fst e))" if "e \<in> set ?m" for e
  proof -
    from that have "fst e \<in> fst ` set ?m" by (rule imageI)
    then show ?thesis by (simp add: has_id_JStr map_of_eq_None_iff)
  qed
  have dA: "distinct (map (\<lambda>e. JStr (fst e)) ?m)"
    using distinct_index_segments [of segs] by (simp add: distinct_map inj_on_def)
  have dB: "distinct (map fst ?miss)"
    using distinct_index_rows [of sheetData] by (rule distinct_map_filter)
  have disj: "set (map (\<lambda>e. JStr (fst e)) ?m) \<inter> set (map fst ?miss) = {}"
    using inm by auto
  have dist: "distinct (map ?id (?A @ ?B))"
    unfolding map_append idA idB using dA dB disj by simp
  have tA: "list_all (\<lambda>r. truthy (?id r)) ?A"
    using ne by (simp add: list_all_iff cell_rewritten_row_id)
  have tB: "list_all (\<lambda>r. truthy (?id r)) ?B"
    by (auto simp: list_all_iff cell_deactivated_row index_rows_pair)
  have sm': "index_rows (?A @ ?B) = map (\<lambda>r. (?id r, r)) (?A @ ?B)"
    using tA tB dist by (intro index_rows_ids) simp_all
  let ?sm' = "map (\<lambda>r. (?id r, r)) (?A @ ?B)"
  have look: "map_of ?sm' (JStr (fst e)) = Some (rewritten_row ?cols ?sm e)" if "e \<in> set ?m" for e
  proof -
    have "rewritten_row ?cols ?sm e \<in> set (?A @ ?B)" using that by simp
    from map_of_ids [OF dist this] show ?thesis
      using that by (simp add: cell_rewritten_row_id)
  qed
  have A': "map (rewritten_row ?cols ?sm') ?m = ?A"
    by (rule map_cong [OF refl]) (rule rewritten_row_settled(1) [OF look])
  have out: "segment_outcome ?sm' e = Unchanged" if "e \<in> set ?m" for e
    using look [OF that] by (rule rewritten_row_settled(2))
  have cnt: "filter (\<lambda>e. segment_outcome ?sm' e = Added) ?m = []"
    "filter (\<lambda>e. segment_outcome ?sm' e = Updated) ?m = []"
    "filter (\<lambda>e. segment_outcome ?sm' e = Unchanged) ?m = ?m"
    using out by (simp_all add: filter_empty_conv filter_id_conv)
  have fA: "filter (\<lambda>e. \<not> has_id ?m (fst e)) (map (\<lambda>r. (?id r, r)) ?A) = []"
    using inm by (simp add: filter_empty_conv cell_rewritten_row_id)
  have fB: "filter (\<lambda>e. \<not> has_id ?m (fst e)) (map (\<lambda>r. (?id r, r)) ?B) = map (\<lambda>r. (?id r, r)) ?B"
    by (auto simp: filter_id_conv cell_deactivated_row index_rows_pair)
  have miss': "filter (\<lambda>e. \<not> has_id ?m (fst e)) ?sm' = map (\<lambda>r. (?id r, r)) ?B"
    unfolding map_append filter_append fA fB by simp
  have B': "map (\<lambda>e. deactivated_row (snd e)) (map (\<lambda>r. (?id r, r)) ?B) = ?B"
    by (simp add: comp_def deactivated_row_twice)
  let ?st' = "\<lparr>added = 0, updated = 0, unchanged = length ?m, deactivated = length ?miss\<rparr>"
  have run2: "syncXLFtoSheet_writeSheet segs (?A @ ?B) sheetHeaders = Inr (?A @ ?B, ?st')"
    unfolding syncXLFtoSheet_writeSheet_eq sm' miss' A' B' cnt
    using assms(1) by simp
  note part = segment_outcome_partition [of ?sm ?m]
  have rest: "added ?st' = 0" "updated ?st' = 0"
    "unchanged ?st' = card (seg_id ` set segs)"
    "unchanged ?st' = added ?st + updated ?st + unchanged ?st"
    "deactivated ?st' = deactivated ?st"
    using part by (simp_all add: length_index_segments)
  from run1 run2 rest show ?thesis by blast
qed

section \<open>The reconciliation rules, for both versions of syncXLFtoSheet\<close>

text \<open>
  C2. Take a sheet whose ids are distinct (every record has its own id), the record at
  index \<open>i\<close> with id \<open>k\<close>, and the segment \<open>seg\<close> that the index of the document holds
  for \<open>k\<close> (the last segment with that id), with a source text other than the record's.
  Then the synchronisation succeeds, in place when every id of the sheet can be read, by
  rewriting when the sheet has a header. The record's row is afterwards the old row with
  the segment's source, maxwidth and size-unit, \<open>active = true\<close> and every language
  column empty: at index \<open>i\<close> in place, at the position of the segment after a rewrite.
  The record is one of those counted as updated.
\<close>

theorem sync_source_changed:
  assumes "distinct (keys sheetData)"
    and "i < length sheetData" and "row_key (sheetData ! i) = Some k"
    and "map_of (index_segments segs) k = Some seg"
    and "cell (sheetData ! i) ''English'' \<noteq> JStr (seg_source seg)"
  shows "(list_all id_ok sheetData \<longrightarrow>
          (\<exists>next st. syncXLFtoSheet segs sheetData sheetHeaders = Inr (next, st)
           \<and> i < length next
           \<and> next ! i = source_changed_row (language_columns sheetHeaders) seg (sheetData ! i)
           \<and> cell (next ! i) ''English'' = JStr (seg_source seg)
           \<and> cell (next ! i) ''maxwidth'' = JStr (seg_maxwidth seg)
           \<and> cell (next ! i) ''size-unit'' = JStr (seg_sizeUnit seg)
           \<and> cell (next ! i) ''active'' = JBool True
           \<and> cell (next ! i) ''id'' = cell (sheetData ! i) ''id''
           \<and> list_all (\<lambda>c. cell (next ! i) c = JStr []) (language_columns sheetHeaders)
           \<and> classify (index_segments segs) (sheetData ! i) = Updated
           \<and> updated st = length (filter (\<lambda>r. classify (index_segments segs) r = Updated) sheetData)
           \<and> 0 < updated st))
       \<and> (sheetHeaders \<noteq> [] \<longrightarrow>
          (\<exists>next st j. syncXLFtoSheet_writeSheet segs sheetData sheetHeaders = Inr (next, st)
           \<and> j < length next
           \<and> next ! j = source_changed_row (language_columns sheetHeaders) seg (sheetData ! i)
           \<and> cell (next ! j) ''English'' = JStr (seg_source seg)
           \<and> cell (next ! j) ''maxwidth'' = JStr (seg_maxwidth seg)
           \<and> cell (next ! j) ''size-unit'' = JStr (seg_sizeUnit seg)
           \<and> cell (next ! j) ''active'' = JBool True
           \<and> cell (next ! j) ''id'' = cell (sheetData ! i) ''id''
           \<and> list_all (\<lambda>c. cell (next ! j) c = JStr []) (language_columns sheetHeaders)
           \<and> segment_outcome (index_rows sheetData) (k, seg) = Updated
           \<and> updated st = length (filter (\<lambda>e. segment_outcome (index_rows sheetData) e = Updated)
                                    (index_segments segs))
           \<and> 0 < updated st))"
proof (intro conjI impI)
  assume "list_all id_ok sheetData"
  from sync_source_changed_updateRows [OF this assms]
  show "\<exists>next st. syncXLFtoSheet segs sheetData sheetHeaders = Inr (next, st)
           \<and> i < length next
           \<and> next ! i = source_changed_row (language_columns sheetHeaders) seg (sheetData ! i)
           \<and> cell (next ! i) ''English'' = JStr (seg_source seg)
           \<and> cell (next ! i) ''maxwidth'' = JStr (seg_maxwidth seg)
           \<and> cell (next ! i) ''size-unit'' = JStr (seg_sizeUnit seg)
           \<and> cell (next ! i) ''active'' = JBool True
           \<and> cell (next ! i) ''id'' = cell (sheetData ! i) ''id''
           \<and> list_all (\<lambda>c. cell (next ! i) c = JStr []) (language_columns sheetHeaders)
           \<and> classify (index_segments segs) (sheetData ! i) = Updated
           \<and> updated st = length (filter (\<lambda>r. classify (index_segments segs) r = Updated) sheetData)
           \<and> 0 < updated st" .
next
  assume "sheetHeaders \<noteq> []"
  from sync_source_changed_writeSheet [OF this assms]
  show "\<exists>next st j. syncXLFtoSheet_writeSheet segs sheetData sheetHeaders = Inr (next, st)
           \<and> j < length next
           \<and> next ! j = source_changed_row (language_columns sheetHeaders) seg (sheetData ! i)
           \<and> cell (next ! j) ''English'' = JStr (seg_source seg)
           \<and> cell (next ! j) ''maxwidth'' = JStr (seg_maxwidth seg)
           \<and> cell (next ! j) ''size-unit'' = JStr (seg_sizeUnit seg)
           \<and> cell (next ! j) ''active'' = JBool True
           \<and> cell (next ! j) ''id'' = cell (sheetData ! i) ''id''
           \<and> list_all (\<lambda>c. cell (next ! j) c = JStr []) (language_columns sheetHeaders)
           \<and> segment_outcome (index_rows sheetData) (k, seg) = Updated
           \<and> updated st = length (filter (\<lambda>e. segment_outcome (index_rows sheetData) e = Updated)
                                    (index_segments segs))
           \<and> 0 < updated st" .
qed

theorem sync_source_changed_witness:
  "(\<exists>next st.
     syncXLFtoSheet
       [\<lparr>seg_id = ''Label.A'', seg_source = ''Hi'', seg_maxwidth = ''10'', seg_sizeUnit = ''char'',
         seg_note = []\<rparr>]
       [[''id'' \<mapsto> JStr ''Label.A'', ''English'' \<mapsto> JStr ''Hello'', ''French'' \<mapsto> JStr ''Bonjour'',
         ''active'' \<mapsto> JStr ''TRUE'']]
       [''id'', ''category'', ''maxwidth'', ''size-unit'', ''English'', ''active'', ''French'']
       = Inr (next, st)
     \<and> cell (next ! 0) ''English'' = JStr ''Hi'' \<and> cell (next ! 0) ''maxwidth'' = JStr ''10''
     \<and> cell (next ! 0) ''active'' = JBool True \<and> cell (next ! 0) ''French'' = JStr []
     \<and> updated st = 1)
   \<and> (\<exists>next st j.
     syncXLFtoSheet_writeSheet
       [\<lparr>seg_id = ''Label.A'', seg_source = ''Hi'', seg_maxwidth = ''10'', seg_sizeUnit = ''char'',
         seg_note = []\<rparr>]
       [[''id'' \<mapsto> JStr ''Label.A'', ''English'' \<mapsto> JStr ''Hello'', ''French'' \<mapsto> JStr ''Bonjour'',
         ''active'' \<mapsto> JStr ''TRUE'']]
       [''id'', ''category'', ''maxwidth'', ''size-unit'', ''English'', ''active'', ''French'']
       = Inr (next, st)
     \<and> cell (next ! j) ''English'' = JStr ''Hi'' \<and> cell (next ! j) ''maxwidth'' = JStr ''10''
     \<and> cell (next ! j) ''active'' = JBool True \<and> cell (next ! j) ''French'' = JStr []
     \<and> updated st = 1)"
proof -
  let ?seg = "\<lparr>seg_id = ''Label.A'', seg_source = ''Hi'', seg_maxwidth = ''10'',
               seg_sizeUnit = ''char'', seg_note = []\<rparr>"
  let ?row = "[''id'' \<mapsto> JStr ''Label.A'', ''English'' \<mapsto> JStr ''Hello'',
               ''French'' \<mapsto> JStr ''Bonjour'', ''active'' \<mapsto> JStr ''TRUE'']"
  let ?hs = "[''id'', ''category'', ''maxwidth'', ''size-unit'', ''English'', ''active'', ''French'']"
  have key: "row_key ?row = Some ''Label.A''"
    by (simp add: row_key_def cell_def trim_def is_space_def)
  have h0: "list_all id_ok [?row]" by (simp add: id_ok_def cell_def)
  have h1: "distinct (keys [?row])" by (simp add: keys_Cons keys_Nil key)
  have h2: "0 < length [?row]" by simp
  have h3: "row_key ([?row] ! 0) = Some ''Label.A''" using key by simp
  have h4: "map_of (index_segments [?seg]) ''Label.A'' = Some ?seg"
    by (simp add: index_segments_def)
  have h5: "cell ([?row] ! 0) ''English'' \<noteq> JStr (seg_source ?seg)" by (simp add: cell_def)
  have h6: "?hs \<noteq> []" by simp
  have cols: "language_columns ?hs = [''category'', ''French'']"
    by (simp add: language_columns_def BASE_COLUMNS_def)
  have cl: "classify (index_segments [?seg]) ?row = Updated"
    by (simp add: classify_def key index_segments_def cell_def)
  have so: "segment_outcome (index_rows [?row]) (''Label.A'', ?seg) = Updated"
    by (simp add: segment_outcome_def index_rows_def cell_def)
  have ix: "index_segments [?seg] = [(''Label.A'', ?seg)]" by (simp add: index_segments_def)
  note both = sync_source_changed [OF h1 h2 h3 h4 h5, of ?hs]
  from both h0 have first: "\<exists>next st. syncXLFtoSheet [?seg] [?row] ?hs = Inr (next, st)
     \<and> cell (next ! 0) ''English'' = JStr ''Hi'' \<and> cell (next ! 0) ''maxwidth'' = JStr ''10''
     \<and> cell (next ! 0) ''active'' = JBool True \<and> cell (next ! 0) ''French'' = JStr []
     \<and> updated st = 1"
    unfolding cols by (auto simp: cl)
  from both h6 have second: "\<exists>next st j. syncXLFtoSheet_writeSheet [?seg] [?row] ?hs = Inr (next, st)
     \<and> cell (next ! j) ''English'' = JStr ''Hi'' \<and> cell (next ! j) ''maxwidth'' = JStr ''10''
     \<and> cell (next ! j) ''active'' = JBool True \<and> cell (next ! j) ''French'' = JStr []
     \<and> updated st = 1"
    unfolding cols ix by (auto simp: so)
  from first second show ?thesis by (rule conjI)
qed

text \<open>
  C3. A record of the sheet whose id is not the id of any incoming segment is afterwards
  the old row with \<open>active = false\<close>: every other cell, the source and the translations
  among them, is as it was. In place, for a sheet whose ids can all be read, the row stays
  at its index; by rewriting, for a sheet with a header whose ids are distinct, it is one
  of the rows written. In particular, with no incoming segment at all and a sheet of N
  rows that all have an id (distinct ids, for the rewriting), the result is the N rows in
  their order with \<open>active = false\<close>, and the counters are 0, 0, 0 and N.
\<close>

theorem sync_soft_delete:
  "(list_all id_ok sheetData \<longrightarrow>
      (\<exists>next st. syncXLFtoSheet segs sheetData sheetHeaders = Inr (next, st)
           \<and> length sheetData \<le> length next
           \<and> (\<forall>i k. i < length sheetData \<and> row_key (sheetData ! i) = Some k
                    \<and> k \<notin> seg_id ` set segs \<longrightarrow>
                  next ! i = (sheetData ! i)(''active'' \<mapsto> JBool False)
                  \<and> cell (next ! i) ''active'' = JBool False
                  \<and> (\<forall>c. c \<noteq> ''active'' \<longrightarrow> cell (next ! i) c = cell (sheetData ! i) c))
           \<and> (distinct (keys sheetData) \<longrightarrow>
                 deactivated st =
                   length (filter (\<lambda>r. classify (index_segments segs) r = Deactivated) sheetData))
           \<and> (segs = [] \<and> list_all (\<lambda>r. row_key r \<noteq> None) sheetData \<longrightarrow>
                 next = map (\<lambda>r. r(''active'' \<mapsto> JBool False)) sheetData
                 \<and> st = \<lparr>added = 0, updated = 0, unchanged = 0, deactivated = length sheetData\<rparr>)))
   \<and> (sheetHeaders \<noteq> [] \<and> distinct (keys sheetData) \<longrightarrow>
      (\<exists>next st. syncXLFtoSheet_writeSheet segs sheetData sheetHeaders = Inr (next, st)
           \<and> (\<forall>i k. i < length sheetData \<and> row_key (sheetData ! i) = Some k
                    \<and> k \<notin> seg_id ` set segs \<longrightarrow>
                  (\<exists>j < length next.
                     next ! j = (sheetData ! i)(''active'' \<mapsto> JBool False)
                     \<and> cell (next ! j) ''active'' = JBool False
                     \<and> (\<forall>c. c \<noteq> ''active'' \<longrightarrow> cell (next ! j) c = cell (sheetData ! i) c)))
           \<and> deactivated st =
                length (filter (\<lambda>e. \<not> has_id (index_segments segs) (fst e)) (index_rows sheetData))
           \<and> (segs = [] \<and> list_all (\<lambda>r. row_key r \<noteq> None) sheetData \<longrightarrow>
                 next = map (\<lambda>r. r(''active'' \<mapsto> JBool False)) sheetData
                 \<and> st = \<lparr>added = 0, updated = 0, unchanged = 0, deactivated = length sheetData\<rparr>)))"
proof (intro conjI impI)
  assume "list_all id_ok sheetData"
  from sync_soft_delete_updateRows [OF this]
  show "(\<exists>next st. syncXLFtoSheet segs sheetData sheetHeaders = Inr (next, st)
           \<and> length sheetData \<le> length next
           \<and> (\<forall>i k. i < length sheetData \<and> row_key (sheetData ! i) = Some k
                    \<and> k \<notin> seg_id ` set segs \<longrightarrow>
                  next ! i = (sheetData ! i)(''active'' \<mapsto> JBool False)
                  \<and> cell (next ! i) ''active'' = JBool False
                  \<and> (\<forall>c. c \<noteq> ''active'' \<longrightarrow> cell (next ! i) c = cell (sheetData ! i) c))
           \<and> (distinct (keys sheetData) \<longrightarrow>
                 deactivated st =
                   length (filter (\<lambda>r. classify (index_segments segs) r = Deactivated) sheetData))
           \<and> (segs = [] \<and> list_all (\<lambda>r. row_key r \<noteq> None) sheetData \<longrightarrow>
                 next = map (\<lambda>r. r(''active'' \<mapsto> JBool False)) sheetData
                 \<and> st = \<lparr>added = 0, updated = 0, unchanged = 0, deactivated = length sheetData\<rparr>))" .
next
  assume "sheetHeaders \<noteq> [] \<and> distinct (keys sheetData)"
  then have "sheetHeaders \<noteq> []" and "distinct (keys sheetData)" by simp_all
  from sync_soft_delete_writeSheet [OF this]
  show "(\<exists>next st. syncXLFtoSheet_writeSheet segs sheetData sheetHeaders = Inr (next, st)
           \<and> (\<forall>i k. i < length sheetData \<and> row_key (sheetData ! i) = Some k
                    \<and> k \<notin> seg_id ` set segs \<longrightarrow>
                  (\<exists>j < length next.
                     next ! j = (sheetData ! i)(''active'' \<mapsto> JBool False)
                     \<and> cell (next ! j) ''active'' = JBool False
                     \<and> (\<forall>c. c \<noteq> ''active'' \<longrightarrow> cell (next ! j) c = cell (sheetData ! i) c)))
           \<and> deactivated st =
                length (filter (\<lambda>e. \<not> has_id (index_segments segs) (fst e)) (index_rows sheetData))
           \<and> (segs = [] \<and> list_all (\<lambda>r. row_key r \<noteq> None) sheetData \<longrightarrow>
                 next = map (\<lambda>r. r(''active'' \<mapsto> JBool False)) sheetData
                 \<and> st = \<lparr>added = 0, updated = 0, unchanged = 0, deactivated = length sheetData\<rparr>))" .
qed

theorem sync_soft_delete_witness:
  "(\<exists>next st.
      syncXLFtoSheet
        [\<lparr>seg_id = ''Label.B'', seg_source = ''Bye'', seg_maxwidth = ''10'', seg_sizeUnit = ''char'',
          seg_note = []\<rparr>]
        [[''id'' \<mapsto> JStr ''Label.A'', ''English'' \<mapsto> JStr ''Hello'', ''French'' \<mapsto> JStr ''Bonjour'',
          ''active'' \<mapsto> JStr ''TRUE''],
         [''id'' \<mapsto> JStr ''Label.B'', ''English'' \<mapsto> JStr ''Bye'', ''French'' \<mapsto> JStr ''Salut'',
          ''active'' \<mapsto> JStr ''TRUE'']]
        [''id'', ''category'', ''maxwidth'', ''size-unit'', ''English'', ''active'', ''French'']
        = Inr (next, st)
      \<and> cell (next ! 0) ''active'' = JBool False \<and> cell (next ! 0) ''English'' = JStr ''Hello''
      \<and> cell (next ! 0) ''French'' = JStr ''Bonjour'' \<and> deactivated st = 1)
   \<and> syncXLFtoSheet []
        [[''id'' \<mapsto> JStr ''Label.A'', ''English'' \<mapsto> JStr ''Hello'', ''French'' \<mapsto> JStr ''Bonjour'',
          ''active'' \<mapsto> JStr ''TRUE''],
         [''id'' \<mapsto> JStr ''Label.B'', ''English'' \<mapsto> JStr ''Bye'', ''French'' \<mapsto> JStr ''Salut'',
          ''active'' \<mapsto> JStr ''TRUE'']]
        [''id'', ''category'', ''maxwidth'', ''size-unit'', ''English'', ''active'', ''French'']
      = Inr ([[''id'' \<mapsto> JStr ''Label.A'', ''English'' \<mapsto> JStr ''Hello'',
               ''French'' \<mapsto> JStr ''Bonjour'', ''active'' \<mapsto> JBool False],
              [''id'' \<mapsto> JStr ''Label.B'', ''English'' \<mapsto> JStr ''Bye'',
               ''French'' \<mapsto> JStr ''Salut'', ''active'' \<mapsto> JBool False]],
             \<lparr>added = 0, updated = 0, unchanged = 0, deactivated = 2\<rparr>)
   \<and> syncXLFtoSheet_writeSheet []
        [[''id'' \<mapsto> JStr ''Label.A'', ''English'' \<mapsto> JStr ''Hello'', ''French'' \<mapsto> JStr ''Bonjour'',
          ''active'' \<mapsto> JStr ''TRUE''],
         [''id'' \<mapsto> JStr ''Label.B'', ''English'' \<mapsto> JStr ''Bye'', ''French'' \<mapsto> JStr ''Salut'',
          ''active'' \<mapsto> JStr ''TRUE'']]
        [''id'', ''category'', ''maxwidth'', ''size-unit'', ''English'', ''active'', ''French'']
      = Inr ([[''id'' \<mapsto> JStr ''Label.A'', ''English'' \<mapsto> JStr ''Hello'',
               ''French'' \<mapsto> JStr ''Bonjour'', ''active'' \<mapsto> JBool False],
              [''id'' \<mapsto> JStr ''Label.B'', ''English'' \<mapsto> JStr ''Bye'',
               ''French'' \<mapsto> JStr ''Salut'', ''active'' \<mapsto> JBool False]],
             \<lparr>added = 0, updated = 0, unchanged = 0, deactivated = 2\<rparr>)"
proof -
  let ?seg = "\<lparr>seg_id = ''Label.B'', seg_source = ''Bye'', seg_maxwidth = ''10'',
               seg_sizeUnit = ''char'', seg_note = []\<rparr>"
  let ?a = "[''id'' \<mapsto> JStr ''Label.A'', ''English'' \<mapsto> JStr ''Hello'',
             ''French'' \<mapsto> JStr ''Bonjour'', ''active'' \<mapsto> JStr ''TRUE'']"
  let ?b = "[''id'' \<mapsto> JStr ''Label.B'', ''English'' \<mapsto> JStr ''Bye'',
             ''French'' \<mapsto> JStr ''Salut'', ''active'' \<mapsto> JStr ''TRUE'']"
  let ?hs = "[''id'', ''category'', ''maxwidth'', ''size-unit'', ''English'', ''active'', ''French'']"
  have ka: "row_key ?a = Some ''Label.A''" and kb: "row_key ?b = Some ''Label.B''"
    by (simp_all add: row_key_def cell_def trim_def is_space_def)
  have ok: "list_all id_ok [?a, ?b]" by (simp add: id_ok_def cell_def)
  have d: "distinct (keys [?a, ?b])" by (simp add: keys_Cons keys_Nil ka kb)
  have hd: "?hs \<noteq> [] \<and> distinct (keys [?a, ?b])" using d by simp
  have cl: "classify (index_segments [?seg]) ?a = Deactivated"
    "classify (index_segments [?seg]) ?b \<noteq> Deactivated"
    by (simp_all add: classify_def ka kb index_segments_def cell_def)
  from sync_soft_delete [of "[?a, ?b]" "[?seg]" ?hs, THEN conjunct1, THEN mp, OF ok]
  obtain nxt st where
    run: "syncXLFtoSheet [?seg] [?a, ?b] ?hs = Inr (nxt, st)"
    and row: "\<forall>i k. i < length [?a, ?b] \<and> row_key ([?a, ?b] ! i) = Some k
                \<and> k \<notin> seg_id ` set [?seg] \<longrightarrow>
                  nxt ! i = ([?a, ?b] ! i)(''active'' \<mapsto> JBool False)
                  \<and> cell (nxt ! i) ''active'' = JBool False
                  \<and> (\<forall>c. c \<noteq> ''active'' \<longrightarrow> cell (nxt ! i) c = cell ([?a, ?b] ! i) c)"
    and cnt: "distinct (keys [?a, ?b]) \<longrightarrow>
                 deactivated st =
                   length (filter (\<lambda>r. classify (index_segments [?seg]) r = Deactivated) [?a, ?b])"
    by blast
  from row [rule_format, of 0 "''Label.A''"] ka
  have r0: "cell (nxt ! 0) ''active'' = JBool False"
    "cell (nxt ! 0) ''English'' = JStr ''Hello''" "cell (nxt ! 0) ''French'' = JStr ''Bonjour''"
    by (simp_all add: cell_def)
  from cnt d cl have c: "deactivated st = 1" by simp
  have first: "\<exists>next st. syncXLFtoSheet [?seg] [?a, ?b] ?hs = Inr (next, st)
      \<and> cell (next ! 0) ''active'' = JBool False \<and> cell (next ! 0) ''English'' = JStr ''Hello''
      \<and> cell (next ! 0) ''French'' = JStr ''Bonjour'' \<and> deactivated st = 1"
    using run r0 c by blast
  have all: "list_all (\<lambda>r. row_key r \<noteq> None) [?a, ?b]" by (simp add: ka kb)
  from sync_soft_delete [of "[?a, ?b]" "[]" ?hs, THEN conjunct1, THEN mp, OF ok] all
  have second: "syncXLFtoSheet [] [?a, ?b] ?hs
      = Inr ([?a(''active'' \<mapsto> JBool False), ?b(''active'' \<mapsto> JBool False)],
             \<lparr>added = 0, updated = 0, unchanged = 0, deactivated = 2\<rparr>)"
    by auto
  from sync_soft_delete [of "[?a, ?b]" "[]" ?hs, THEN conjunct2, THEN mp, OF hd] all
  have third: "syncXLFtoSheet_writeSheet [] [?a, ?b] ?hs
      = Inr ([?a(''active'' \<mapsto> JBool False), ?b(''active'' \<mapsto> JBool False)],
             \<lparr>added = 0, updated = 0, unchanged = 0, deactivated = 2\<rparr>)"
    by auto
  from first second third show ?thesis by simp
qed

text \<open>
  C4. Take a sheet whose ids are distinct, the record at index \<open>i\<close> with id \<open>k\<close>, and
  the segment \<open>seg\<close> that the index of the document holds for \<open>k\<close>, with the record's
  source text. Then the synchronisation succeeds (in place when every id of the sheet can
  be read, by rewriting when the sheet has a header), and the record's row is afterwards
  the old row with the segment's maxwidth and size-unit and \<open>active = true\<close>, whatever
  these three cells were, and every other cell, so every translation, as it was. The
  record is one of those counted as unchanged, and the updated counter counts only
  records whose source changed. A deactivated record whose id comes back with the same
  source is such a record.
\<close>

theorem sync_metadata_refresh:
  assumes "distinct (keys sheetData)"
    and "i < length sheetData" and "row_key (sheetData ! i) = Some k"
    and "map_of (index_segments segs) k = Some seg"
    and "cell (sheetData ! i) ''English'' = JStr (seg_source seg)"
  shows "(list_all id_ok sheetData \<longrightarrow>
          (\<exists>next st. syncXLFtoSheet segs sheetData sheetHeaders = Inr (next, st)
           \<and> i < length next
           \<and> next ! i = metadata_row seg (sheetData ! i)
           \<and> cell (next ! i) ''maxwidth'' = JStr (seg_maxwidth seg)
           \<and> cell (next ! i) ''size-unit'' = JStr (seg_sizeUnit seg)
           \<and> cell (next ! i) ''active'' = JBool True
           \<and> (\<forall>c. c \<notin> {''maxwidth'', ''size-unit'', ''active''} \<longrightarrow>
                  cell (next ! i) c = cell (sheetData ! i) c)
           \<and> classify (index_segments segs) (sheetData ! i) = Unchanged
           \<and> unchanged st = length (filter (\<lambda>r. classify (index_segments segs) r = Unchanged) sheetData)
           \<and> 0 < unchanged st
           \<and> updated st = length (filter (\<lambda>r. classify (index_segments segs) r = Updated) sheetData)))
       \<and> (sheetHeaders \<noteq> [] \<longrightarrow>
          (\<exists>next st j. syncXLFtoSheet_writeSheet segs sheetData sheetHeaders = Inr (next, st)
           \<and> j < length next
           \<and> next ! j = metadata_row seg (sheetData ! i)
           \<and> cell (next ! j) ''maxwidth'' = JStr (seg_maxwidth seg)
           \<and> cell (next ! j) ''size-unit'' = JStr (seg_sizeUnit seg)
           \<and> cell (next ! j) ''active'' = JBool True
           \<and> (\<forall>c. c \<notin> {''maxwidth'', ''size-unit'', ''active''} \<longrightarrow>
                  cell (next ! j) c = cell (sheetData ! i) c)
           \<and> segment_outcome (index_rows sheetData) (k, seg) = Unchanged
           \<and> unchanged st = length (filter (\<lambda>e. segment_outcome (index_rows sheetData) e = Unchanged)
                                      (index_segments segs))
           \<and> 0 < unchanged st
           \<and> updated st = length (filter (\<lambda>e. segment_outcome (index_rows sheetData) e = Updated)
                                    (index_segments segs))))"
proof (intro conjI impI)
  assume "list_all id_ok sheetData"
  from sync_metadata_refresh_updateRows [OF this assms]
  show "(\<exists>next st. syncXLFtoSheet segs sheetData sheetHeaders = Inr (next, st)
           \<and> i < length next
           \<and> next ! i = metadata_row seg (sheetData ! i)
           \<and> cell (next ! i) ''maxwidth'' = JStr (seg_maxwidth seg)
           \<and> cell (next ! i) ''size-unit'' = JStr (seg_sizeUnit seg)
           \<and> cell (next ! i) ''active'' = JBool True
           \<and> (\<forall>c. c \<notin> {''maxwidth'', ''size-unit'', ''active''} \<longrightarrow>
                  cell (next ! i) c = cell (sheetData ! i) c)
           \<and> classify (index_segments segs) (sheetData ! i) = Unchanged
           \<and> unchanged st = length (filter (\<lambda>r. classify (index_segments segs) r = Unchanged) sheetData)
           \<and> 0 < unchanged st
           \<and> updated st = length (filter (\<lambda>r. classify (index_segments segs) r = Updated) sheetData))" .
next
  assume "sheetHeaders \<noteq> []"
  from sync_metadata_refresh_writeSheet [OF this assms]
  show "(\<exists>next st j. syncXLFtoSheet_writeSheet segs sheetData sheetHeaders = Inr (next, st)
           \<and> j < length next
           \<and> next ! j = metadata_row seg (sheetData ! i)
           \<and> cell (next ! j) ''maxwidth'' = JStr (seg_maxwidth seg)
           \<and> cell (next ! j) ''size-unit'' = JStr (seg_sizeUnit seg)
           \<and> cell (next ! j) ''active'' = JBool True
           \<and> (\<forall>c. c \<notin> {''maxwidth'', ''size-unit'', ''active''} \<longrightarrow>
                  cell (next ! j) c = cell (sheetData ! i) c)
           \<and> segment_outcome (index_rows sheetData) (k, seg) = Unchanged
           \<and> unchanged st = length (filter (\<lambda>e. segment_outcome (index_rows sheetData) e = Unchanged)
                                      (index_segments segs))
           \<and> 0 < unchanged st
           \<and> updated st = length (filter (\<lambda>e. segment_outcome (index_rows sheetData) e = Updated)
                                    (index_segments segs)))" .
qed

theorem sync_metadata_refresh_witness:
  "(\<exists>next st.
     syncXLFtoSheet
       [\<lparr>seg_id = ''Label.A'', seg_source = ''Hello'', seg_maxwidth = ''10'', seg_sizeUnit = ''char'',
         seg_note = []\<rparr>]
       [[''id'' \<mapsto> JStr ''Label.A'', ''English'' \<mapsto> JStr ''Hello'', ''French'' \<mapsto> JStr ''Bonjour'',
         ''maxwidth'' \<mapsto> JStr ''20'', ''active'' \<mapsto> JStr ''FALSE'']]
       [''id'', ''category'', ''maxwidth'', ''size-unit'', ''English'', ''active'', ''French'']
       = Inr (next, st)
     \<and> cell (next ! 0) ''English'' = JStr ''Hello'' \<and> cell (next ! 0) ''maxwidth'' = JStr ''10''
     \<and> cell (next ! 0) ''active'' = JBool True \<and> cell (next ! 0) ''French'' = JStr ''Bonjour''
     \<and> unchanged st = 1 \<and> updated st = 0)
   \<and> (\<exists>next st j.
     syncXLFtoSheet_writeSheet
       [\<lparr>seg_id = ''Label.A'', seg_source = ''Hello'', seg_maxwidth = ''10'', seg_sizeUnit = ''char'',
         seg_note = []\<rparr>]
       [[''id'' \<mapsto> JStr ''Label.A'', ''English'' \<mapsto> JStr ''Hello'', ''French'' \<mapsto> JStr ''Bonjour'',
         ''maxwidth'' \<mapsto> JStr ''20'', ''active'' \<mapsto> JStr ''FALSE'']]
       [''id'', ''category'', ''maxwidth'', ''size-unit'', ''English'', ''active'', ''French'']
       = Inr (next, st)
     \<and> cell (next ! j) ''English'' = JStr ''Hello'' \<and> cell (next ! j) ''maxwidth'' = JStr ''10''
     \<and> cell (next ! j) ''active'' = JBool True \<and> cell (next ! j) ''French'' = JStr ''Bonjour''
     \<and> unchanged st = 1 \<and> updated st = 0)"
proof -
  let ?seg = "\<lparr>seg_id = ''Label.A'', seg_source = ''Hello'', seg_maxwidth = ''10'',
               seg_sizeUnit = ''char'', seg_note = []\<rparr>"
  let ?row = "[''id'' \<mapsto> JStr ''Label.A'', ''English'' \<mapsto> JStr ''Hello'',
               ''French'' \<mapsto> JStr ''Bonjour'', ''maxwidth'' \<mapsto> JStr ''20'',
               ''active'' \<mapsto> JStr ''FALSE'']"
  let ?hs = "[''id'', ''category'', ''maxwidth'', ''size-unit'', ''English'', ''active'', ''French'']"
  have key: "row_key ?row = Some ''Label.A''"
    by (simp add: row_key_def cell_def trim_def is_space_def)
  have h0: "list_all id_ok [?row]" by (simp add: id_ok_def cell_def)
  have h1: "distinct (keys [?row])" by (simp add: keys_Cons keys_Nil key)
  have h2: "0 < length [?row]" by simp
  have h3: "row_key ([?row] ! 0) = Some ''Label.A''" using key by simp
  have h4: "map_of (index_segments [?seg]) ''Label.A'' = Some ?seg"
    by (simp add: index_segments_def)
  have h5: "cell ([?row] ! 0) ''English'' = JStr (seg_source ?seg)" by (simp add: cell_def)
  have h6: "?hs \<noteq> []" by simp
  have cl: "classify (index_segments [?seg]) ?row = Unchanged"
    by (simp add: classify_def key index_segments_def cell_def)
  have so: "segment_outcome (index_rows [?row]) (''Label.A'', ?seg) = Unchanged"
    by (simp add: segment_outcome_def index_rows_def cell_def)
  have ix: "index_segments [?seg] = [(''Label.A'', ?seg)]" by (simp add: index_segments_def)
  note both = sync_metadata_refresh [OF h1 h2 h3 h4 h5, of ?hs]
  from both [THEN conjunct1, THEN mp, OF h0] obtain nxt st where
    run: "syncXLFtoSheet [?seg] [?row] ?hs = Inr (nxt, st)"
    and nth: "nxt ! 0 = metadata_row ?seg ([?row] ! 0)"
    and un: "unchanged st = length (filter (\<lambda>r. classify (index_segments [?seg]) r = Unchanged) [?row])"
    and up: "updated st = length (filter (\<lambda>r. classify (index_segments [?seg]) r = Updated) [?row])"
    by (elim exE conjE) (rule that, assumption+)
  have cells: "cell (nxt ! 0) ''English'' = JStr ''Hello''" "cell (nxt ! 0) ''maxwidth'' = JStr ''10''"
    "cell (nxt ! 0) ''active'' = JBool True" "cell (nxt ! 0) ''French'' = JStr ''Bonjour''"
    unfolding nth by (simp_all add: cell_metadata_row) (simp_all add: cell_def)
  have counts: "unchanged st = 1" "updated st = 0"
    using un up by (simp_all add: cl)
  have first: "\<exists>next st. syncXLFtoSheet [?seg] [?row] ?hs = Inr (next, st)
     \<and> cell (next ! 0) ''English'' = JStr ''Hello'' \<and> cell (next ! 0) ''maxwidth'' = JStr ''10''
     \<and> cell (next ! 0) ''active'' = JBool True \<and> cell (next ! 0) ''French'' = JStr ''Bonjour''
     \<and> unchanged st = 1 \<and> updated st = 0"
    using run cells counts by blast
  from both [THEN conjunct2, THEN mp, OF h6] obtain nxt' st' j where
    run': "syncXLFtoSheet_writeSheet [?seg] [?row] ?hs = Inr (nxt', st')"
    and nth': "nxt' ! j = metadata_row ?seg ([?row] ! 0)"
    and un': "unchanged st' = length (filter (\<lambda>e. segment_outcome (index_rows [?row]) e = Unchanged)
                                      (index_segments [?seg]))"
    and up': "updated st' = length (filter (\<lambda>e. segment_outcome (index_rows [?row]) e = Updated)
                                    (index_segments [?seg]))"
    by (elim exE conjE) (rule that, assumption+)
  have cells': "cell (nxt' ! j) ''English'' = JStr ''Hello''" "cell (nxt' ! j) ''maxwidth'' = JStr ''10''"
    "cell (nxt' ! j) ''active'' = JBool True" "cell (nxt' ! j) ''French'' = JStr ''Bonjour''"
    unfolding nth' by (simp_all add: cell_metadata_row) (simp_all add: cell_def)
  have counts': "unchanged st' = 1" "updated st' = 0"
    using un' up' unfolding ix by (simp_all add: so)
  have second: "\<exists>next st j. syncXLFtoSheet_writeSheet [?seg] [?row] ?hs = Inr (next, st)
     \<and> cell (next ! j) ''English'' = JStr ''Hello'' \<and> cell (next ! j) ''maxwidth'' = JStr ''10''
     \<and> cell (next ! j) ''active'' = JBool True \<and> cell (next ! j) ''French'' = JStr ''Bonjour''
     \<and> unchanged st = 1 \<and> updated st = 0"
    using run' cells' counts' by blast
  from first second show ?thesis by (rule conjI)
qed

section \<open>Idempotence, for both versions of syncXLFtoSheet\<close>

text \<open>
  C1 (as the code has it). Take a document whose segment ids are not blank. The
  synchronisation succeeds (in place when every id of the sheet can be read, by rewriting
  when the sheet has a header), and so does a second one with the same document on the
  rows the first one left. The second one adds and updates nothing and leaves the rows
  as they are; it counts as unchanged every record whose id is in the document, which is
  one record for each id of the document; and it counts as deactivated, again, the records
  that the first one counted as deactivated.
\<close>

theorem sync_twice:
  assumes "list_all (\<lambda>s. trim (seg_id s) \<noteq> []) segs"
  shows "(list_all id_ok sheetData \<longrightarrow>
          (\<exists>next st next' st'.
           syncXLFtoSheet segs sheetData sheetHeaders = Inr (next, st)
           \<and> syncXLFtoSheet segs next sheetHeaders = Inr (next', st')
           \<and> added st' = 0 \<and> updated st' = 0
           \<and> unchanged st' = card (seg_id ` set segs)
           \<and> unchanged st' = added st + updated st + unchanged st
           \<and> deactivated st' = deactivated st
           \<and> next' = next))
       \<and> (sheetHeaders \<noteq> [] \<longrightarrow>
          (\<exists>next st next' st'.
           syncXLFtoSheet_writeSheet segs sheetData sheetHeaders = Inr (next, st)
           \<and> syncXLFtoSheet_writeSheet segs next sheetHeaders = Inr (next', st')
           \<and> added st' = 0 \<and> updated st' = 0
           \<and> unchanged st' = card (seg_id ` set segs)
           \<and> unchanged st' = added st + updated st + unchanged st
           \<and> deactivated st' = deactivated st
           \<and> next' = next))"
proof (intro conjI impI)
  assume "list_all id_ok sheetData"
  from sync_twice_updateRows [OF this assms]
  show "(\<exists>next st next' st'.
           syncXLFtoSheet segs sheetData sheetHeaders = Inr (next, st)
           \<and> syncXLFtoSheet segs next sheetHeaders = Inr (next', st')
           \<and> added st' = 0 \<and> updated st' = 0
           \<and> unchanged st' = card (seg_id ` set segs)
           \<and> unchanged st' = added st + updated st + unchanged st
           \<and> deactivated st' = deactivated st
           \<and> next' = next)" .
next
  assume h: "sheetHeaders \<noteq> []"
  from assms have "list_all (\<lambda>s. seg_id s \<noteq> []) segs"
    by (auto simp: list_all_iff dest: trim_nonempty)
  from sync_twice_writeSheet [OF h this]
  show "(\<exists>next st next' st'.
           syncXLFtoSheet_writeSheet segs sheetData sheetHeaders = Inr (next, st)
           \<and> syncXLFtoSheet_writeSheet segs next sheetHeaders = Inr (next', st')
           \<and> added st' = 0 \<and> updated st' = 0
           \<and> unchanged st' = card (seg_id ` set segs)
           \<and> unchanged st' = added st + updated st + unchanged st
           \<and> deactivated st' = deactivated st
           \<and> next' = next)" .
qed


theorem sync_twice_witness:
  "(\<exists>next st next' st'.
           syncXLFtoSheet [\<lparr>seg_id = ''Label.A'', seg_source = ''Hi'', seg_maxwidth = ''10'', seg_sizeUnit = ''char'',
               seg_note = []\<rparr>,
              \<lparr>seg_id = ''Label.B'', seg_source = ''Bye'', seg_maxwidth = ''10'', seg_sizeUnit = ''char'',
               seg_note = []\<rparr>] [[''id'' \<mapsto> JStr ''Label.A'', ''English'' \<mapsto> JStr ''Hello'', ''French'' \<mapsto> JStr ''Bonjour'',
               ''active'' \<mapsto> JStr ''TRUE''],
              [''id'' \<mapsto> JStr ''Label.C'', ''English'' \<mapsto> JStr ''See'', ''French'' \<mapsto> JStr ''Voir'',
               ''active'' \<mapsto> JStr ''TRUE'']] [''id'', ''category'', ''maxwidth'', ''size-unit'', ''English'', ''active'', ''French''] = Inr (next, st)
           \<and> syncXLFtoSheet [\<lparr>seg_id = ''Label.A'', seg_source = ''Hi'', seg_maxwidth = ''10'', seg_sizeUnit = ''char'',
               seg_note = []\<rparr>,
              \<lparr>seg_id = ''Label.B'', seg_source = ''Bye'', seg_maxwidth = ''10'', seg_sizeUnit = ''char'',
               seg_note = []\<rparr>] next [''id'', ''category'', ''maxwidth'', ''size-unit'', ''English'', ''active'', ''French''] = Inr (next', st')
           \<and> added st' = 0 \<and> updated st' = 0
           \<and> unchanged st' = 2
           \<and> unchanged st' = added st + updated st + unchanged st
           \<and> deactivated st' = deactivated st
           \<and> next' = next)
   \<and> (\<exists>next st next' st'.
           syncXLFtoSheet_writeSheet [\<lparr>seg_id = ''Label.A'', seg_source = ''Hi'', seg_maxwidth = ''10'', seg_sizeUnit = ''char'',
               seg_note = []\<rparr>,
              \<lparr>seg_id = ''Label.B'', seg_source = ''Bye'', seg_maxwidth = ''10'', seg_sizeUnit = ''char'',
               seg_note = []\<rparr>] [[''id'' \<mapsto> JStr ''Label.A'', ''English'' \<mapsto> JStr ''Hello'', ''French'' \<mapsto> JStr ''Bonjour'',
               ''active'' \<mapsto> JStr ''TRUE''],
              [''id'' \<mapsto> JStr ''Label.C'', ''English'' \<mapsto> JStr ''See'', ''French'' \<mapsto> JStr ''Voir'',
               ''active'' \<mapsto> JStr ''TRUE'']] [''id'', ''category'', ''maxwidth'', ''size-unit'', ''English'', ''active'', ''French''] = Inr (next, st)
           \<and> syncXLFtoSheet_writeSheet [\<lparr>seg_id = ''Label.A'', seg_source = ''Hi'', seg_maxwidth = ''10'', seg_sizeUnit = ''char'',
               seg_note = []\<rparr>,
              \<lparr>seg_id = ''Label.B'', seg_source = ''Bye'', seg_maxwidth = ''10'', seg_sizeUnit = ''char'',
               seg_note = []\<rparr>] next [''id'', ''category'', ''maxwidth'', ''size-unit'', ''English'', ''active'', ''French''] = Inr (next', st')
           \<and> added st' = 0 \<and> updated st' = 0
           \<and> unchanged st' = 2
           \<and> unchanged st' = added st + updated st + unchanged st
           \<and> deactivated st' = deactivated st
           \<and> next' = next)"
proof -
  let ?segs = "[\<lparr>seg_id = ''Label.A'', seg_source = ''Hi'', seg_maxwidth = ''10'', seg_sizeUnit = ''char'',
               seg_note = []\<rparr>,
              \<lparr>seg_id = ''Label.B'', seg_source = ''Bye'', seg_maxwidth = ''10'', seg_sizeUnit = ''char'',
               seg_note = []\<rparr>]"
  let ?rows = "[[''id'' \<mapsto> JStr ''Label.A'', ''English'' \<mapsto> JStr ''Hello'', ''French'' \<mapsto> JStr ''Bonjour'',
               ''active'' \<mapsto> JStr ''TRUE''],
              [''id'' \<mapsto> JStr ''Label.C'', ''English'' \<mapsto> JStr ''See'', ''French'' \<mapsto> JStr ''Voir'',
               ''active'' \<mapsto> JStr ''TRUE'']]"
  let ?hs = "[''id'', ''category'', ''maxwidth'', ''size-unit'', ''English'', ''active'', ''French'']"
  have h1: "list_all id_ok ?rows" by (simp add: id_ok_def cell_def)
  have h2: "list_all (\<lambda>s. trim (seg_id s) \<noteq> []) ?segs"
    by (simp add: trim_def is_space_def)
  have h3: "?hs \<noteq> []" by simp
  have c: "card (seg_id ` set ?segs) = 2" by simp
  note both = sync_twice [OF h2, of ?rows ?hs]
  have first: "\<exists>next st next' st'.
           syncXLFtoSheet [\<lparr>seg_id = ''Label.A'', seg_source = ''Hi'', seg_maxwidth = ''10'', seg_sizeUnit = ''char'',
               seg_note = []\<rparr>,
              \<lparr>seg_id = ''Label.B'', seg_source = ''Bye'', seg_maxwidth = ''10'', seg_sizeUnit = ''char'',
               seg_note = []\<rparr>] [[''id'' \<mapsto> JStr ''Label.A'', ''English'' \<mapsto> JStr ''Hello'', ''French'' \<mapsto> JStr ''Bonjour'',
               ''active'' \<mapsto> JStr ''TRUE''],
              [''id'' \<mapsto> JStr ''Label.C'', ''English'' \<mapsto> JStr ''See'', ''French'' \<mapsto> JStr ''Voir'',
               ''active'' \<mapsto> JStr ''TRUE'']] [''id'', ''category'', ''maxwidth'', ''size-unit'', ''English'', ''active'', ''French''] = Inr (next, st)
           \<and> syncXLFtoSheet [\<lparr>seg_id = ''Label.A'', seg_source = ''Hi'', seg_maxwidth = ''10'', seg_sizeUnit = ''char'',
               seg_note = []\<rparr>,
              \<lparr>seg_id = ''Label.B'', seg_source = ''Bye'', seg_maxwidth = ''10'', seg_sizeUnit = ''char'',
               seg_note = []\<rparr>] next [''id'', ''category'', ''maxwidth'', ''size-unit'', ''English'', ''active'', ''French''] = Inr (next', st')
           \<and> added st' = 0 \<and> updated st' = 0
           \<and> unchanged st' = 2
           \<and> unchanged st' = added st + updated st + unchanged st
           \<and> deactivated st' = deactivated st
           \<and> next' = next"
    using both [THEN conjunct1, THEN mp, OF h1] unfolding c .
  have second: "\<exists>next st next' st'.
           syncXLFtoSheet_writeSheet [\<lparr>seg_id = ''Label.A'', seg_source = ''Hi'', seg_maxwidth = ''10'', seg_sizeUnit = ''char'',
               seg_note = []\<rparr>,
              \<lparr>seg_id = ''Label.B'', seg_source = ''Bye'', seg_maxwidth = ''10'', seg_sizeUnit = ''char'',
               seg_note = []\<rparr>] [[''id'' \<mapsto> JStr ''Label.A'', ''English'' \<mapsto> JStr ''Hello'', ''French'' \<mapsto> JStr ''Bonjour'',
               ''active'' \<mapsto> JStr ''TRUE''],
              [''id'' \<mapsto> JStr ''Label.C'', ''English'' \<mapsto> JStr ''See'', ''French'' \<mapsto> JStr ''Voir'',
               ''active'' \<mapsto> JStr ''TRUE'']] [''id'', ''category'', ''maxwidth'', ''size-unit'', ''English'', ''active'', ''French''] = Inr (next, st)
           \<and> syncXLFtoSheet_writeSheet [\<lparr>seg_id = ''Label.A'', seg_source = ''Hi'', seg_maxwidth = ''10'', seg_sizeUnit = ''char'',
               seg_note = []\<rparr>,
              \<lparr>seg_id = ''Label.B'', seg_source = ''Bye'', seg_maxwidth = ''10'', seg_sizeUnit = ''char'',
               seg_note = []\<rparr>] next [''id'', ''category'', ''maxwidth'', ''size-unit'', ''English'', ''active'', ''French''] = Inr (next', st')
           \<and> added st' = 0 \<and> updated st' = 0
           \<and> unchanged st' = 2
           \<and> unchanged st' = added st + updated st + unchanged st
           \<and> deactivated st' = deactivated st
           \<and> next' = next"
    using both [THEN conjunct2, THEN mp, OF h3] unfolding c .
  from first second show ?thesis by (rule conjI)
qed

lemma sync_deactivated_again_writeSheet:
  "syncXLFtoSheet_writeSheet []
     [[''id'' \<mapsto> JStr ''Label.A'', ''English'' \<mapsto> JStr ''Hello'', ''French'' \<mapsto> JStr ''Bonjour'',
       ''active'' \<mapsto> a]]
     [''id'', ''category'', ''maxwidth'', ''size-unit'', ''English'', ''active'', ''French'']
   = Inr ([[''id'' \<mapsto> JStr ''Label.A'', ''English'' \<mapsto> JStr ''Hello'', ''French'' \<mapsto> JStr ''Bonjour'',
       ''active'' \<mapsto> JBool False]],
          \<lparr>added = 0, updated = 0, unchanged = 0, deactivated = 1\<rparr>)"
proof -
  have h: "\<not> has_id [] v" for v by (cases v) (simp_all add: has_id_def)
  show ?thesis
    by (simp add: syncXLFtoSheet_writeSheet_eq index_segments_def index_rows_def cell_def h
        deactivated_row_def)
qed

text \<open>
  C1 as the claim words it fails: a record whose id is not in the document is counted as
  deactivated by every run, the second one included, and is never counted as unchanged.
  Here the document has no segment and the sheet has one record; the first pair of runs is
  the version that updates in place, the second pair the version that rewrites.
\<close>

theorem sync_twice_deactivated_counterexample:
  "syncXLFtoSheet []
     [[''id'' \<mapsto> JStr ''Label.A'', ''English'' \<mapsto> JStr ''Hello'', ''French'' \<mapsto> JStr ''Bonjour'',
       ''active'' \<mapsto> JStr ''TRUE'']]
     [''id'', ''category'', ''maxwidth'', ''size-unit'', ''English'', ''active'', ''French'']
   = Inr ([[''id'' \<mapsto> JStr ''Label.A'', ''English'' \<mapsto> JStr ''Hello'', ''French'' \<mapsto> JStr ''Bonjour'',
       ''active'' \<mapsto> JBool False]],
          \<lparr>added = 0, updated = 0, unchanged = 0, deactivated = 1\<rparr>)
   \<and> syncXLFtoSheet []
     [[''id'' \<mapsto> JStr ''Label.A'', ''English'' \<mapsto> JStr ''Hello'', ''French'' \<mapsto> JStr ''Bonjour'',
       ''active'' \<mapsto> JBool False]]
     [''id'', ''category'', ''maxwidth'', ''size-unit'', ''English'', ''active'', ''French'']
   = Inr ([[''id'' \<mapsto> JStr ''Label.A'', ''English'' \<mapsto> JStr ''Hello'', ''French'' \<mapsto> JStr ''Bonjour'',
       ''active'' \<mapsto> JBool False]],
          \<lparr>added = 0, updated = 0, unchanged = 0, deactivated = 1\<rparr>)
   \<and> syncXLFtoSheet_writeSheet []
     [[''id'' \<mapsto> JStr ''Label.A'', ''English'' \<mapsto> JStr ''Hello'', ''French'' \<mapsto> JStr ''Bonjour'',
       ''active'' \<mapsto> JStr ''TRUE'']]
     [''id'', ''category'', ''maxwidth'', ''size-unit'', ''English'', ''active'', ''French'']
   = Inr ([[''id'' \<mapsto> JStr ''Label.A'', ''English'' \<mapsto> JStr ''Hello'', ''French'' \<mapsto> JStr ''Bonjour'',
       ''active'' \<mapsto> JBool False]],
          \<lparr>added = 0, updated = 0, unchanged = 0, deactivated = 1\<rparr>)
   \<and> syncXLFtoSheet_writeSheet []
     [[''id'' \<mapsto> JStr ''Label.A'', ''English'' \<mapsto> JStr ''Hello'', ''French'' \<mapsto> JStr ''Bonjour'',
       ''active'' \<mapsto> JBool False]]
     [''id'', ''category'', ''maxwidth'', ''size-unit'', ''English'', ''active'', ''French'']
   = Inr ([[''id'' \<mapsto> JStr ''Label.A'', ''English'' \<mapsto> JStr ''Hello'', ''French'' \<mapsto> JStr ''Bonjour'',
       ''active'' \<mapsto> JBool False]],
          \<lparr>added = 0, updated = 0, unchanged = 0, deactivated = 1\<rparr>)"
  using sync_deactivated_again_updateRows
    sync_deactivated_again_writeSheet [of "JStr ''TRUE''"]
    sync_deactivated_again_writeSheet [of "JBool False"]
  by (intro conjI) simp_all

end
